theory Spec2Isabelle
  imports Complex_Main
begin

section \<open>Double-precision numbers\<close>

text \<open>
  A TypeScript \<open>number\<close> is an IEEE 754 double: a finite number, an infinity or \<open>NaN\<close>. The
  sign of zero is not represented, so every zero is \<open>+0\<close>. The finite values \<open>Fin x\<close> range
  over all reals, which include the doubles; every operation rounds its exact result to a
  double.
\<close>

datatype double = Fin real | PInf | NInf | NaN

text \<open>\<open>twoTo e\<close> is the power of two with the integer exponent \<open>e\<close>.\<close>

definition twoTo :: "int \<Rightarrow> real" where
  "twoTo e = 2 powi e"

text \<open>
  The exponent of the binade of \<open>x\<close>: the largest \<open>e\<close> from \<open>-1022\<close> to \<open>1023\<close> with
  \<open>2 ^ e \<le> \<bar>x\<bar>\<close>, and \<open>-1022\<close> for the subnormal numbers.
\<close>

fun exponentDown :: "nat \<Rightarrow> real \<Rightarrow> int" where
  "exponentDown 0 x = - 1022"
| "exponentDown (Suc k) x =
    (if twoTo (int (Suc k) - 1022) \<le> \<bar>x\<bar> then int (Suc k) - 1022 else exponentDown k x)"

definition exponentOf :: "real \<Rightarrow> int" where
  "exponentOf x = exponentDown 2045 x"

text \<open>The integer nearest to \<open>y\<close>, the even one of two that are equally near.\<close>

definition rne :: "real \<Rightarrow> int" where
  "rne y =
    (let f = \<lfloor>y\<rfloor>; d = y - of_int f
     in if d < 1 / 2 then f else if 1 / 2 < d then f + 1 else if even f then f else f + 1)"

text \<open>
  Rounding to the nearest double, ties to even: the magnitude is rounded to a multiple of the
  unit in the last place of its binade, a significand of 53 bits, and overflows to an
  infinity when the rounded magnitude reaches \<open>2 ^ 1024\<close>.
\<close>

definition roundedAbs :: "real \<Rightarrow> real" where
  "roundedAbs x =
    (let ulp = twoTo (exponentOf x - 52) in of_int (rne (\<bar>x\<bar> / ulp)) * ulp)"

definition rnd :: "real \<Rightarrow> double" where
  "rnd x =
    (if twoTo 1024 \<le> roundedAbs x then (if x < 0 then NInf else PInf)
     else Fin (if x < 0 then - roundedAbs x else roundedAbs x))"

text \<open>The infinity with the sign of \<open>s\<close>, and \<open>NaN\<close> for \<open>s = 0\<close>.\<close>

definition infOf :: "real \<Rightarrow> double" where
  "infOf s = (if s = 0 then NaN else if 0 < s then PInf else NInf)"

text \<open>
  The operators \<open>-x\<close>, \<open>+\<close>, \<open>-\<close>, \<open>*\<close> and \<open>/\<close>. A finite number divided by zero is an
  infinity of the sign of the dividend, the zero divisor being \<open>+0\<close>, and \<open>0 / 0\<close> is \<open>NaN\<close>.
\<close>

fun dneg :: "double \<Rightarrow> double" where
  "dneg (Fin x) = Fin (- x)"
| "dneg PInf = NInf"
| "dneg NInf = PInf"
| "dneg NaN = NaN"

fun dadd :: "double \<Rightarrow> double \<Rightarrow> double" where
  "dadd (Fin x) (Fin y) = rnd (x + y)"
| "dadd (Fin x) PInf = PInf"
| "dadd (Fin x) NInf = NInf"
| "dadd PInf (Fin y) = PInf"
| "dadd PInf PInf = PInf"
| "dadd PInf NInf = NaN"
| "dadd NInf (Fin y) = NInf"
| "dadd NInf PInf = NaN"
| "dadd NInf NInf = NInf"
| "dadd NaN b = NaN"
| "dadd a NaN = NaN"

definition dsub :: "double \<Rightarrow> double \<Rightarrow> double" where
  "dsub a b = dadd a (dneg b)"

fun dmul :: "double \<Rightarrow> double \<Rightarrow> double" where
  "dmul (Fin x) (Fin y) = rnd (x * y)"
| "dmul (Fin x) PInf = infOf x"
| "dmul (Fin x) NInf = infOf (- x)"
| "dmul PInf (Fin y) = infOf y"
| "dmul PInf PInf = PInf"
| "dmul PInf NInf = NInf"
| "dmul NInf (Fin y) = infOf (- y)"
| "dmul NInf PInf = NInf"
| "dmul NInf NInf = PInf"
| "dmul NaN b = NaN"
| "dmul a NaN = NaN"

fun ddiv :: "double \<Rightarrow> double \<Rightarrow> double" where
  "ddiv (Fin x) (Fin y) = (if y = 0 then infOf x else rnd (x / y))"
| "ddiv (Fin x) PInf = Fin 0"
| "ddiv (Fin x) NInf = Fin 0"
| "ddiv PInf (Fin y) = (if y < 0 then NInf else PInf)"
| "ddiv NInf (Fin y) = (if y < 0 then PInf else NInf)"
| "ddiv PInf PInf = NaN"
| "ddiv PInf NInf = NaN"
| "ddiv NInf PInf = NaN"
| "ddiv NInf NInf = NaN"
| "ddiv NaN b = NaN"
| "ddiv a NaN = NaN"

text \<open>
  The comparisons \<open><\<close>, \<open>===\<close>, \<open><=\<close>, \<open>>\<close> and \<open>>=\<close>: each is false when an operand is
  \<open>NaN\<close>. \<open>Math.min\<close> is \<open>NaN\<close> when an argument is.
\<close>

fun dlt :: "double \<Rightarrow> double \<Rightarrow> bool" where
  "dlt (Fin x) (Fin y) = (x < y)"
| "dlt (Fin x) PInf = True"
| "dlt NInf (Fin y) = True"
| "dlt NInf PInf = True"
| "dlt a b = False"

definition deq :: "double \<Rightarrow> double \<Rightarrow> bool" where
  "deq a b = (a \<noteq> NaN \<and> a = b)"

definition dle :: "double \<Rightarrow> double \<Rightarrow> bool" where
  "dle a b = (dlt a b \<or> deq a b)"

definition dgt :: "double \<Rightarrow> double \<Rightarrow> bool" where
  "dgt a b = dlt b a"

definition dge :: "double \<Rightarrow> double \<Rightarrow> bool" where
  "dge a b = dle b a"

definition dmin :: "double \<Rightarrow> double \<Rightarrow> double" where
  "dmin a b = (if a = NaN \<or> b = NaN then NaN else if dlt b a then b else a)"

definition isFinite :: "double \<Rightarrow> bool" where
  "isFinite a = (case a of Fin x \<Rightarrow> True | _ \<Rightarrow> False)"

section \<open>Data model (types.ts)\<close>

text \<open>
  A number that the program computes is a \<open>double\<close>. A number that it only reads, copies and
  compares is a \<open>real\<close>: the values of the configuration, the prices that the exchange
  reports and the prices of the levels of a trading state. A \<open>number\<close>, that is a
  \<open>real option\<close>, is an order size as the allocator returns it, with \<open>None\<close> for a size that
  is not a finite number (\<open>NaN\<close>, \<open>Infinity\<close> or \<open>-Infinity\<close>). Counts are natural numbers.
  Calls of the logger change no state and are left out.
\<close>

type_synonym number = "real option"

datatype GridDistributionMethod = LINEAR | ARITHMETIC | GEOMETRIC | VOLATILITY_BASED

datatype OrderAllocationMethod = EQUAL | WEIGHTED | CUSTOM

datatype StopLossMethod = HARD | SOFT

datatype OrderType = LIMIT | CONDITIONAL

datatype Side = Buy | Sell

datatype OrderStatus = Pending | Filled | Canceled

record InvestmentConfig =
  totalInvestment :: real
  assetPair :: string
  leverage :: real

record GridConfig =
  numberOfGrids :: nat
  upperBound :: real
  lowerBound :: real
  autoRange :: bool
  distributionMethod :: GridDistributionMethod

record OrderConfig =
  allocationMethod :: OrderAllocationMethod
  customAllocationPattern :: "real list option"
  orderType :: OrderType

record BasicStopLossConfig =
  basicEnabled :: bool
  percentage :: real
  stopLossMethod :: StopLossMethod

record DynamicStopLossConfig =
  dynamicEnabled :: bool
  initialRiskThreshold :: real
  expansionFactor :: real
  maximumExpansion :: real

record TrailingStopLossConfig =
  trailingEnabled :: bool
  trailingDistance :: real
  activationThreshold :: real
  isDiscrete :: bool

record RiskManagementConfig =
  basicStopLoss :: BasicStopLossConfig
  dynamicStopLoss :: DynamicStopLossConfig
  trailingStopLoss :: TrailingStopLossConfig

record TradingBotConfig =
  investment :: InvestmentConfig
  grid :: GridConfig
  orderCfg :: OrderConfig
  riskManagement :: RiskManagementConfig

record GridOrder =
  orderId :: string
  orderPrice :: double
  orderSize :: double
  orderKind :: OrderType
  side :: Side
  status :: OrderStatus
  exchangeOrderId :: "string option"

record GridLevel =
  price :: real
  buyOrder :: "GridOrder option"
  sellOrder :: "GridOrder option"
  isActive :: bool

record TradingState =
  currentPrice :: real
  gridLevels :: "GridLevel list"
  activeOrders :: "GridOrder list"
  filledOrders :: "GridOrder list"
  unrealizedPnL :: double
  realizedPnL :: double
  currentStopLossLevel :: real

record PerformanceMetrics =
  pmUnrealizedPnL :: double
  pmRealizedPnL :: double
  gridUtilizationPercentage :: double
  riskExposure :: double
  pmCurrentStopLossLevel :: real
  tradeCount :: nat
  successRate :: double

record HistoricalTrade =
  timestamp :: real
  tradePrice :: double
  tradeSize :: double
  tradeSide :: Side
  gridLevel :: nat
  profit :: double

text \<open>
  \<open>throw new Error(message)\<close> is \<open>Error message\<close>; reading a property of \<open>undefined\<close>
  is a \<open>TypeError\<close>; a failed call of the exchange is an \<open>ExchangeError\<close>.
\<close>

datatype error = Error string | TypeError | ExchangeError

section \<open>Configuration validation (config/defaultConfig.ts)\<close>

definition validateConfig :: "TradingBotConfig \<Rightarrow> error + unit" where
  "validateConfig config =
    (if numberOfGrids (grid config) < 5 then
       Inl (Error ''Number of grids must be at least 5'')
     else if numberOfGrids (grid config) > 200 then
       Inl (Error ''Number of grids cannot exceed 200'')
     else if leverage (investment config) < 1 then
       Inl (Error ''Leverage must be at least 1x'')
     else if leverage (investment config) > 100 then
       Inl (Error ''Leverage cannot exceed 100x'')
     else if \<not> autoRange (grid config)
          \<and> upperBound (grid config) \<le> lowerBound (grid config) then
       Inl (Error ''Upper bound must be greater than lower bound'')
     else if \<not> autoRange (grid config) \<and> lowerBound (grid config) \<le> 0 then
       Inl (Error ''Lower bound must be greater than 0'')
     else if allocationMethod (orderCfg config) = CUSTOM
          \<and> (case customAllocationPattern (orderCfg config) of
                None \<Rightarrow> True | Some pat \<Rightarrow> length pat = 0) then
       Inl (Error ''Custom allocation method requires a customAllocationPattern'')
     else if allocationMethod (orderCfg config) = CUSTOM
          \<and> (case customAllocationPattern (orderCfg config) of
                None \<Rightarrow> False
              | Some pat \<Rightarrow> length pat \<noteq> numberOfGrids (grid config)) then
       Inl (Error ''Custom allocation pattern length must match the number of grids'')
     else if basicEnabled (basicStopLoss (riskManagement config))
          \<and> percentage (basicStopLoss (riskManagement config)) \<le> 0 then
       Inl (Error ''Stop loss percentage must be greater than 0'')
     else if dynamicEnabled (dynamicStopLoss (riskManagement config))
          \<and> initialRiskThreshold (dynamicStopLoss (riskManagement config)) \<le> 0 then
       Inl (Error ''Initial risk threshold must be greater than 0'')
     else if dynamicEnabled (dynamicStopLoss (riskManagement config))
          \<and> expansionFactor (dynamicStopLoss (riskManagement config)) \<le> 0 then
       Inl (Error ''Expansion factor must be greater than 0'')
     else if dynamicEnabled (dynamicStopLoss (riskManagement config))
          \<and> maximumExpansion (dynamicStopLoss (riskManagement config)) \<le> 0 then
       Inl (Error ''Maximum expansion must be greater than 0'')
     else if trailingEnabled (trailingStopLoss (riskManagement config))
          \<and> trailingDistance (trailingStopLoss (riskManagement config)) \<le> 0 then
       Inl (Error ''Trailing distance must be greater than 0'')
     else if trailingEnabled (trailingStopLoss (riskManagement config))
          \<and> activationThreshold (trailingStopLoss (riskManagement config)) < 0 then
       Inl (Error ''Activation threshold must be greater than or equal to 0'')
     else Inr ())"

text \<open>The default configuration of \<open>defaultConfig.ts\<close> (the fields of the model).\<close>

definition defaultConfig :: TradingBotConfig where
  "defaultConfig =
    \<lparr> investment = \<lparr> totalInvestment = 10000, assetPair = ''BTC/USD'', leverage = 1 \<rparr>,
      grid = \<lparr> numberOfGrids = 20, upperBound = 0, lowerBound = 0, autoRange = True,
               distributionMethod = LINEAR \<rparr>,
      orderCfg = \<lparr> allocationMethod = EQUAL, customAllocationPattern = None,
                   orderType = LIMIT \<rparr>,
      riskManagement =
        \<lparr> basicStopLoss = \<lparr> basicEnabled = True, percentage = 5, stopLossMethod = HARD \<rparr>,
          dynamicStopLoss = \<lparr> dynamicEnabled = True, initialRiskThreshold = 3,
                              expansionFactor = 1 / 2, maximumExpansion = 10 \<rparr>,
          trailingStopLoss = \<lparr> trailingEnabled = True, trailingDistance = 2,
                               activationThreshold = 1, isDiscrete = False \<rparr> \<rparr> \<rparr>"

section \<open>Arithmetic that can leave the finite numbers\<close>

text \<open>
  The arithmetic of the weighted allocation, on finite numbers without rounding.
  \<open>a / b\<close> for finite \<open>a\<close> and \<open>b\<close>: with \<open>b = 0\<close> the program gets \<open>NaN\<close> or an infinity.
\<close>

definition js_div :: "real \<Rightarrow> real \<Rightarrow> number" where
  "js_div a b = (if b = 0 then None else Some (a / b))"

text \<open>
  Sum, product and quotient of numbers that may already be non-finite. A non-finite operand
  gives a non-finite sum and product. For the quotient this holds of a non-finite dividend,
  and of a divisor that is \<open>NaN\<close>; the only non-finite divisor in this program is the weight
  sum of a one-level grid, which is \<open>NaN\<close> (from \<open>0 / 0\<close>).
\<close>

definition num_add :: "number \<Rightarrow> number \<Rightarrow> number" where
  "num_add a b = (case a of None \<Rightarrow> None
                  | Some x \<Rightarrow> (case b of None \<Rightarrow> None | Some y \<Rightarrow> Some (x + y)))"

definition num_mul :: "number \<Rightarrow> number \<Rightarrow> number" where
  "num_mul a b = (case a of None \<Rightarrow> None
                  | Some x \<Rightarrow> (case b of None \<Rightarrow> None | Some y \<Rightarrow> Some (x * y)))"

definition num_div :: "number \<Rightarrow> number \<Rightarrow> number" where
  "num_div a b = (case a of None \<Rightarrow> None
                  | Some x \<Rightarrow> (case b of None \<Rightarrow> None | Some y \<Rightarrow> js_div x y))"

section \<open>Order allocation (core/OrderAllocator.ts)\<close>

record OrderAllocator =
  orderConfig :: OrderConfig
  investmentConfig :: InvestmentConfig

record OrderSizes =
  buyOrderSizes :: "number list"
  sellOrderSizes :: "number list"

text \<open>A double as an order size: \<open>None\<close> when it is not a finite number.\<close>

definition toNumber :: "double \<Rightarrow> number" where
  "toNumber a = (case a of Fin x \<Rightarrow> Some x | _ \<Rightarrow> None)"

definition calculateEqualAllocation :: "OrderAllocator \<Rightarrow> GridLevel list \<Rightarrow> OrderSizes" where
  "calculateEqualAllocation oa levels =
    (let adjustedInvestment =
           dmul (Fin (totalInvestment (investmentConfig oa)))
                (Fin (leverage (investmentConfig oa)));
         investmentPerLevel = ddiv adjustedInvestment (Fin (real (length levels)));
         sizes = map (\<lambda>level. toNumber (ddiv investmentPerLevel (Fin (price level)))) levels
     in \<lparr> buyOrderSizes = sizes, sellOrderSizes = sizes \<rparr>)"

definition triangularWeights :: "nat \<Rightarrow> number list" where
  "triangularWeights n =
    map (\<lambda>i. case js_div (real i) (real n - 1) of
               None \<Rightarrow> None
             | Some q \<Rightarrow> (let distFromCenter = \<bar>q - 1 / 2\<bar> * 2 in Some (1 - distFromCenter)))
        [0..<n]"

definition calculateWeightedAllocation :: "OrderAllocator \<Rightarrow> GridLevel list \<Rightarrow> OrderSizes" where
  "calculateWeightedAllocation oa levels =
    (let adjustedInvestment =
           totalInvestment (investmentConfig oa) * leverage (investmentConfig oa);
         n = length levels;
         weights = triangularWeights n;
         weightSum = foldl num_add (Some 0) weights;
         normalizedWeights = map (\<lambda>w. num_div w weightSum) weights;
         sizes = map (\<lambda>(level, i).
                        num_div (num_mul (Some adjustedInvestment) (normalizedWeights ! i))
                                (Some (price level)))
                     (zip levels [0..<n])
     in \<lparr> buyOrderSizes = sizes, sellOrderSizes = sizes \<rparr>)"

text \<open>
  \<open>customAllocationPattern.reduce((sum, val) => sum + val, 0)\<close>: the entries are added from
  the left, and every sum is rounded.
\<close>

definition patternSum :: "real list \<Rightarrow> double" where
  "patternSum pat = foldl (\<lambda>sum val. dadd sum (Fin val)) (Fin 0) pat"

definition calculateCustomAllocation :: "OrderAllocator \<Rightarrow> GridLevel list \<Rightarrow> OrderSizes" where
  "calculateCustomAllocation oa levels =
    (let adjustedInvestment =
           dmul (Fin (totalInvestment (investmentConfig oa)))
                (Fin (leverage (investmentConfig oa)))
     in case customAllocationPattern (orderConfig oa) of
          None \<Rightarrow> calculateEqualAllocation oa levels
        | Some pat \<Rightarrow>
            if length pat \<noteq> length levels then calculateEqualAllocation oa levels
            else
              (let normalizedPattern = map (\<lambda>val. ddiv (Fin val) (patternSum pat)) pat;
                   sizes = map (\<lambda>(level, i).
                                  toNumber (ddiv (dmul adjustedInvestment (normalizedPattern ! i))
                                                 (Fin (price level))))
                               (zip levels [0..<length levels])
               in \<lparr> buyOrderSizes = sizes, sellOrderSizes = sizes \<rparr>))"

definition calculateOrderSizes :: "OrderAllocator \<Rightarrow> GridLevel list \<Rightarrow> OrderSizes" where
  "calculateOrderSizes oa levels =
    (case allocationMethod (orderConfig oa) of
       EQUAL \<Rightarrow> calculateEqualAllocation oa levels
     | WEIGHTED \<Rightarrow> calculateWeightedAllocation oa levels
     | CUSTOM \<Rightarrow> calculateCustomAllocation oa levels)"

text \<open>A level that carries no orders yet, as the grid generator creates it.\<close>

definition mkLevel :: "real \<Rightarrow> bool \<Rightarrow> GridLevel" where
  "mkLevel p a = \<lparr> price = p, buyOrder = None, sellOrder = None, isActive = a \<rparr>"


section \<open>Grid generation (core/GridGenerator.ts)\<close>

text \<open>
  The generator keeps the configuration it was given; \<open>genUpperBound\<close> and \<open>genLowerBound\<close>
  are the bounds \<open>this.config.upperBound\<close> and \<open>this.config.lowerBound\<close> as the generator
  reads them, which \<open>calculateAutoRange\<close> overwrites with computed numbers.
\<close>

record GridGenerator =
  genConfig :: GridConfig
  genUpperBound :: double
  genLowerBound :: double
  genCurrentPrice :: real
  historicalVolatility :: "real option"

text \<open>\<open>!this.historicalVolatility\<close>: true of \<open>undefined\<close> and of \<open>0\<close>.\<close>

definition noVolatility :: "GridGenerator \<Rightarrow> bool" where
  "noVolatility g = (case historicalVolatility g of None \<Rightarrow> True | Some v \<Rightarrow> v = 0)"

text \<open>The literals \<open>1.1\<close> and \<open>0.9\<close> are the doubles nearest to \<open>11 / 10\<close> and \<open>9 / 10\<close>.\<close>

definition calculateAutoRange :: "GridGenerator \<Rightarrow> GridGenerator" where
  "calculateAutoRange g =
    (case historicalVolatility g of
       None \<Rightarrow>
         g \<lparr> genUpperBound := dmul (Fin (genCurrentPrice g)) (rnd (11 / 10)),
             genLowerBound := dmul (Fin (genCurrentPrice g)) (rnd (9 / 10)) \<rparr>
     | Some v \<Rightarrow>
         if v = 0 then
           g \<lparr> genUpperBound := dmul (Fin (genCurrentPrice g)) (rnd (11 / 10)),
               genLowerBound := dmul (Fin (genCurrentPrice g)) (rnd (9 / 10)) \<rparr>
         else
           g \<lparr> genUpperBound :=
                 dmul (Fin (genCurrentPrice g)) (dadd (Fin 1) (dmul (Fin 2) (Fin v))),
               genLowerBound :=
                 dmul (Fin (genCurrentPrice g)) (dsub (Fin 1) (dmul (Fin 2) (Fin v))) \<rparr>)"

text \<open>The constructor.\<close>

definition newGridGenerator :: "GridConfig \<Rightarrow> real \<Rightarrow> real option \<Rightarrow> GridGenerator" where
  "newGridGenerator config cp hv =
    (let g = \<lparr> genConfig = config, genUpperBound = Fin (upperBound config),
                genLowerBound = Fin (lowerBound config), genCurrentPrice = cp,
                historicalVolatility = hv \<rparr>
     in if autoRange config then calculateAutoRange g else g)"

text \<open>
  A level as the generators push it: a price and the activity flag, without orders. The price
  is the computed double, which can be \<open>NaN\<close> or an infinity.
\<close>

record GeneratedLevel =
  generatedPrice :: double
  generatedActive :: bool

text \<open>\<open>{ price, isActive: price !== this.currentPrice }\<close>; \<open>NaN !== x\<close> is true.\<close>

definition pushLevel :: "GridGenerator \<Rightarrow> double \<Rightarrow> GeneratedLevel" where
  "pushLevel g p =
    \<lparr> generatedPrice = p, generatedActive = (\<not> deq p (Fin (genCurrentPrice g))) \<rparr>"

text \<open>
  \<open>Math.pow\<close> and \<open>Math.exp\<close> are functions of the JavaScript engine, whose results the
  language leaves to the implementation; they are parameters of the generators. The language
  fixes \<open>Math.pow(x, 0) = 1\<close> and \<open>Math.pow(x, NaN) = NaN\<close> for every \<open>x\<close>.
\<close>

record MathLib =
  enginePow :: "double \<Rightarrow> double \<Rightarrow> double"
  engineExp :: "double \<Rightarrow> double"

definition Math_pow :: "MathLib \<Rightarrow> double \<Rightarrow> double \<Rightarrow> double" where
  "Math_pow lib base exponent =
    (if exponent = NaN then NaN else if exponent = Fin 0 then Fin 1
     else enginePow lib base exponent)"

definition Math_exp :: "MathLib \<Rightarrow> double \<Rightarrow> double" where
  "Math_exp lib x = engineExp lib x"

text \<open>
  The generators return a level for each \<open>i\<close> from \<open>0\<close> below \<open>numberOfGrids\<close>. With one
  level the step of the linear grid is a division by \<open>numberOfGrids - 1 = 0\<close>, and the price
  \<open>lowerBound + step * 0\<close> is \<open>NaN\<close>.
\<close>

definition generateLinearGrid :: "GridGenerator \<Rightarrow> GeneratedLevel list" where
  "generateLinearGrid g =
    (let n = numberOfGrids (genConfig g);
         upper = genUpperBound g;
         lower = genLowerBound g;
         step = ddiv (dsub upper lower) (dsub (Fin (real n)) (Fin 1))
     in map (\<lambda>i. pushLevel g (dadd lower (dmul step (Fin (real i))))) [0..<n])"

text \<open>The arithmetic grid pushes \<open>currentLevel\<close> before it adds the next step.\<close>

definition generateArithmeticGrid :: "GridGenerator \<Rightarrow> GeneratedLevel list" where
  "generateArithmeticGrid g =
    (let n = numberOfGrids (genConfig g);
         upper = genUpperBound g;
         lower = genLowerBound g;
         totalDistance = dsub upper lower;
         commonDifference =
           ddiv (dmul (Fin 2) totalDistance)
                (dmul (Fin (real n)) (dsub (Fin (real n)) (Fin 1)))
     in fst (foldl (\<lambda>(levels, currentLevel) i.
                      (levels @ [pushLevel g currentLevel],
                       dadd currentLevel (dmul commonDifference (dadd (Fin (real i)) (Fin 1)))))
                   ([], lower) [0..<n]))"

definition generateGeometricGrid :: "MathLib \<Rightarrow> GridGenerator \<Rightarrow> GeneratedLevel list" where
  "generateGeometricGrid lib g =
    (let n = numberOfGrids (genConfig g);
         upper = genUpperBound g;
         lower = genLowerBound g;
         commonRatio = Math_pow lib (ddiv upper lower) (ddiv (Fin 1) (dsub (Fin (real n)) (Fin 1)))
     in map (\<lambda>i. pushLevel g (dmul lower (Math_pow lib commonRatio (Fin (real i))))) [0..<n])"

text \<open>
  \<open>gridLevels.sort((a, b) => a.price - b.price)\<close>: a stable sort under a comparison function
  that is consistent; otherwise, as when a price is \<open>NaN\<close>, the language leaves the order to
  the implementation, and the result is a permutation of the list. \<open>sortLevels\<close> is the
  insertion sort that puts a level before the first one it does not compare greater than.
\<close>

fun insertLevel :: "GeneratedLevel \<Rightarrow> GeneratedLevel list \<Rightarrow> GeneratedLevel list" where
  "insertLevel a [] = [a]"
| "insertLevel a (b # rest) =
    (if dgt (dsub (generatedPrice a) (generatedPrice b)) (Fin 0) then b # insertLevel a rest
     else a # b # rest)"

definition sortLevels :: "GeneratedLevel list \<Rightarrow> GeneratedLevel list" where
  "sortLevels levels = foldr insertLevel levels []"

text \<open>The volatility-based grid. The local \<open>stdDev\<close> is not used.\<close>

definition generateVolatilityBasedGrid :: "MathLib \<Rightarrow> GridGenerator \<Rightarrow> GeneratedLevel list"
  where
  "generateVolatilityBasedGrid lib g =
    (let n = numberOfGrids (genConfig g);
         upper = genUpperBound g;
         lower = genLowerBound g
     in case historicalVolatility g of
          None \<Rightarrow> generateLinearGrid g
        | Some hv \<Rightarrow>
            if hv = 0 then generateLinearGrid g
            else
              (let midPoint = ddiv (dadd upper lower) (Fin 2);
                   range = dsub upper lower;
                   levels =
                     map (\<lambda>i.
                            let normalizedI =
                                  dsub (dmul (ddiv (Fin (real i)) (dsub (Fin (real n)) (Fin 1)))
                                             (Fin 4))
                                       (Fin 2);
                                volatilityFactor =
                                  Math_exp lib (ddiv (dneg (dmul normalizedI normalizedI)) (Fin 2));
                                spacingFactor = dsub (Fin 1) (dmul volatilityFactor (Fin hv));
                                position = ddiv (Fin (real i)) (dsub (Fin (real n)) (Fin 1));
                                p = (if dlt position (Fin (1 / 2))
                                     then dsub midPoint
                                            (dmul (ddiv range (Fin 2))
                                                  (dmul (dmul position (Fin 2)) spacingFactor))
                                     else dadd midPoint
                                            (dmul (ddiv range (Fin 2))
                                                  (dmul (dmul (dsub position (Fin (1 / 2)))
                                                              (Fin 2))
                                                        spacingFactor)))
                            in pushLevel g p)
                         [0..<n]
               in sortLevels levels))"

definition generateGridLevels :: "MathLib \<Rightarrow> GridGenerator \<Rightarrow> GeneratedLevel list" where
  "generateGridLevels lib g =
    (case distributionMethod (genConfig g) of
       LINEAR \<Rightarrow> generateLinearGrid g
     | ARITHMETIC \<Rightarrow> generateArithmeticGrid g
     | GEOMETRIC \<Rightarrow> generateGeometricGrid lib g
     | VOLATILITY_BASED \<Rightarrow> generateVolatilityBasedGrid lib g)"

text \<open>The loop of \<open>updateGridLevels\<close> over the levels after the first.\<close>

fun closestLoop :: "real \<Rightarrow> GridLevel \<Rightarrow> real \<Rightarrow> GridLevel list \<Rightarrow> GridLevel" where
  "closestLoop newPrice closestLevel minDistance [] = closestLevel"
| "closestLoop newPrice closestLevel minDistance (level # rest) =
    (let distance = \<bar>newPrice - price level\<bar>
     in if distance < minDistance then closestLoop newPrice level distance rest
        else closestLoop newPrice closestLevel minDistance rest)"

text \<open>
  \<open>updateGridLevels\<close> stores the new price first. On an empty list \<open>gridLevels[0]\<close> is
  \<open>undefined\<close> and reading its price is a \<open>TypeError\<close>.
\<close>

definition updateGridLevels ::
  "GridGenerator \<Rightarrow> GridLevel list \<Rightarrow> real \<Rightarrow> (error + GridLevel list) \<times> GridGenerator" where
  "updateGridLevels g levels newPrice =
    (let g' = g \<lparr> genCurrentPrice := newPrice \<rparr>
     in case levels of
          [] \<Rightarrow> (Inl TypeError, g')
        | first # rest \<Rightarrow>
            (let closestLevel = closestLoop newPrice first \<bar>newPrice - price first\<bar> rest
             in (Inr (map (\<lambda>level. level \<lparr> isActive := price level \<noteq> price closestLevel \<rparr>)
                          levels),
                 g')))"

section \<open>Risk management (risk-management/RiskManager.ts)\<close>

text \<open>
  The stop-loss price and the current profit are computed numbers. The trailing stop price is
  kept as the product \<open>currentPrice * (1 - trailingDistance / 100)\<close> over the reals.
\<close>

record RiskManager =
  rmConfig :: RiskManagementConfig
  initialPrice :: real
  stopLossPrice :: "double option"
  trailingStopPrice :: "real option"
  currentProfit :: double

definition calculateBasicStopLossPrice :: "RiskManager \<Rightarrow> real \<Rightarrow> double" where
  "calculateBasicStopLossPrice rm cp =
    dmul (Fin cp)
         (dsub (Fin 1) (ddiv (Fin (percentage (basicStopLoss (rmConfig rm)))) (Fin 100)))"

definition calculateDynamicStopLossPrice :: "RiskManager \<Rightarrow> real \<Rightarrow> double \<Rightarrow> double" where
  "calculateDynamicStopLossPrice rm cp profitNow =
    (if \<not> dynamicEnabled (dynamicStopLoss (rmConfig rm))
     then calculateBasicStopLossPrice rm cp
     else
       (let initialThreshold = initialRiskThreshold (dynamicStopLoss (rmConfig rm));
            factor = expansionFactor (dynamicStopLoss (rmConfig rm));
            maxExpansion = maximumExpansion (dynamicStopLoss (rmConfig rm));
            profitExpansion = dmin (dmul profitNow (Fin factor)) (Fin maxExpansion);
            dynamicStopLossPercentage = dadd (Fin initialThreshold) profitExpansion
        in dmul (Fin cp) (dsub (Fin 1) (ddiv dynamicStopLossPercentage (Fin 100)))))"

text \<open>The constructor.\<close>

definition newRiskManager :: "RiskManagementConfig \<Rightarrow> real \<Rightarrow> RiskManager" where
  "newRiskManager config price0 =
    (let rm = \<lparr> rmConfig = config, initialPrice = price0, stopLossPrice = None,
                 trailingStopPrice = None, currentProfit = Fin 0 \<rparr>
     in if basicEnabled (basicStopLoss config)
        then rm \<lparr> stopLossPrice := Some (calculateBasicStopLossPrice rm price0) \<rparr>
        else rm)"

text \<open>
  \<open>profitPercentage = ((currentPrice / this.initialPrice) - 1) * 100\<close>, each of the three
  operations rounded, and the test \<open>profitPercentage >= activationThreshold\<close>.
\<close>

definition profitPercentage :: "real \<Rightarrow> real \<Rightarrow> double" where
  "profitPercentage cp price0 = dmul (dsub (ddiv (Fin cp) (Fin price0)) (Fin 1)) (Fin 100)"

definition profitPercentageReaches :: "real \<Rightarrow> real \<Rightarrow> real \<Rightarrow> bool" where
  "profitPercentageReaches cp price0 threshold = dge (profitPercentage cp price0) (Fin threshold)"

definition updateTrailingStopLoss :: "RiskManager \<Rightarrow> real \<Rightarrow> RiskManager" where
  "updateTrailingStopLoss rm cp =
    (let threshold = activationThreshold (trailingStopLoss (rmConfig rm));
         distance = trailingDistance (trailingStopLoss (rmConfig rm));
         rm1 = (if profitPercentageReaches cp (initialPrice rm) threshold
                then (let newTrailingStop = cp * (1 - distance / 100)
                      in case trailingStopPrice rm of
                           None \<Rightarrow> rm \<lparr> trailingStopPrice := Some newTrailingStop \<rparr>
                         | Some old \<Rightarrow>
                             if newTrailingStop > old
                             then rm \<lparr> trailingStopPrice := Some newTrailingStop \<rparr>
                             else rm)
                else rm)
     in case trailingStopPrice rm1 of
          None \<Rightarrow> rm1
        | Some trailing \<Rightarrow>
            (case stopLossPrice rm1 of
               None \<Rightarrow> rm1 \<lparr> stopLossPrice := Some (Fin trailing) \<rparr>
             | Some stop \<Rightarrow>
                 if dgt (Fin trailing) stop then rm1 \<lparr> stopLossPrice := Some (Fin trailing) \<rparr>
                 else rm1))"

text \<open>\<open>updateStopLoss\<close> returns the stop-loss price and leaves the manager updated.\<close>

definition updateStopLoss :: "RiskManager \<Rightarrow> TradingState \<Rightarrow> double option \<times> RiskManager" where
  "updateStopLoss rm tradingState =
    (let cp = currentPrice tradingState;
         rm0 = rm \<lparr> currentProfit :=
                      dadd (unrealizedPnL tradingState) (realizedPnL tradingState) \<rparr>;
         rm1 = (if basicEnabled (basicStopLoss (rmConfig rm0))
                then rm0 \<lparr> stopLossPrice := Some (calculateBasicStopLossPrice rm0 cp) \<rparr>
                else rm0);
         rm2 = (if dynamicEnabled (dynamicStopLoss (rmConfig rm1))
                then rm1 \<lparr> stopLossPrice :=
                             Some (calculateDynamicStopLossPrice rm1 cp (currentProfit rm1)) \<rparr>
                else rm1);
         rm3 = (if trailingEnabled (trailingStopLoss (rmConfig rm2))
                then updateTrailingStopLoss rm2 cp
                else rm2)
     in (stopLossPrice rm3, rm3))"

definition isStopLossTriggered :: "RiskManager \<Rightarrow> real \<Rightarrow> bool" where
  "isStopLossTriggered rm cp =
    (case stopLossPrice rm of None \<Rightarrow> False | Some stop \<Rightarrow> dle (Fin cp) stop)"

text \<open>Successive calls of \<open>updateStopLoss\<close>, one for each trading state of a list.\<close>

definition updateStopLossEach :: "RiskManager \<Rightarrow> TradingState list \<Rightarrow> RiskManager" where
  "updateStopLossEach rm states = foldl (\<lambda>r ts. snd (updateStopLoss r ts)) rm states"

section \<open>Order execution (execution/ExecutionEngine.ts)\<close>

text \<open>
  The world outside the engine: the exchange connector, whose calls can fail, and the clock
  read by \<open>Date.now()\<close>. Each answer may depend on the number of requests made before it,
  so every sequence of answers and failures is some world.
\<close>

record OrderRequest =
  reqPrice :: double
  reqSize :: double
  reqSide :: Side
  reqType :: OrderType

datatype Request =
    GetCurrentPrice
  | PlaceOrder OrderRequest
  | GetOrderStatus string
  | CancelOrder string
  | DateNow

record World =
  getCurrentPrice :: "nat \<Rightarrow> error + real"
  exchangePlaceOrder :: "nat \<Rightarrow> OrderRequest \<Rightarrow> error + string"
  getOrderStatus :: "nat \<Rightarrow> string \<Rightarrow> error + OrderStatus"
  cancelOrder :: "nat \<Rightarrow> string \<Rightarrow> error + unit"
  dateNow :: "nat \<Rightarrow> real"

text \<open>The engine; \<open>requests\<close> records the requests it has made, oldest first.\<close>

record ExecutionEngine =
  tradingState :: TradingState
  historicalTrades :: "HistoricalTrade list"
  priceHistory :: "real list"
  latestPerformanceMetrics :: PerformanceMetrics
  requests :: "Request list"

definition newExecutionEngine :: "TradingState \<Rightarrow> ExecutionEngine" where
  "newExecutionEngine initialState =
    \<lparr> tradingState = initialState,
      historicalTrades = [],
      priceHistory = [],
      latestPerformanceMetrics =
        \<lparr> pmUnrealizedPnL = Fin 0, pmRealizedPnL = Fin 0, gridUtilizationPercentage = Fin 0,
          riskExposure = Fin 0, pmCurrentStopLossLevel = 0, tradeCount = 0,
          successRate = Fin 0 \<rparr>,
      requests = [] \<rparr>"

text \<open>\<open>if (order.exchangeOrderId)\<close>: an absent identifier and the empty string are falsy.\<close>

definition truthyId :: "string option \<Rightarrow> string option" where
  "truthyId i = (case i of None \<Rightarrow> None | Some s \<Rightarrow> if s = [] then None else Some s)"

definition placeOrder ::
  "World \<Rightarrow> ExecutionEngine \<Rightarrow> GridOrder \<Rightarrow> (error + GridOrder) \<times> ExecutionEngine" where
  "placeOrder w e ord =
    (let req = \<lparr> reqPrice = orderPrice ord, reqSize = orderSize ord, reqSide = side ord,
                 reqType = orderKind ord \<rparr>;
         answer = exchangePlaceOrder w (length (requests e)) req;
         e' = e \<lparr> requests := requests e @ [PlaceOrder req] \<rparr>
     in case answer of
          Inl err \<Rightarrow> (Inl err, e')
        | Inr exchangeId \<Rightarrow>
            (Inr (ord \<lparr> exchangeOrderId := Some exchangeId, status := Pending \<rparr>), e'))"

text \<open>
  One order of a level inside the \<open>try\<close> block of \<open>placeGridOrders\<close>: the result says whether
  the placement threw.
\<close>

definition placeIfPending ::
  "World \<Rightarrow> GridOrder option \<Rightarrow> GridOrder list \<times> ExecutionEngine
     \<Rightarrow> bool \<times> GridOrder list \<times> ExecutionEngine" where
  "placeIfPending w ordOpt acc =
    (case ordOpt of
       None \<Rightarrow> (False, acc)
     | Some ord \<Rightarrow>
         if status ord = Pending then
           (case placeOrder w (snd acc) ord of
              (Inl err, e') \<Rightarrow> (True, fst acc, e')
            | (Inr placed, e') \<Rightarrow> (False, fst acc @ [placed], e'))
         else (False, acc))"

fun placeLevels ::
  "World \<Rightarrow> GridLevel list \<Rightarrow> GridOrder list \<times> ExecutionEngine
     \<Rightarrow> GridOrder list \<times> ExecutionEngine" where
  "placeLevels w [] acc = acc"
| "placeLevels w (level # rest) acc =
    (if \<not> isActive level then placeLevels w rest acc
     else
       (case placeIfPending w (buyOrder level) acc of
          (True, acc1) \<Rightarrow> placeLevels w rest acc1
        | (False, acc1) \<Rightarrow> placeLevels w rest (snd (placeIfPending w (sellOrder level) acc1))))"

definition placeGridOrders :: "World \<Rightarrow> ExecutionEngine \<Rightarrow> ExecutionEngine" where
  "placeGridOrders w e =
    (case placeLevels w (gridLevels (tradingState e)) ([], e) of
       (placedOrders, e') \<Rightarrow>
         e' \<lparr> tradingState := (tradingState e')
               \<lparr> activeOrders :=
                   filter (\<lambda>ord. \<not> list_ex (\<lambda>placed. orderId placed = orderId ord)
                                              placedOrders)
                          (activeOrders (tradingState e'))
                   @ placedOrders \<rparr> \<rparr>)"

definition calculateUnrealizedPnL :: "ExecutionEngine \<Rightarrow> ExecutionEngine" where
  "calculateUnrealizedPnL e =
    (let cp = currentPrice (tradingState e);
         total = foldl (\<lambda>acc ord.
                          if status ord \<noteq> Pending then acc
                          else if side ord = Buy
                          then dadd acc (dmul (dsub (Fin cp) (orderPrice ord)) (orderSize ord))
                          else dadd acc (dmul (dsub (orderPrice ord) (Fin cp)) (orderSize ord)))
                       (Fin 0) (activeOrders (tradingState e))
     in e \<lparr> tradingState := (tradingState e) \<lparr> unrealizedPnL := total \<rparr> \<rparr>)"

definition updatePerformanceMetrics :: "ExecutionEngine \<Rightarrow> ExecutionEngine" where
  "updatePerformanceMetrics e0 =
    (let e = calculateUnrealizedPnL e0;
         activeGrids = length (filter isActive (gridLevels (tradingState e)));
         totalGrids = length (gridLevels (tradingState e));
         gridUtilization =
           dmul (ddiv (Fin (real activeGrids)) (Fin (real totalGrids))) (Fin 100);
         totalInvested = foldl (\<lambda>sum ord. dadd sum (dmul (orderPrice ord) (orderSize ord)))
                               (Fin 0) (activeOrders (tradingState e));
         totalTrades = length (historicalTrades e);
         profitableTrades =
           length (filter (\<lambda>trade. dgt (profit trade) (Fin 0)) (historicalTrades e));
         rate = (if totalTrades > 0
                 then dmul (ddiv (Fin (real profitableTrades)) (Fin (real totalTrades)))
                           (Fin 100)
                 else Fin 0)
     in e \<lparr> latestPerformanceMetrics :=
               \<lparr> pmUnrealizedPnL = unrealizedPnL (tradingState e),
                 pmRealizedPnL = realizedPnL (tradingState e),
                 gridUtilizationPercentage = gridUtilization,
                 riskExposure = totalInvested,
                 pmCurrentStopLossLevel = currentStopLossLevel (tradingState e),
                 tradeCount = totalTrades,
                 successRate = rate \<rparr> \<rparr>)"

text \<open>\<open>initialize\<close> rethrows a failure of the price request.\<close>

definition initialize :: "World \<Rightarrow> ExecutionEngine \<Rightarrow> (error + unit) \<times> ExecutionEngine" where
  "initialize w e =
    (let answer = getCurrentPrice w (length (requests e));
         e0 = e \<lparr> requests := requests e @ [GetCurrentPrice] \<rparr>
     in case answer of
          Inl err \<Rightarrow> (Inl err, e0)
        | Inr cp \<Rightarrow>
            (let e1 = e0 \<lparr> tradingState := (tradingState e0) \<lparr> currentPrice := cp \<rparr>,
                           priceHistory := priceHistory e0 @ [cp] \<rparr>;
                 e2 = placeGridOrders w e1
             in (Inr (), updatePerformanceMetrics e2)))"

fun checkFillsLoop ::
  "World \<Rightarrow> GridOrder list \<Rightarrow> GridOrder list \<times> ExecutionEngine
     \<Rightarrow> GridOrder list \<times> ExecutionEngine" where
  "checkFillsLoop w [] acc = acc"
| "checkFillsLoop w (ord # rest) (filled, e) =
    (case truthyId (exchangeOrderId ord) of
       None \<Rightarrow> checkFillsLoop w rest (filled, e)
     | Some exchangeId \<Rightarrow>
         (let answer = getOrderStatus w (length (requests e)) exchangeId;
              e' = e \<lparr> requests := requests e @ [GetOrderStatus exchangeId] \<rparr>
          in case answer of
               Inr Filled \<Rightarrow> checkFillsLoop w rest (filled @ [ord \<lparr> status := Filled \<rparr>], e')
             | _ \<Rightarrow> checkFillsLoop w rest (filled, e')))"

definition checkOrderFills :: "World \<Rightarrow> ExecutionEngine \<Rightarrow> GridOrder list \<times> ExecutionEngine" where
  "checkOrderFills w e = checkFillsLoop w (activeOrders (tradingState e)) ([], e)"

text \<open>
  The orders that \<open>calculateRealizedPnL\<close> and \<open>recordTrade\<close> pair with a filled order: the
  filled orders of the other side whose price \<open>===\<close> its price.
\<close>

definition oppositeOrders :: "TradingState \<Rightarrow> GridOrder \<Rightarrow> GridOrder list" where
  "oppositeOrders ts filledOrder =
    filter (\<lambda>ord. deq (orderPrice ord) (orderPrice filledOrder) \<and> side ord \<noteq> side filledOrder)
           (filledOrders ts)"

definition calculateRealizedPnL :: "ExecutionEngine \<Rightarrow> GridOrder list \<Rightarrow> ExecutionEngine" where
  "calculateRealizedPnL e filled =
    (let newRealizedPnL =
           foldl (\<lambda>acc filledOrder.
                    let previousOppositeOrders = oppositeOrders (tradingState e) filledOrder
                    in if length previousOppositeOrders > 0 then
                         (let oppositeOrder = last previousOppositeOrders
                          in if side filledOrder = Sell \<and> side oppositeOrder = Buy then
                               dadd acc
                                 (dmul (dsub (orderPrice filledOrder) (orderPrice oppositeOrder))
                                       (orderSize filledOrder))
                             else if side filledOrder = Buy \<and> side oppositeOrder = Sell then
                               dadd acc
                                 (dmul (dsub (orderPrice oppositeOrder) (orderPrice filledOrder))
                                       (orderSize filledOrder))
                             else acc)
                       else acc)
                 (Fin 0) filled
     in e \<lparr> tradingState := (tradingState e)
             \<lparr> realizedPnL := dadd (realizedPnL (tradingState e)) newRealizedPnL \<rparr> \<rparr>)"

definition recordTrade :: "World \<Rightarrow> ExecutionEngine \<Rightarrow> GridOrder \<Rightarrow> nat \<Rightarrow> ExecutionEngine" where
  "recordTrade w e ord gridLevelIndex =
    (let opposites = oppositeOrders (tradingState e) ord;
         tradeProfit =
           (if length opposites > 0 then
              (let oppositeOrder = last opposites
               in if side ord = Sell
                  then dmul (dsub (orderPrice ord) (orderPrice oppositeOrder)) (orderSize ord)
                  else dmul (dsub (orderPrice oppositeOrder) (orderPrice ord)) (orderSize ord))
            else Fin 0);
         trade = \<lparr> timestamp = dateNow w (length (requests e)),
                   tradePrice = orderPrice ord,
                   tradeSize = orderSize ord,
                   tradeSide = side ord,
                   gridLevel = gridLevelIndex,
                   profit = tradeProfit \<rparr>
     in e \<lparr> historicalTrades := historicalTrades e @ [trade],
             requests := requests e @ [DateNow] \<rparr>)"

text \<open>\<open>Array.prototype.findIndex\<close>, with \<open>None\<close> for \<open>-1\<close>.\<close>

fun findIndex :: "('a \<Rightarrow> bool) \<Rightarrow> 'a list \<Rightarrow> nat option" where
  "findIndex P [] = None"
| "findIndex P (x # xs) =
    (if P x then Some 0 else map_option Suc (findIndex P xs))"

definition levelHasOrder :: "string \<Rightarrow> GridLevel \<Rightarrow> bool" where
  "levelHasOrder oid level =
    ((case buyOrder level of None \<Rightarrow> False | Some b \<Rightarrow> orderId b = oid)
     \<or> (case sellOrder level of None \<Rightarrow> False | Some s \<Rightarrow> orderId s = oid))"

text \<open>
  The loop of \<open>processFilledOrders\<close> over the filled orders: a filled order without a grid
  level is skipped, and a failed placement of the opposite order skips the rest of the body.
\<close>

fun oppositeLoop ::
  "World \<Rightarrow> GridOrder list \<Rightarrow> GridOrder list \<times> ExecutionEngine
     \<Rightarrow> GridOrder list \<times> ExecutionEngine" where
  "oppositeLoop w [] acc = acc"
| "oppositeLoop w (filledOrder # rest) (newOrders, e) =
    (case findIndex (levelHasOrder (orderId filledOrder)) (gridLevels (tradingState e)) of
       None \<Rightarrow> oppositeLoop w rest (newOrders, e)
     | Some gridLevelIndex \<Rightarrow>
         (let level = gridLevels (tradingState e) ! gridLevelIndex;
              oppositeSide = (if side filledOrder = Buy then Sell else Buy);
              newOrder = \<lparr> orderId = orderId filledOrder @ ''-opposite'',
                           orderPrice = Fin (price level),
                           orderSize = orderSize filledOrder,
                           orderKind = orderKind filledOrder,
                           side = oppositeSide,
                           status = Pending,
                           exchangeOrderId = None \<rparr>
          in case placeOrder w e newOrder of
               (Inl err, e1) \<Rightarrow> oppositeLoop w rest (newOrders, e1)
             | (Inr placedOrder, e1) \<Rightarrow>
                 (let updatedGridLevel =
                        (if oppositeSide = Buy
                         then level \<lparr> buyOrder := Some placedOrder, sellOrder := None \<rparr>
                         else level \<lparr> sellOrder := Some placedOrder, buyOrder := None \<rparr>);
                      e2 = e1 \<lparr> tradingState := (tradingState e1)
                                \<lparr> gridLevels := (gridLevels (tradingState e1))
                                                   [gridLevelIndex := updatedGridLevel] \<rparr> \<rparr>;
                      e3 = recordTrade w e2 filledOrder gridLevelIndex
                  in oppositeLoop w rest (newOrders @ [placedOrder], e3))))"

definition processFilledOrders ::
  "World \<Rightarrow> ExecutionEngine \<Rightarrow> GridOrder list \<Rightarrow> ExecutionEngine" where
  "processFilledOrders w e filled =
    (let e1 = e \<lparr> tradingState := (tradingState e)
                  \<lparr> activeOrders :=
                      filter (\<lambda>ord. \<not> list_ex (\<lambda>f. orderId f = orderId ord) filled)
                             (activeOrders (tradingState e)),
                    filledOrders := filledOrders (tradingState e) @ filled \<rparr> \<rparr>;
         e2 = calculateRealizedPnL e1 filled
     in case oppositeLoop w filled ([], e2) of
          (newOrders, e3) \<Rightarrow>
            e3 \<lparr> tradingState := (tradingState e3)
                  \<lparr> activeOrders := activeOrders (tradingState e3) @ newOrders \<rparr> \<rparr>)"

text \<open>\<open>updateMarketData\<close> catches every failure; after a failed price request nothing else
  is done.\<close>

definition updateMarketData :: "World \<Rightarrow> ExecutionEngine \<Rightarrow> ExecutionEngine" where
  "updateMarketData w e =
    (let answer = getCurrentPrice w (length (requests e));
         e0 = e \<lparr> requests := requests e @ [GetCurrentPrice] \<rparr>
     in case answer of
          Inl err \<Rightarrow> e0
        | Inr cp \<Rightarrow>
            (let e1 = e0 \<lparr> tradingState := (tradingState e0) \<lparr> currentPrice := cp \<rparr>,
                           priceHistory := priceHistory e0 @ [cp] \<rparr>
             in case checkOrderFills w e1 of
                  (filled, e2) \<Rightarrow>
                    (let e3 = (if length filled > 0 then processFilledOrders w e2 filled
                               else e2)
                     in updatePerformanceMetrics e3)))"

text \<open>
  The loop of \<open>cancelAllOrders\<close>: the first cancellation that fails leaves the loop through
  the \<open>catch\<close> block, which rethrows.
\<close>

fun cancelLoop :: "World \<Rightarrow> GridOrder list \<Rightarrow> ExecutionEngine \<Rightarrow> (error + unit) \<times> ExecutionEngine"
  where
  "cancelLoop w [] e = (Inr (), e)"
| "cancelLoop w (ord # rest) e =
    (case truthyId (exchangeOrderId ord) of
       None \<Rightarrow> cancelLoop w rest e
     | Some exchangeId \<Rightarrow>
         (let answer = cancelOrder w (length (requests e)) exchangeId;
              e' = e \<lparr> requests := requests e @ [CancelOrder exchangeId] \<rparr>
          in case answer of
               Inl err \<Rightarrow> (Inl err, e')
             | Inr u \<Rightarrow> cancelLoop w rest e'))"

definition cancelAllOrders :: "World \<Rightarrow> ExecutionEngine \<Rightarrow> (error + unit) \<times> ExecutionEngine"
  where
  "cancelAllOrders w e =
    (case cancelLoop w (activeOrders (tradingState e)) e of
       (Inl err, e') \<Rightarrow> (Inl err, e')
     | (Inr u, e') \<Rightarrow>
         (Inr (), e' \<lparr> tradingState := (tradingState e') \<lparr> activeOrders := [] \<rparr> \<rparr>))"

text \<open>
  The exchange identifiers that \<open>cancelAllOrders\<close> sends to the exchange when nothing fails:
  those of the orders that have one, in the order of the list.
\<close>

definition exchangeIds :: "GridOrder list \<Rightarrow> string list" where
  "exchangeIds orders = List.map_filter (\<lambda>ord. truthyId (exchangeOrderId ord)) orders"

text \<open>
  The engine states a session can reach from a trading state: an engine is created on the
  state, and then driven through its public operations.
\<close>

inductive reachable :: "World \<Rightarrow> TradingState \<Rightarrow> ExecutionEngine \<Rightarrow> bool"
  for w :: World and initialState :: TradingState where
  created: "reachable w initialState (newExecutionEngine initialState)"
| initialized: "reachable w initialState e \<Longrightarrow> reachable w initialState (snd (initialize w e))"
| updated: "reachable w initialState e \<Longrightarrow> reachable w initialState (updateMarketData w e)"
| cancelled:
    "reachable w initialState e \<Longrightarrow> reachable w initialState (snd (cancelAllOrders w e))"

text \<open>The property of claim C2 as a predicate on engine states.\<close>

definition realizedZero :: "ExecutionEngine \<Rightarrow> bool" where
  "realizedZero e =
    (realizedPnL (tradingState e) = Fin 0
     \<and> list_all (\<lambda>trade. profit trade = Fin 0) (historicalTrades e))"

text \<open>
  An order whose price and size are finite numbers, and a trading state whose active orders
  and whose orders on the grid levels are all such orders.
\<close>

definition finiteOrder :: "GridOrder \<Rightarrow> bool" where
  "finiteOrder ord = (isFinite (orderPrice ord) \<and> isFinite (orderSize ord))"

definition finiteLevel :: "GridLevel \<Rightarrow> bool" where
  "finiteLevel level =
    ((case buyOrder level of None \<Rightarrow> True | Some b \<Rightarrow> finiteOrder b)
     \<and> (case sellOrder level of None \<Rightarrow> True | Some s \<Rightarrow> finiteOrder s))"

definition ordersFinite :: "TradingState \<Rightarrow> bool" where
  "ordersFinite ts =
    (list_all finiteOrder (activeOrders ts) \<and> list_all finiteLevel (gridLevels ts))"

text \<open>The invariant of the engine under which the realized profit stays zero.\<close>

definition soundEngine :: "ExecutionEngine \<Rightarrow> bool" where
  "soundEngine e = (realizedZero e \<and> ordersFinite (tradingState e))"

section \<open>The bot (core/TradingBot.ts)\<close>

text \<open>The fields of the bot that \<open>stop\<close> reads or writes.\<close>

record TradingBot =
  executionEngine :: ExecutionEngine
  isRunning :: bool
  intervalId :: "nat option"

text \<open>\<open>stop\<close> catches what \<open>cancelAllOrders\<close> throws.\<close>

definition stop :: "World \<Rightarrow> TradingBot \<Rightarrow> TradingBot" where
  "stop w tb =
    (if \<not> isRunning tb then tb
     else
       (let tb1 = tb \<lparr> intervalId := None \<rparr>
        in case cancelAllOrders w (executionEngine tb1) of
             (outcome, e') \<Rightarrow> tb1 \<lparr> executionEngine := e', isRunning := False \<rparr>))"

section \<open>Concrete inputs\<close>

text \<open>The default configuration with an activation threshold of zero.\<close>

definition zeroActivationConfig :: TradingBotConfig where
  "zeroActivationConfig =
    defaultConfig \<lparr> riskManagement := (riskManagement defaultConfig)
      \<lparr> trailingStopLoss := \<lparr> trailingEnabled = True, trailingDistance = 2,
                               activationThreshold = 0, isDiscrete = False \<rparr> \<rparr> \<rparr>"

text \<open>The default configuration with a basic stop-loss percentage of zero.\<close>

definition zeroPercentageConfig :: TradingBotConfig where
  "zeroPercentageConfig =
    defaultConfig \<lparr> riskManagement := (riskManagement defaultConfig)
      \<lparr> basicStopLoss := \<lparr> basicEnabled = True, percentage = 0, stopLossMethod = HARD \<rparr> \<rparr> \<rparr>"

text \<open>Five levels at 90, 95, 100, 105 and 110, and an allocator over 1000 at leverage 1.\<close>

definition fiveLevels :: "GridLevel list" where
  "fiveLevels = [mkLevel 90 True, mkLevel 95 True, mkLevel 100 True, mkLevel 105 True,
                 mkLevel 110 True]"

definition allocator :: "OrderAllocationMethod \<Rightarrow> real list option \<Rightarrow> OrderAllocator" where
  "allocator m pat =
    \<lparr> orderConfig = \<lparr> allocationMethod = m, customAllocationPattern = pat,
                      orderType = LIMIT \<rparr>,
      investmentConfig = \<lparr> totalInvestment = 1000, assetPair = ''BTC/USD'',
                           leverage = 1 \<rparr> \<rparr>"

text \<open>Five linear levels between 90 and 110.\<close>

definition fiveLinear :: GridConfig where
  "fiveLinear = \<lparr> numberOfGrids = 5, upperBound = 110, lowerBound = 90, autoRange = False,
                  distributionMethod = LINEAR \<rparr>"

text \<open>A trading state without levels and orders, at a price and an unrealized profit.\<close>

definition stateAt :: "real \<Rightarrow> double \<Rightarrow> TradingState" where
  "stateAt cp unrealized =
    \<lparr> currentPrice = cp, gridLevels = [], activeOrders = [], filledOrders = [],
      unrealizedPnL = unrealized, realizedPnL = Fin 0, currentStopLossLevel = 0 \<rparr>"

text \<open>The risk manager of the default configuration, started at the price 100.\<close>

definition defaultRiskManager :: RiskManager where
  "defaultRiskManager = newRiskManager (riskManagement defaultConfig) 100"

text \<open>That risk manager after an update at the price 110.\<close>

definition activatedRiskManager :: RiskManager where
  "activatedRiskManager = snd (updateStopLoss defaultRiskManager (stateAt 110 (Fin 0)))"

text \<open>
  The risk manager of the default configuration with an activation threshold of 13, started
  at the price 100.
\<close>

definition thirteenRiskManager :: RiskManager where
  "thirteenRiskManager =
    newRiskManager
      ((riskManagement defaultConfig)
         \<lparr> trailingStopLoss := \<lparr> trailingEnabled = True, trailingDistance = 2,
                                  activationThreshold = 13, isDiscrete = False \<rparr> \<rparr>)
      100"

text \<open>
  A world whose price is 100, that accepts every order under the identifier \<open>x1\<close>, reports
  every order filled and refuses every cancellation.
\<close>

definition fillingWorld :: World where
  "fillingWorld =
    \<lparr> getCurrentPrice = (\<lambda>n. Inr 100),
      exchangePlaceOrder = (\<lambda>n req. Inr ''x1''),
      getOrderStatus = (\<lambda>n i. Inr Filled),
      cancelOrder = (\<lambda>n i. Inl ExchangeError),
      dateNow = (\<lambda>n. 0) \<rparr>"

text \<open>A pending buy order of size 2 at the price 95, and the state with its level.\<close>

definition buyAt95 :: GridOrder where
  "buyAt95 = \<lparr> orderId = ''o1'', orderPrice = Fin 95, orderSize = Fin 2, orderKind = LIMIT,
               side = Buy, status = Pending, exchangeOrderId = None \<rparr>"

definition oneLevelState :: TradingState where
  "oneLevelState =
    \<lparr> currentPrice = 0,
      gridLevels = [\<lparr> price = 95, buyOrder = Some buyAt95, sellOrder = None,
                      isActive = True \<rparr>],
      activeOrders = [], filledOrders = [],
      unrealizedPnL = Fin 0, realizedPnL = Fin 0, currentStopLossLevel = 0 \<rparr>"

text \<open>
  The engine on that state after \<open>initialize\<close> and two calls of \<open>updateMarketData\<close>: the buy
  order fills, then the sell order that replaced it fills and is paired with it.
\<close>

definition engineAfterFill :: ExecutionEngine where
  "engineAfterFill =
    updateMarketData fillingWorld
      (updateMarketData fillingWorld
         (snd (initialize fillingWorld (newExecutionEngine oneLevelState))))"

text \<open>
  The same state with an order whose size is \<open>NaN\<close>, and the engine on it after the same
  calls.
\<close>

definition nanSizeState :: TradingState where
  "nanSizeState =
    oneLevelState
      \<lparr> gridLevels := [\<lparr> price = 95, buyOrder = Some (buyAt95 \<lparr> orderSize := NaN \<rparr>),
                         sellOrder = None, isActive = True \<rparr>] \<rparr>"

definition engineAfterNaNFill :: ExecutionEngine where
  "engineAfterNaNFill =
    updateMarketData fillingWorld
      (updateMarketData fillingWorld
         (snd (initialize fillingWorld (newExecutionEngine nanSizeState))))"

text \<open>
  An engine with two active orders that the exchange knows as \<open>a\<close> and \<open>b\<close>.
\<close>

definition twoActiveOrders :: ExecutionEngine where
  "twoActiveOrders =
    newExecutionEngine
      (oneLevelState
         \<lparr> activeOrders :=
             [buyAt95 \<lparr> exchangeOrderId := Some ''a'' \<rparr>,
              buyAt95 \<lparr> orderId := ''o2'', exchangeOrderId := Some ''b'' \<rparr>] \<rparr>)"

text \<open>The same world, except that it accepts every cancellation.\<close>

definition cancellingWorld :: World where
  "cancellingWorld = fillingWorld \<lparr> cancelOrder := (\<lambda>n i. Inr ()) \<rparr>"

text \<open>An allocator over 100 at leverage 1 with equal allocation, and one level at 11.\<close>

definition hundredAllocator :: OrderAllocator where
  "hundredAllocator =
    \<lparr> orderConfig = \<lparr> allocationMethod = EQUAL, customAllocationPattern = None,
                      orderType = LIMIT \<rparr>,
      investmentConfig = \<lparr> totalInvestment = 100, assetPair = ''BTC/USD'',
                           leverage = 1 \<rparr> \<rparr>"

definition levelAt11 :: "GridLevel list" where
  "levelAt11 = [mkLevel 11 True]"

text \<open>Five levels of which the first is priced 0, and three levels at 90, 100 and 110.\<close>

definition zeroPriceLevels :: "GridLevel list" where
  "zeroPriceLevels = [mkLevel 0 True, mkLevel 95 True, mkLevel 100 True, mkLevel 105 True,
                      mkLevel 110 True]"

definition threeLevels :: "GridLevel list" where
  "threeLevels = [mkLevel 90 True, mkLevel 100 True, mkLevel 110 True]"

text \<open>
  An engine whose \<open>pow\<close> and \<open>exp\<close> are constant; the linear grid calls neither of them.
\<close>

definition constantMath :: MathLib where
  "constantMath = \<lparr> enginePow = (\<lambda>base exponent. Fin 1), engineExp = (\<lambda>x. Fin 1) \<rparr>"

section \<open>Rounding to a double\<close>

lemma twoTo_pos [simp]: "0 < twoTo e"
  by (simp add: twoTo_def)

lemma twoTo_nonneg [simp]: "0 \<le> twoTo e"
  by (simp add: twoTo_def)

lemma twoTo_nonzero [simp]: "twoTo e \<noteq> 0"
  by (simp add: twoTo_def)

lemma twoTo_add: "twoTo (a + b) = twoTo a * twoTo b"
  by (simp add: twoTo_def power_int_add)

lemma twoTo_mono: "a \<le> b \<Longrightarrow> twoTo a \<le> twoTo b"
  unfolding twoTo_def by (intro power_int_increasing) auto

lemma twoTo_strict_mono: "a < b \<Longrightarrow> twoTo a < twoTo b"
  unfolding twoTo_def by (intro power_int_strict_increasing) auto

lemma twoTo_less_cancel: "twoTo a < twoTo b \<Longrightarrow> a < b"
  using twoTo_mono [of b a] by (cases "a < b") auto

lemma twoTo_nat: "twoTo (int k) = 2 ^ k"
  by (simp add: twoTo_def)

lemma twoTo_0 [simp]: "twoTo 0 = 1"
  by (simp add: twoTo_def)

lemma exponentDown_range: "- 1022 \<le> exponentDown k x \<and> exponentDown k x \<le> int k - 1022"
  by (induction k) auto

lemma exponentDown_lower:
  "twoTo (- 1022) \<le> \<bar>x\<bar> \<Longrightarrow> twoTo (exponentDown k x) \<le> \<bar>x\<bar>"
  by (induction k) auto

lemma exponentDown_upper:
  "\<bar>x\<bar> < twoTo (int k - 1022 + 1) \<Longrightarrow> \<bar>x\<bar> < twoTo (exponentDown k x + 1)"
proof (induction k)
  case 0
  then show ?case by simp
next
  case (Suc k)
  show ?case
  proof (cases "twoTo (int (Suc k) - 1022) \<le> \<bar>x\<bar>")
    case True
    then show ?thesis using Suc.prems by simp
  next
    case False
    then have "\<bar>x\<bar> < twoTo (int k - 1022 + 1)" by (simp add: algebra_simps)
    then show ?thesis using False Suc.IH by simp
  qed
qed

lemma exponentOf_range: "- 1022 \<le> exponentOf x" "exponentOf x \<le> 1023"
  using exponentDown_range [of 2045 x] by (simp_all add: exponentOf_def)

lemma exponentOf_lower: "twoTo (- 1022) \<le> \<bar>x\<bar> \<Longrightarrow> twoTo (exponentOf x) \<le> \<bar>x\<bar>"
  unfolding exponentOf_def by (rule exponentDown_lower)

lemma exponentOf_upper: "\<bar>x\<bar> < twoTo 1024 \<Longrightarrow> \<bar>x\<bar> < twoTo (exponentOf x + 1)"
  unfolding exponentOf_def using exponentDown_upper [of x 2045] by simp

lemma exponentOf_eq:
  assumes r: "- 1022 \<le> e" "e \<le> 1023"
    and l: "twoTo e \<le> \<bar>x\<bar>" and u: "\<bar>x\<bar> < twoTo (e + 1)"
  shows "exponentOf x = e"
proof -
  have "twoTo (- 1022) \<le> twoTo e" using r by (intro twoTo_mono) auto
  then have n: "twoTo (- 1022) \<le> \<bar>x\<bar>" using l by linarith
  have "twoTo (e + 1) \<le> twoTo 1024" using r by (intro twoTo_mono) auto
  then have m: "\<bar>x\<bar> < twoTo 1024" using u by linarith
  have "twoTo (exponentOf x) < twoTo (e + 1)"
    using exponentOf_lower [OF n] u by linarith
  then have 1: "exponentOf x < e + 1" by (rule twoTo_less_cancel)
  have "twoTo e < twoTo (exponentOf x + 1)"
    using exponentOf_upper [OF m] l by linarith
  then have 2: "e < exponentOf x + 1" by (rule twoTo_less_cancel)
  from 1 2 show ?thesis by linarith
qed

lemma exponentOf_small:
  assumes s: "\<bar>x\<bar> < twoTo (- 1022)"
  shows "exponentOf x = - 1022"
proof -
  have "exponentDown k x = - 1022" for k
  proof (induction k)
    case 0 show ?case by simp
  next
    case (Suc k)
    have "twoTo (- 1022) \<le> twoTo (int (Suc k) - 1022)"
      by (intro twoTo_mono) auto
    then have "\<not> twoTo (int (Suc k) - 1022) \<le> \<bar>x\<bar>" using s by linarith
    then show ?case using Suc by simp
  qed
  then show ?thesis by (simp add: exponentOf_def)
qed

lemma rne_close: "\<bar>of_int (rne y) - y\<bar> \<le> 1 / 2"
  unfolding rne_def Let_def by (auto simp: abs_le_iff)

lemma rne_of_int [simp]: "rne (of_int k) = k"
  by (simp add: rne_def)

lemma rne_0 [simp]: "rne 0 = 0"
  using rne_of_int [of 0] by simp

lemma exponentDown_minus [simp]: "exponentDown k (- x) = exponentDown k x"
  by (induction k) auto

lemma exponentOf_minus [simp]: "exponentOf (- x) = exponentOf x"
  by (simp add: exponentOf_def)

lemma rne_nonneg: "0 \<le> y \<Longrightarrow> 0 \<le> rne y"
  unfolding rne_def Let_def by (auto simp: zero_le_floor)

lemma rne_le_int: "y \<le> of_int n \<Longrightarrow> rne y \<le> n"
proof -
  assume a: "y \<le> of_int n"
  show ?thesis
  proof (cases "y = of_int n")
    case True then show ?thesis by simp
  next
    case False
    with a have "y < of_int n" by simp
    then have "\<lfloor>y\<rfloor> < n" by (simp add: floor_less_iff)
    then have "\<lfloor>y\<rfloor> + 1 \<le> n" by simp
    then show ?thesis unfolding rne_def Let_def by auto
  qed
qed

lemma roundedAbs_nonneg: "0 \<le> roundedAbs x"
  unfolding roundedAbs_def Let_def
  by (intro mult_nonneg_nonneg) (auto intro: rne_nonneg)

lemma roundedAbs_minus [simp]: "roundedAbs (- x) = roundedAbs x"
  by (simp add: roundedAbs_def)

lemma roundedAbs_0 [simp]: "roundedAbs 0 = 0"
  by (simp add: roundedAbs_def Let_def)

lemma rnd_0 [simp]: "rnd 0 = Fin 0"
  by (simp add: rnd_def not_le)

lemma rnd_Fin:
  assumes "rnd x = Fin y"
  shows "\<bar>y\<bar> = roundedAbs x" and "\<bar>y - x\<bar> = \<bar>roundedAbs x - \<bar>x\<bar>\<bar>" and "roundedAbs x < twoTo 1024"
  using assms roundedAbs_nonneg [of x] by (auto simp add: rnd_def split: if_splits)

lemma rnd_finite: "roundedAbs x < twoTo 1024 \<Longrightarrow> rnd x = Fin (if x < 0 then - roundedAbs x else roundedAbs x)"
  by (simp add: rnd_def)

lemma roundedAbs_eval:
  assumes "- 1022 \<le> e" "e \<le> 1023" "twoTo e \<le> \<bar>x\<bar>" "\<bar>x\<bar> < twoTo (e + 1)"
  shows "roundedAbs x = of_int (rne (\<bar>x\<bar> / twoTo (e - 52))) * twoTo (e - 52)"
  using exponentOf_eq [OF assms] by (simp add: roundedAbs_def Let_def)

lemma roundedAbs_close: "\<bar>roundedAbs x - \<bar>x\<bar>\<bar> \<le> twoTo (exponentOf x - 52) / 2"
proof -
  let ?u = "twoTo (exponentOf x - 52)"
  let ?t = "\<bar>x\<bar> / ?u"
  have u: "0 < ?u" by simp
  have "\<bar>roundedAbs x - \<bar>x\<bar>\<bar> = \<bar>(of_int (rne ?t) - ?t) * ?u\<bar>"
    using u by (simp add: roundedAbs_def Let_def algebra_simps)
  also have "\<dots> = \<bar>of_int (rne ?t) - ?t\<bar> * ?u" using u by (simp add: abs_mult)
  also have "\<dots> \<le> (1 / 2) * ?u"
    using rne_close [of ?t] u by (intro mult_right_mono) auto
  finally show ?thesis by simp
qed

lemma rnd_rel_error:
  assumes n: "twoTo (- 1022) \<le> \<bar>x\<bar>" and f: "rnd x = Fin y"
  shows "\<bar>y - x\<bar> \<le> twoTo (- 53) * \<bar>x\<bar>"
proof -
  let ?e = "exponentOf x"
  have "\<bar>y - x\<bar> \<le> twoTo (?e - 52) / 2"
    using rnd_Fin(2) [OF f] roundedAbs_close [of x] by simp
  also have "\<dots> = twoTo (- 53) * twoTo ?e"
  proof -
    have "twoTo (?e - 52) = twoTo (- 52) * twoTo ?e"
      using twoTo_add [of "- 52" ?e] by simp
    moreover have "twoTo (- 52) / 2 = twoTo (- 53)"
      using twoTo_add [of "- 53" 1] by (simp add: twoTo_def)
    ultimately show ?thesis by simp
  qed
  also have "\<dots> \<le> twoTo (- 53) * \<bar>x\<bar>"
    using exponentOf_lower [OF n] by (intro mult_left_mono) auto
  finally show ?thesis .
qed

lemma roundedAbs_le_next:
  assumes u: "\<bar>x\<bar> < twoTo 1024"
  shows "roundedAbs x \<le> twoTo (exponentOf x + 1)"
proof -
  let ?e = "exponentOf x"
  let ?u = "twoTo (?e - 52)"
  have e1: "twoTo (?e + 1) = twoTo 53 * ?u"
    using twoTo_add [of 53 "?e - 52"] by (simp add: algebra_simps)
  have "\<bar>x\<bar> < twoTo 53 * ?u" using exponentOf_upper [OF u] e1 by simp
  then have "\<bar>x\<bar> / ?u \<le> twoTo 53" by (simp add: divide_le_eq)
  moreover have "twoTo 53 = of_int (2 ^ 53)" using twoTo_nat [of 53] by simp
  ultimately have "\<bar>x\<bar> / ?u \<le> of_int (2 ^ 53)" by simp
  then have "rne (\<bar>x\<bar> / ?u) \<le> 2 ^ 53" by (rule rne_le_int)
  then have "real_of_int (rne (\<bar>x\<bar> / ?u)) \<le> of_int (2 ^ 53)" by (simp only: of_int_le_iff)
  then have "real_of_int (rne (\<bar>x\<bar> / ?u)) \<le> twoTo 53"
    using \<open>twoTo 53 = of_int (2 ^ 53)\<close> by simp
  then have "real_of_int (rne (\<bar>x\<bar> / ?u)) * ?u \<le> twoTo 53 * ?u"
    by (intro mult_right_mono) auto
  then show ?thesis using e1 by (simp add: roundedAbs_def Let_def)
qed

lemma roundedAbs_twoTo:
  assumes "- 1022 \<le> k" "k \<le> 1023"
  shows "roundedAbs (twoTo k) = twoTo k" and "roundedAbs (- twoTo k) = twoTo k"
proof -
  have lt: "twoTo k < twoTo (k + 1)" by (intro twoTo_strict_mono) auto
  have d: "twoTo k / twoTo (k - 52) = of_int (2 ^ 52)"
  proof -
    have "twoTo k = twoTo 52 * twoTo (k - 52)" using twoTo_add [of 52 "k - 52"] by simp
    then show ?thesis using twoTo_nat [of 52] by simp
  qed
  have m: "twoTo 52 * twoTo (k - 52) = twoTo k" using twoTo_add [of 52 "k - 52"] by simp
  have "roundedAbs (twoTo k) = of_int (rne (\<bar>twoTo k\<bar> / twoTo (k - 52))) * twoTo (k - 52)"
    using assms lt by (intro roundedAbs_eval) auto
  also have "\<dots> = of_int (2 ^ 52) * twoTo (k - 52)" by (simp add: d del: of_int_power of_int_numeral)
  also have "\<dots> = twoTo k" using m twoTo_nat [of 52] by simp
  finally show "roundedAbs (twoTo k) = twoTo k" .
  then show "roundedAbs (- twoTo k) = twoTo k" by simp
qed

lemma rnd_eval:
  assumes "- 1022 \<le> e" "e \<le> 1023" "twoTo e \<le> \<bar>x\<bar>" "\<bar>x\<bar> < twoTo (e + 1)"
  shows "rnd x =
    (if twoTo 1024 \<le> of_int (rne (\<bar>x\<bar> / twoTo (e - 52))) * twoTo (e - 52)
     then (if x < 0 then NInf else PInf)
     else Fin (if x < 0 then - (of_int (rne (\<bar>x\<bar> / twoTo (e - 52))) * twoTo (e - 52))
               else of_int (rne (\<bar>x\<bar> / twoTo (e - 52))) * twoTo (e - 52)))"
  unfolding rnd_def roundedAbs_eval [OF assms] ..

lemma rnd_bounded_twoTo:
  assumes k: "- 1021 \<le> k" "k \<le> 1023" and b: "\<bar>x\<bar> \<le> twoTo k"
  shows "\<exists>y. rnd x = Fin y \<and> \<bar>y\<bar> \<le> twoTo k"
proof -
  have top: "twoTo k < twoTo 1024" using k by (intro twoTo_strict_mono) auto
  then have u: "\<bar>x\<bar> < twoTo 1024" using b by linarith
  let ?e = "exponentOf x"
  have le: "roundedAbs x \<le> twoTo k"
  proof (cases "\<bar>x\<bar> = twoTo k")
    case True
    then have "x = twoTo k \<or> x = - twoTo k" by (auto simp: abs_if split: if_splits)
    then show ?thesis using roundedAbs_twoTo [of k] k by auto
  next
    case False
    with b have lt: "\<bar>x\<bar> < twoTo k" by simp
    have "?e + 1 \<le> k"
    proof (cases "twoTo (- 1022) \<le> \<bar>x\<bar>")
      case True
      have "twoTo ?e < twoTo k" using exponentOf_lower [OF True] lt by linarith
      then have "?e < k" by (rule twoTo_less_cancel)
      then show ?thesis by simp
    next
      case False
      then have "?e = - 1022" by (intro exponentOf_small) simp
      then show ?thesis using k by simp
    qed
    then have "twoTo (?e + 1) \<le> twoTo k" by (rule twoTo_mono)
    then show ?thesis using roundedAbs_le_next [OF u] by linarith
  qed
  then have "roundedAbs x < twoTo 1024" using top by linarith
  then have "rnd x = Fin (if x < 0 then - roundedAbs x else roundedAbs x)" by (rule rnd_finite)
  then show ?thesis using le roundedAbs_nonneg [of x] by auto
qed

lemma rnd_bounded:
  assumes "k \<le> 1023" and "\<bar>x\<bar> \<le> 2 ^ k"
  shows "\<exists>y. rnd x = Fin y \<and> \<bar>y\<bar> \<le> 2 ^ k"
  using rnd_bounded_twoTo [of "int k" x] assms by (simp add: twoTo_nat)

lemma roundedAbs_multiple:
  assumes m: "\<bar>x\<bar> = of_int n * twoTo (exponentOf x - 52)"
  shows "roundedAbs x = \<bar>x\<bar>"
proof -
  have "\<bar>x\<bar> / twoTo (exponentOf x - 52) = of_int n" using m by simp
  then show ?thesis using m by (simp add: roundedAbs_def Let_def)
qed

lemma rnd_of_int:
  assumes "\<bar>m\<bar> \<le> 2 ^ 53"
  shows "rnd (of_int m) = Fin (of_int m)"
proof (cases "m = 0")
  case True then show ?thesis by simp
next
  case False
  let ?x = "of_int m :: real"
  have ax: "\<bar>?x\<bar> = of_int \<bar>m\<bar>" by simp
  have "1 \<le> \<bar>m\<bar>" using False by simp
  then have "(1::real) \<le> of_int \<bar>m\<bar>" by (simp only: of_int_1_le_iff)
  then have one: "1 \<le> \<bar>?x\<bar>" by simp
  have "real_of_int \<bar>m\<bar> \<le> of_int (2 ^ 53)" using assms by (simp only: of_int_le_iff)
  then have le53: "\<bar>?x\<bar> \<le> twoTo 53" using twoTo_nat [of 53] by simp
  have "twoTo 53 < twoTo 1024" by (intro twoTo_strict_mono) simp
  then have u: "\<bar>?x\<bar> < twoTo 1024" using le53 by linarith
  have "twoTo (- 1022) \<le> twoTo 0" by (intro twoTo_mono) simp
  then have n: "twoTo (- 1022) \<le> \<bar>?x\<bar>" using one by simp
  let ?e = "exponentOf ?x"
  have lo: "twoTo ?e \<le> \<bar>?x\<bar>" by (rule exponentOf_lower [OF n])
  have "twoTo 53 < twoTo 54" by (intro twoTo_strict_mono) simp
  then have "twoTo ?e < twoTo 54" using lo le53 by linarith
  then have e53: "?e \<le> 53" using twoTo_less_cancel by fastforce
  have "twoTo 0 < twoTo (?e + 1)" using exponentOf_upper [OF u] one by simp
  then have e0: "0 \<le> ?e" using twoTo_less_cancel by fastforce
  have r: "roundedAbs ?x = \<bar>?x\<bar>"
  proof (cases "?e \<le> 52")
    case True
    define j where "j = nat (52 - ?e)"
    have j: "int j = 52 - ?e" using True by (simp add: j_def)
    have "twoTo (int j) * twoTo (?e - 52) = 1"
      using twoTo_add [of "int j" "?e - 52"] by (simp add: j)
    then have "\<bar>?x\<bar> = of_int \<bar>m\<bar> * (twoTo (int j) * twoTo (?e - 52))" by (simp add: ax del: of_int_abs)
    also have "\<dots> = of_int (\<bar>m\<bar> * 2 ^ j) * twoTo (?e - 52)" by (simp add: twoTo_nat)
    finally show ?thesis by (rule roundedAbs_multiple)
  next
    case False
    with e53 have e: "?e = 53" by simp
    have x: "\<bar>?x\<bar> = twoTo 53" using lo le53 e by simp
    then have "?x = twoTo 53 \<or> ?x = - twoTo 53" by (auto simp: abs_if split: if_splits)
    then show ?thesis using roundedAbs_twoTo [of 53] x by auto
  qed
  then have "roundedAbs ?x < twoTo 1024" using u by simp
  then show ?thesis using r by (auto simp add: rnd_def)
qed

lemma rnd_numeral [simp]:
  "numeral k \<le> (2::int) ^ 53 \<Longrightarrow> rnd (numeral k) = Fin (numeral k)"
  using rnd_of_int [of "numeral k"] by simp

lemma rnd_neg_numeral [simp]:
  "numeral k \<le> (2::int) ^ 53 \<Longrightarrow> rnd (- numeral k) = Fin (- numeral k)"
  using rnd_of_int [of "- numeral k"] by simp

lemma rnd_1 [simp]: "rnd 1 = Fin 1"
  using rnd_of_int [of 1] by simp

lemma rne_ge_int: "of_int n \<le> y \<Longrightarrow> n \<le> rne y"
proof -
  assume "of_int n \<le> y"
  then have "n \<le> \<lfloor>y\<rfloor>" by (simp add: le_floor_iff)
  then show ?thesis by (auto simp add: rne_def Let_def)
qed

lemma roundedAbs_lower:
  assumes k: "- 1022 \<le> k" and l: "twoTo k \<le> \<bar>x\<bar>" and u: "\<bar>x\<bar> < twoTo 1024"
  shows "twoTo k \<le> roundedAbs x"
proof -
  let ?e = "exponentOf x"
  have "twoTo (- 1022) \<le> twoTo k" using k by (rule twoTo_mono)
  then have n: "twoTo (- 1022) \<le> \<bar>x\<bar>" using l by linarith
  have lo: "twoTo ?e \<le> \<bar>x\<bar>" by (rule exponentOf_lower [OF n])
  have "twoTo k < twoTo (?e + 1)" using exponentOf_upper [OF u] l by linarith
  then have "k < ?e + 1" by (rule twoTo_less_cancel)
  then have ke: "twoTo k \<le> twoTo ?e" by (intro twoTo_mono) simp
  have s: "twoTo ?e = twoTo 52 * twoTo (?e - 52)" using twoTo_add [of 52 "?e - 52"] by simp
  have "twoTo 52 * twoTo (?e - 52) \<le> \<bar>x\<bar>" using lo s by simp
  then have "twoTo 52 \<le> \<bar>x\<bar> / twoTo (?e - 52)" by (simp add: pos_le_divide_eq)
  moreover have "twoTo 52 = of_int (2 ^ 52)" using twoTo_nat [of 52] by simp
  ultimately have "of_int (2 ^ 52) \<le> \<bar>x\<bar> / twoTo (?e - 52)" by simp
  then have "2 ^ 52 \<le> rne (\<bar>x\<bar> / twoTo (?e - 52))" by (rule rne_ge_int)
  then have "real_of_int (2 ^ 52) \<le> of_int (rne (\<bar>x\<bar> / twoTo (?e - 52)))"
    by (simp only: of_int_le_iff)
  then have "twoTo 52 \<le> of_int (rne (\<bar>x\<bar> / twoTo (?e - 52)))"
    using twoTo_nat [of 52] by simp
  then have "twoTo 52 * twoTo (?e - 52) \<le> of_int (rne (\<bar>x\<bar> / twoTo (?e - 52))) * twoTo (?e - 52)"
    by (intro mult_right_mono) simp_all
  then have "twoTo ?e \<le> roundedAbs x" using s by (simp add: roundedAbs_def Let_def)
  with ke show ?thesis by linarith
qed

lemma rnd_range:
  assumes lo: "- 1021 \<le> lo" and hi: "hi \<le> 1023"
    and l: "twoTo lo \<le> \<bar>x\<bar>" and u: "\<bar>x\<bar> \<le> twoTo hi"
  shows "\<exists>y. rnd x = Fin y \<and> twoTo lo \<le> \<bar>y\<bar> \<and> \<bar>y\<bar> \<le> twoTo hi
             \<and> \<bar>y - x\<bar> \<le> twoTo (- 53) * \<bar>x\<bar>"
proof -
  have "twoTo lo \<le> twoTo hi" using l u by linarith
  have lh: "lo \<le> hi"
  proof (rule ccontr)
    assume "\<not> lo \<le> hi"
    then have "twoTo hi < twoTo lo" by (intro twoTo_strict_mono) simp
    with l u show False by linarith
  qed
  have h1: "- 1021 \<le> hi" using lo lh by simp
  from rnd_bounded_twoTo [OF h1 hi u] obtain y where y: "rnd x = Fin y" "\<bar>y\<bar> \<le> twoTo hi"
    by blast
  have "twoTo hi < twoTo 1024" using hi by (intro twoTo_strict_mono) simp
  then have x: "\<bar>x\<bar> < twoTo 1024" using u by linarith
  have l2: "- 1022 \<le> lo" using lo by simp
  have "twoTo lo \<le> roundedAbs x" by (rule roundedAbs_lower [OF l2 l x])
  then have a: "twoTo lo \<le> \<bar>y\<bar>" using rnd_Fin(1) [OF y(1)] by simp
  have "twoTo (- 1022) \<le> twoTo lo" using l2 by (rule twoTo_mono)
  then have "twoTo (- 1022) \<le> \<bar>x\<bar>" using l by linarith
  then have "\<bar>y - x\<bar> \<le> twoTo (- 53) * \<bar>x\<bar>" using y(1) by (rule rnd_rel_error)
  with y a show ?thesis by blast
qed

lemma rnd_sign:
  assumes "rnd x = Fin y"
  shows "0 \<le> x \<Longrightarrow> 0 \<le> y" and "x \<le> 0 \<Longrightarrow> y \<le> 0"
proof -
  have r: "0 \<le> roundedAbs x" by (rule roundedAbs_nonneg)
  have y: "y = (if x < 0 then - roundedAbs x else roundedAbs x)"
    using assms by (auto simp add: rnd_def split: if_splits)
  show "0 \<le> x \<Longrightarrow> 0 \<le> y" using r y by simp
  show "x \<le> 0 \<Longrightarrow> y \<le> 0" using r y by (cases "x = 0") auto
qed

section \<open>Configuration validation: stop-loss fields\<close>

lemma validateConfig_defaultConfig: "validateConfig defaultConfig = Inr ()"
  by (simp add: validateConfig_def defaultConfig_def)

lemma validateConfig_fails:
  "(basicEnabled (basicStopLoss (riskManagement config))
       \<and> percentage (basicStopLoss (riskManagement config)) \<le> 0)
    \<or> (dynamicEnabled (dynamicStopLoss (riskManagement config))
        \<and> (initialRiskThreshold (dynamicStopLoss (riskManagement config)) \<le> 0
           \<or> expansionFactor (dynamicStopLoss (riskManagement config)) \<le> 0
           \<or> maximumExpansion (dynamicStopLoss (riskManagement config)) \<le> 0))
    \<or> (trailingEnabled (trailingStopLoss (riskManagement config))
        \<and> (trailingDistance (trailingStopLoss (riskManagement config)) \<le> 0
           \<or> activationThreshold (trailingStopLoss (riskManagement config)) < 0))
   \<longrightarrow> isl (validateConfig config)"
  by (simp add: validateConfig_def)

lemma validateConfig_passes:
  assumes g: "5 \<le> numberOfGrids (grid config)" "numberOfGrids (grid config) \<le> 200"
    and l: "1 \<le> leverage (investment config)" "leverage (investment config) \<le> 100"
    and r: "\<not> autoRange (grid config) \<longrightarrow>
          lowerBound (grid config) < upperBound (grid config) \<and> 0 < lowerBound (grid config)"
    and c: "allocationMethod (orderCfg config) = CUSTOM \<longrightarrow>
          (\<exists>pat. customAllocationPattern (orderCfg config) = Some pat
             \<and> length pat = numberOfGrids (grid config))"
    and b: "basicEnabled (basicStopLoss (riskManagement config)) \<longrightarrow>
          0 < percentage (basicStopLoss (riskManagement config))"
    and d: "dynamicEnabled (dynamicStopLoss (riskManagement config)) \<longrightarrow>
          0 < initialRiskThreshold (dynamicStopLoss (riskManagement config))
          \<and> 0 < expansionFactor (dynamicStopLoss (riskManagement config))
          \<and> 0 < maximumExpansion (dynamicStopLoss (riskManagement config))"
    and t: "trailingEnabled (trailingStopLoss (riskManagement config)) \<longrightarrow>
          0 < trailingDistance (trailingStopLoss (riskManagement config))
          \<and> 0 \<le> activationThreshold (trailingStopLoss (riskManagement config))"
  shows "validateConfig config = Inr ()"
proof -
  have g': "\<not> numberOfGrids (grid config) < 5" "\<not> numberOfGrids (grid config) > 200"
    using g by simp_all
  have l': "\<not> leverage (investment config) < 1" "\<not> leverage (investment config) > 100"
    using l by simp_all
  have r': "\<not> (\<not> autoRange (grid config)
          \<and> upperBound (grid config) \<le> lowerBound (grid config))"
       "\<not> (\<not> autoRange (grid config) \<and> lowerBound (grid config) \<le> 0)"
    using r by auto
  have c': "\<not> (allocationMethod (orderCfg config) = CUSTOM
          \<and> (case customAllocationPattern (orderCfg config) of
                None \<Rightarrow> True | Some pat \<Rightarrow> length pat = 0))"
     "\<not> (allocationMethod (orderCfg config) = CUSTOM
          \<and> (case customAllocationPattern (orderCfg config) of
                None \<Rightarrow> False
              | Some pat \<Rightarrow> length pat \<noteq> numberOfGrids (grid config)))"
    using c g(1) by auto
  have b': "\<not> (basicEnabled (basicStopLoss (riskManagement config))
          \<and> percentage (basicStopLoss (riskManagement config)) \<le> 0)"
    using b by auto
  have d': "\<not> (dynamicEnabled (dynamicStopLoss (riskManagement config))
          \<and> initialRiskThreshold (dynamicStopLoss (riskManagement config)) \<le> 0)"
      "\<not> (dynamicEnabled (dynamicStopLoss (riskManagement config))
          \<and> expansionFactor (dynamicStopLoss (riskManagement config)) \<le> 0)"
      "\<not> (dynamicEnabled (dynamicStopLoss (riskManagement config))
          \<and> maximumExpansion (dynamicStopLoss (riskManagement config)) \<le> 0)"
    using d by auto
  have t': "\<not> (trailingEnabled (trailingStopLoss (riskManagement config))
          \<and> trailingDistance (trailingStopLoss (riskManagement config)) \<le> 0)"
      "\<not> (trailingEnabled (trailingStopLoss (riskManagement config))
          \<and> activationThreshold (trailingStopLoss (riskManagement config)) < 0)"
    using t by auto
  show "validateConfig config = Inr ()"
    unfolding validateConfig_def by (simp only: g' l' r' c' b' d' t' if_False)
qed

text \<open>
  Claim C8, as stated, asks that an enabled trailing stop-loss with
  \<open>activationThreshold \<le> 0\<close> fails validation. The code rejects only a negative activation
  threshold: the default configuration with the threshold set to zero is accepted.
\<close>

theorem validateConfig_accepts_zero_activationThreshold:
  "trailingEnabled (trailingStopLoss (riskManagement zeroActivationConfig))
   \<and> activationThreshold (trailingStopLoss (riskManagement zeroActivationConfig)) \<le> 0
   \<and> validateConfig zeroActivationConfig = Inr ()"
  by (simp add: validateConfig_def defaultConfig_def zeroActivationConfig_def)

text \<open>
  Claim C8, amended: validateConfig raises a configuration error whenever basic stop-loss is
  enabled with percentage \<open>\<le> 0\<close>, or dynamic stop-loss is enabled with any of
  initialRiskThreshold, expansionFactor, maximumExpansion \<open>\<le> 0\<close>, or trailing stop-loss is
  enabled with trailingDistance \<open>\<le> 0\<close> or activationThreshold \<open>< 0\<close>. A configuration that
  passes the earlier checks (grid count, leverage, bounds, custom pattern) and whose enabled
  stop-loss fields are strictly positive, the activation threshold being allowed to be zero,
  passes validation.
\<close>

theorem validateConfig_stop_loss_fields:
  "((basicEnabled (basicStopLoss (riskManagement config))
       \<and> percentage (basicStopLoss (riskManagement config)) \<le> 0)
    \<or> (dynamicEnabled (dynamicStopLoss (riskManagement config))
        \<and> (initialRiskThreshold (dynamicStopLoss (riskManagement config)) \<le> 0
           \<or> expansionFactor (dynamicStopLoss (riskManagement config)) \<le> 0
           \<or> maximumExpansion (dynamicStopLoss (riskManagement config)) \<le> 0))
    \<or> (trailingEnabled (trailingStopLoss (riskManagement config))
        \<and> (trailingDistance (trailingStopLoss (riskManagement config)) \<le> 0
           \<or> activationThreshold (trailingStopLoss (riskManagement config)) < 0))
    \<longrightarrow> isl (validateConfig config))
   \<and>
   (5 \<le> numberOfGrids (grid config) \<and> numberOfGrids (grid config) \<le> 200
    \<and> 1 \<le> leverage (investment config) \<and> leverage (investment config) \<le> 100
    \<and> (\<not> autoRange (grid config) \<longrightarrow>
          lowerBound (grid config) < upperBound (grid config) \<and> 0 < lowerBound (grid config))
    \<and> (allocationMethod (orderCfg config) = CUSTOM \<longrightarrow>
          (\<exists>pat. customAllocationPattern (orderCfg config) = Some pat
             \<and> length pat = numberOfGrids (grid config)))
    \<and> (basicEnabled (basicStopLoss (riskManagement config)) \<longrightarrow>
          0 < percentage (basicStopLoss (riskManagement config)))
    \<and> (dynamicEnabled (dynamicStopLoss (riskManagement config)) \<longrightarrow>
          0 < initialRiskThreshold (dynamicStopLoss (riskManagement config))
          \<and> 0 < expansionFactor (dynamicStopLoss (riskManagement config))
          \<and> 0 < maximumExpansion (dynamicStopLoss (riskManagement config)))
    \<and> (trailingEnabled (trailingStopLoss (riskManagement config)) \<longrightarrow>
          0 < trailingDistance (trailingStopLoss (riskManagement config))
          \<and> 0 \<le> activationThreshold (trailingStopLoss (riskManagement config)))
    \<longrightarrow> validateConfig config = Inr ())"
proof (intro conjI impI)
  assume "(basicEnabled (basicStopLoss (riskManagement config))
       \<and> percentage (basicStopLoss (riskManagement config)) \<le> 0)
    \<or> (dynamicEnabled (dynamicStopLoss (riskManagement config))
        \<and> (initialRiskThreshold (dynamicStopLoss (riskManagement config)) \<le> 0
           \<or> expansionFactor (dynamicStopLoss (riskManagement config)) \<le> 0
           \<or> maximumExpansion (dynamicStopLoss (riskManagement config)) \<le> 0))
    \<or> (trailingEnabled (trailingStopLoss (riskManagement config))
        \<and> (trailingDistance (trailingStopLoss (riskManagement config)) \<le> 0
           \<or> activationThreshold (trailingStopLoss (riskManagement config)) < 0))"
  then show "isl (validateConfig config)" by (rule validateConfig_fails [THEN mp])
next
  assume "5 \<le> numberOfGrids (grid config) \<and> numberOfGrids (grid config) \<le> 200
    \<and> 1 \<le> leverage (investment config) \<and> leverage (investment config) \<le> 100
    \<and> (\<not> autoRange (grid config) \<longrightarrow>
          lowerBound (grid config) < upperBound (grid config) \<and> 0 < lowerBound (grid config))
    \<and> (allocationMethod (orderCfg config) = CUSTOM \<longrightarrow>
          (\<exists>pat. customAllocationPattern (orderCfg config) = Some pat
             \<and> length pat = numberOfGrids (grid config)))
    \<and> (basicEnabled (basicStopLoss (riskManagement config)) \<longrightarrow>
          0 < percentage (basicStopLoss (riskManagement config)))
    \<and> (dynamicEnabled (dynamicStopLoss (riskManagement config)) \<longrightarrow>
          0 < initialRiskThreshold (dynamicStopLoss (riskManagement config))
          \<and> 0 < expansionFactor (dynamicStopLoss (riskManagement config))
          \<and> 0 < maximumExpansion (dynamicStopLoss (riskManagement config)))
    \<and> (trailingEnabled (trailingStopLoss (riskManagement config)) \<longrightarrow>
          0 < trailingDistance (trailingStopLoss (riskManagement config))
          \<and> 0 \<le> activationThreshold (trailingStopLoss (riskManagement config)))"
  then show "validateConfig config = Inr ()"
    by (elim conjE) (rule validateConfig_passes)
qed

text \<open>
  The theorem at two inputs: the default configuration with a zero stop-loss percentage is
  rejected, and the default configuration with a zero activation threshold is accepted.
\<close>

theorem validateConfig_stop_loss_fields_witness:
  "isl (validateConfig zeroPercentageConfig) \<and> validateConfig zeroActivationConfig = Inr ()"
proof -
  have bad: "basicEnabled (basicStopLoss (riskManagement zeroPercentageConfig))
             \<and> percentage (basicStopLoss (riskManagement zeroPercentageConfig)) \<le> 0"
    by (simp add: zeroPercentageConfig_def)
  have good: "5 \<le> numberOfGrids (grid zeroActivationConfig)
    \<and> numberOfGrids (grid zeroActivationConfig) \<le> 200
    \<and> 1 \<le> leverage (investment zeroActivationConfig)
    \<and> leverage (investment zeroActivationConfig) \<le> 100
    \<and> (\<not> autoRange (grid zeroActivationConfig) \<longrightarrow>
          lowerBound (grid zeroActivationConfig) < upperBound (grid zeroActivationConfig)
          \<and> 0 < lowerBound (grid zeroActivationConfig))
    \<and> (allocationMethod (orderCfg zeroActivationConfig) = CUSTOM \<longrightarrow>
          (\<exists>pat. customAllocationPattern (orderCfg zeroActivationConfig) = Some pat
             \<and> length pat = numberOfGrids (grid zeroActivationConfig)))
    \<and> (basicEnabled (basicStopLoss (riskManagement zeroActivationConfig)) \<longrightarrow>
          0 < percentage (basicStopLoss (riskManagement zeroActivationConfig)))
    \<and> (dynamicEnabled (dynamicStopLoss (riskManagement zeroActivationConfig)) \<longrightarrow>
          0 < initialRiskThreshold (dynamicStopLoss (riskManagement zeroActivationConfig))
          \<and> 0 < expansionFactor (dynamicStopLoss (riskManagement zeroActivationConfig))
          \<and> 0 < maximumExpansion (dynamicStopLoss (riskManagement zeroActivationConfig)))
    \<and> (trailingEnabled (trailingStopLoss (riskManagement zeroActivationConfig)) \<longrightarrow>
          0 < trailingDistance (trailingStopLoss (riskManagement zeroActivationConfig))
          \<and> 0 \<le> activationThreshold (trailingStopLoss (riskManagement zeroActivationConfig)))"
    by (simp add: zeroActivationConfig_def defaultConfig_def)
  have 1: "isl (validateConfig zeroPercentageConfig)"
    by (rule validateConfig_stop_loss_fields
              [of zeroPercentageConfig, THEN conjunct1, THEN mp, OF disjI1, OF bad])
  have 2: "validateConfig zeroActivationConfig = Inr ()"
    by (rule validateConfig_stop_loss_fields
              [of zeroActivationConfig, THEN conjunct2, THEN mp, OF good])
  from 1 2 show ?thesis by (rule conjI)
qed

section \<open>Order allocation\<close>

lemma twoTo_neg_nat: "twoTo (- int k) = 1 / 2 ^ k"
  by (simp add: twoTo_def power_int_minus inverse_eq_divide)

lemma equal_sizes:
  "buyOrderSizes (calculateEqualAllocation oa levels)
     = map (\<lambda>l. toNumber
                   (ddiv (ddiv (dmul (Fin (totalInvestment (investmentConfig oa)))
                                     (Fin (leverage (investmentConfig oa))))
                               (Fin (real (length levels))))
                         (Fin (price l)))) levels"
  "sellOrderSizes (calculateEqualAllocation oa levels)
     = buyOrderSizes (calculateEqualAllocation oa levels)"
  by (simp_all add: calculateEqualAllocation_def Let_def)

lemma three_roundings:
  fixes u X a' v' d :: real
  assumes u: "0 \<le> u" "u \<le> 1 / 4" and X: "0 \<le> X"
    and a: "a' \<le> (1 + u) * X"
    and v: "v' \<le> (1 + u) * a'"
    and d: "d \<le> u * v' + u * a' + u * X"
  shows "d \<le> 4 * u * X"
proof -
  have 1: "u * a' \<le> u * ((1 + u) * X)" using a u(1) by (rule mult_left_mono)
  have "v' \<le> (1 + u) * ((1 + u) * X)"
  proof -
    have "(1 + u) * a' \<le> (1 + u) * ((1 + u) * X)" using a u(1) by (intro mult_left_mono) simp_all
    with v show ?thesis by linarith
  qed
  then have 2: "u * v' \<le> u * ((1 + u) * ((1 + u) * X))" using u(1) by (rule mult_left_mono)
  have uX: "0 \<le> u * X" using u(1) X by simp
  have "(1 + u) * (1 + u) + (1 + u) + 1 \<le> 4"
  proof -
    have "u * u \<le> (1 / 4) * (1 / 4)" using u by (intro mult_mono) simp_all
    then show ?thesis using u by (simp add: algebra_simps)
  qed
  then have "((1 + u) * (1 + u) + (1 + u) + 1) * (u * X) \<le> 4 * (u * X)"
    using uX by (rule mult_right_mono)
  moreover have "u * ((1 + u) * ((1 + u) * X)) + u * ((1 + u) * X) + u * X
                 = ((1 + u) * (1 + u) + (1 + u) + 1) * (u * X)"
    by (simp add: algebra_simps)
  ultimately show ?thesis using 1 2 d by linarith
qed

lemma equal_size_error:
  fixes x p :: real and n :: nat
  assumes x: "twoTo (- 300) \<le> \<bar>x\<bar>" "\<bar>x\<bar> \<le> twoTo 300"
    and n: "1 \<le> n" "n \<le> 2 ^ 32"
    and p: "twoTo (- 300) \<le> p" "p \<le> twoTo 300"
  shows "\<exists>s. ddiv (ddiv (rnd x) (Fin (real n))) (Fin p) = Fin s
             \<and> \<bar>s * p - x / real n\<bar> \<le> 4 * twoTo (- 53) * (\<bar>x\<bar> / real n)"
proof -
  define u where "u = twoTo (- 53)"
  have u0: "0 \<le> u" by (simp add: u_def)
  have "twoTo (- 53) \<le> twoTo (- 2)" by (intro twoTo_mono) simp
  moreover have "twoTo (- 2) = 1 / 4" using twoTo_neg_nat [of 2] by simp
  ultimately have u4: "u \<le> 1 / 4" by (simp add: u_def)
  have n0: "0 < real n" using n(1) by simp
  have n1: "1 \<le> real n" using n(1) by simp
  have "real n \<le> real (2 ^ 32)" using n(2) by (simp only: of_nat_le_iff)
  then have n32: "real n \<le> twoTo 32" using twoTo_nat [of 32] by simp
  have p0: "0 < p" using p(1) twoTo_pos [of "- 300"] by linarith
  from rnd_range [of "- 300" 300 x] x
  obtain a where a: "rnd x = Fin a" "twoTo (- 300) \<le> \<bar>a\<bar>" "\<bar>a\<bar> \<le> twoTo 300"
    "\<bar>a - x\<bar> \<le> u * \<bar>x\<bar>"
    unfolding u_def by auto
  have an_hi: "\<bar>a / real n\<bar> \<le> twoTo 300"
  proof -
    have "\<bar>a\<bar> / real n \<le> \<bar>a\<bar> / 1" using n1 by (intro divide_left_mono) simp_all
    then show ?thesis using a(3) by simp
  qed
  have an_lo: "twoTo (- 332) \<le> \<bar>a / real n\<bar>"
  proof -
    have "twoTo (- 332) * twoTo 32 = twoTo (- 300)" using twoTo_add [of "- 332" 32] by simp
    moreover have "twoTo (- 332) * real n \<le> twoTo (- 332) * twoTo 32"
      using n32 by (intro mult_left_mono) simp_all
    ultimately have "twoTo (- 332) * real n \<le> \<bar>a\<bar>" using a(2) by linarith
    then have "twoTo (- 332) \<le> \<bar>a\<bar> / real n" using n0 by (simp add: pos_le_divide_eq)
    then show ?thesis by simp
  qed
  from rnd_range [of "- 332" 300 "a / real n"] an_lo an_hi
  obtain v where v: "rnd (a / real n) = Fin v" "twoTo (- 332) \<le> \<bar>v\<bar>" "\<bar>v\<bar> \<le> twoTo 300"
    "\<bar>v - a / real n\<bar> \<le> u * \<bar>a / real n\<bar>"
    unfolding u_def by auto
  have vp_hi: "\<bar>v / p\<bar> \<le> twoTo 600"
  proof -
    have "twoTo 600 * twoTo (- 300) = twoTo 300" using twoTo_add [of 600 "- 300"] by simp
    moreover have "twoTo 600 * twoTo (- 300) \<le> twoTo 600 * p"
      using p(1) by (intro mult_left_mono) simp_all
    ultimately have "\<bar>v\<bar> \<le> twoTo 600 * p" using v(3) by linarith
    then have "\<bar>v\<bar> / p \<le> twoTo 600" using p0 by (simp add: pos_divide_le_eq)
    then show ?thesis using p0 by simp
  qed
  have vp_lo: "twoTo (- 632) \<le> \<bar>v / p\<bar>"
  proof -
    have "twoTo (- 632) * twoTo 300 = twoTo (- 332)" using twoTo_add [of "- 632" 300] by simp
    moreover have "twoTo (- 632) * p \<le> twoTo (- 632) * twoTo 300"
      using p(2) by (intro mult_left_mono) simp_all
    ultimately have "twoTo (- 632) * p \<le> \<bar>v\<bar>" using v(2) by linarith
    then have "twoTo (- 632) \<le> \<bar>v\<bar> / p" using p0 by (simp add: pos_le_divide_eq)
    then show ?thesis using p0 by simp
  qed
  from rnd_range [of "- 632" 600 "v / p"] vp_lo vp_hi
  obtain s where s: "rnd (v / p) = Fin s" "\<bar>s - v / p\<bar> \<le> u * \<bar>v / p\<bar>"
    unfolding u_def by auto
  have r: "ddiv (ddiv (rnd x) (Fin (real n))) (Fin p) = Fin s"
    using a(1) v(1) s(1) n0 p0 by simp
  define X where "X = \<bar>x\<bar> / real n"
  have X0: "0 \<le> X" using n0 by (simp add: X_def)
  have e1: "\<bar>a / real n - x / real n\<bar> \<le> u * X"
  proof -
    have "\<bar>a / real n - x / real n\<bar> = \<bar>a - x\<bar> / real n"
      using n0 by (simp add: diff_divide_distrib [symmetric])
    also have "\<dots> \<le> (u * \<bar>x\<bar>) / real n" using a(4) n0 by (intro divide_right_mono) simp_all
    finally show ?thesis by (simp add: X_def)
  qed
  have a1: "\<bar>a / real n\<bar> \<le> (1 + u) * X"
  proof -
    have "\<bar>a / real n\<bar> \<le> \<bar>x / real n\<bar> + \<bar>a / real n - x / real n\<bar>" by linarith
    moreover have "\<bar>x / real n\<bar> = X" using n0 by (simp add: X_def)
    moreover have "(1 + u) * X = X + u * X" by (simp only: distrib_right mult_1)
    ultimately show ?thesis using e1 by linarith
  qed
  have v1: "\<bar>v\<bar> \<le> (1 + u) * \<bar>a / real n\<bar>"
  proof -
    have "\<bar>v\<bar> \<le> \<bar>a / real n\<bar> + \<bar>v - a / real n\<bar>" by linarith
    moreover have "(1 + u) * \<bar>a / real n\<bar> = \<bar>a / real n\<bar> + u * \<bar>a / real n\<bar>"
      by (simp only: distrib_right mult_1)
    ultimately show ?thesis using v(4) by linarith
  qed
  have e3: "\<bar>s * p - v\<bar> \<le> u * \<bar>v\<bar>"
  proof -
    have "s * p - v = (s - v / p) * p" using p0 by (simp add: algebra_simps)
    then have "\<bar>s * p - v\<bar> = \<bar>s - v / p\<bar> * p" using p0 by (simp add: abs_mult)
    also have "\<dots> \<le> (u * \<bar>v / p\<bar>) * p" using s(2) p0 by (intro mult_right_mono) simp_all
    also have "\<dots> = u * \<bar>v\<bar>" using p0 by simp
    finally show ?thesis .
  qed
  have "\<bar>s * p - x / real n\<bar>
        \<le> \<bar>s * p - v\<bar> + \<bar>v - a / real n\<bar> + \<bar>a / real n - x / real n\<bar>"
    by linarith
  then have d: "\<bar>s * p - x / real n\<bar> \<le> u * \<bar>v\<bar> + u * \<bar>a / real n\<bar> + u * X"
    using e3 v(4) e1 by linarith
  have "\<bar>s * p - x / real n\<bar> \<le> 4 * u * X"
    by (rule three_roundings [OF u0 u4 X0 a1 v1 d])
  with r show ?thesis unfolding u_def X_def by blast
qed

lemma length_fiveLevels: "length fiveLevels = 5"
  by (simp add: fiveLevels_def)

text \<open>
  Claim C5, as stated, promises that the sum over all levels of \<open>size * price\<close> equals
  \<open>totalInvestment * leverage\<close> exactly. The sizes are doubles: with 100 to invest at
  leverage 1 and one level at the price 11, the size is the double nearest to \<open>100 / 11\<close>, and
  \<open>size * price\<close> is \<open>100 + 5 / 2 ^ 49\<close>.
\<close>

theorem equal_allocation_sum_not_exact:
  "allocationMethod (orderConfig hundredAllocator) = EQUAL
   \<and> length levelAt11 = 1
   \<and> 0 < price (levelAt11 ! 0)
   \<and> totalInvestment (investmentConfig hundredAllocator)
       * leverage (investmentConfig hundredAllocator) = 100
   \<and> buyOrderSizes (calculateOrderSizes hundredAllocator levelAt11) ! 0
       = Some (5117726849284655 / 2 ^ 49)
   \<and> the (buyOrderSizes (calculateOrderSizes hundredAllocator levelAt11) ! 0)
       * price (levelAt11 ! 0) = 100 + 5 / 2 ^ 49"
proof -
  have r: "rnd (100 / 11) = Fin (5117726849284655 / 2 ^ 49)"
    by (simp add: rnd_eval [where e = 3] twoTo_def rne_def Let_def)
  have s: "buyOrderSizes (calculateOrderSizes hundredAllocator levelAt11) ! 0
           = Some (5117726849284655 / 2 ^ 49)"
    by (simp add: calculateOrderSizes_def hundredAllocator_def levelAt11_def mkLevel_def
        calculateEqualAllocation_def Let_def r toNumber_def)
  show ?thesis
    unfolding s by (simp add: hundredAllocator_def levelAt11_def mkLevel_def)
qed

text \<open>
  Claim C5, amended: under equal allocation, for every list of \<open>n \<ge> 1\<close> grid levels, each
  level's buy size and sell size both equal the quotient
  \<open>(totalInvestment * leverage / n) / levelPrice\<close> as the doubles give it, that is with the
  product and both quotients rounded to the nearest double. When \<open>n \<le> 2 ^ 32\<close> and the
  magnitude of \<open>totalInvestment * leverage\<close> and every level price lie between \<open>1 / 2 ^ 300\<close>
  and \<open>2 ^ 300\<close>, every size is a finite number and the sum over all levels of
  \<open>size * price\<close>, taken over the reals, differs from \<open>totalInvestment * leverage\<close> by at most
  its magnitude divided by \<open>2 ^ 51\<close>.
\<close>

theorem equal_allocation_conserves_capital:
  assumes eq: "allocationMethod (orderConfig oa) = EQUAL"
    and ne: "levels \<noteq> []"
    and len: "length levels \<le> 2 ^ 32"
    and lo: "1 / 2 ^ 300
             \<le> \<bar>totalInvestment (investmentConfig oa) * leverage (investmentConfig oa)\<bar>"
    and hi: "\<bar>totalInvestment (investmentConfig oa) * leverage (investmentConfig oa)\<bar>
             \<le> 2 ^ 300"
    and prices: "\<forall>l \<in> set levels. 1 / 2 ^ 300 \<le> price l \<and> price l \<le> 2 ^ 300"
  shows "buyOrderSizes (calculateOrderSizes oa levels)
           = map (\<lambda>l. toNumber
                         (ddiv (ddiv (dmul (Fin (totalInvestment (investmentConfig oa)))
                                           (Fin (leverage (investmentConfig oa))))
                                     (Fin (real (length levels))))
                               (Fin (price l)))) levels
       \<and> sellOrderSizes (calculateOrderSizes oa levels)
           = buyOrderSizes (calculateOrderSizes oa levels)
       \<and> (\<forall>i < length levels. buyOrderSizes (calculateOrderSizes oa levels) ! i \<noteq> None)
       \<and> \<bar>(\<Sum>i<length levels.
              the (buyOrderSizes (calculateOrderSizes oa levels) ! i) * price (levels ! i))
           - totalInvestment (investmentConfig oa) * leverage (investmentConfig oa)\<bar>
         \<le> \<bar>totalInvestment (investmentConfig oa) * leverage (investmentConfig oa)\<bar>
           / 2 ^ 51"
proof -
  define x where "x = totalInvestment (investmentConfig oa) * leverage (investmentConfig oa)"
  define n where "n = length levels"
  define size where "size = (\<lambda>i. buyOrderSizes (calculateEqualAllocation oa levels) ! i)"
  have c: "calculateOrderSizes oa levels = calculateEqualAllocation oa levels"
    using eq by (simp add: calculateOrderSizes_def)
  have t300: "twoTo (- 300) = 1 / 2 ^ 300" "twoTo 300 = 2 ^ 300"
    using twoTo_neg_nat [of 300] twoTo_nat [of 300] by simp_all
  have xl: "twoTo (- 300) \<le> \<bar>x\<bar>" and xh: "\<bar>x\<bar> \<le> twoTo 300"
    using lo hi unfolding x_def t300 by simp_all
  have n1: "1 \<le> n" using ne by (cases levels) (simp_all add: n_def)
  have n32: "n \<le> 2 ^ 32" using len by (simp add: n_def)
  have n0: "real n \<noteq> 0" using n1 by simp
  have at: "\<And>i. i < n \<Longrightarrow>
      size i = toNumber (ddiv (ddiv (rnd x) (Fin (real n))) (Fin (price (levels ! i))))"
    by (simp add: size_def equal_sizes(1) n_def x_def)
  have each: "\<And>i. i < n \<Longrightarrow>
      size i \<noteq> None
      \<and> \<bar>the (size i) * price (levels ! i) - x / real n\<bar>
        \<le> 4 * twoTo (- 53) * (\<bar>x\<bar> / real n)"
  proof -
    fix i assume i: "i < n"
    then have "levels ! i \<in> set levels" by (simp add: n_def)
    with prices have "1 / 2 ^ 300 \<le> price (levels ! i)" "price (levels ! i) \<le> 2 ^ 300"
      by blast+
    then have pl: "twoTo (- 300) \<le> price (levels ! i)" and ph: "price (levels ! i) \<le> twoTo 300"
      unfolding t300 by simp_all
    from equal_size_error [OF xl xh n1 n32 pl ph]
    obtain s where s: "ddiv (ddiv (rnd x) (Fin (real n))) (Fin (price (levels ! i))) = Fin s"
      "\<bar>s * price (levels ! i) - x / real n\<bar> \<le> 4 * twoTo (- 53) * (\<bar>x\<bar> / real n)"
      by blast
    have "size i = Some s" by (simp add: at [OF i] s(1) toNumber_def)
    with s(2) show "size i \<noteq> None
      \<and> \<bar>the (size i) * price (levels ! i) - x / real n\<bar>
        \<le> 4 * twoTo (- 53) * (\<bar>x\<bar> / real n)"
      by simp
  qed
  have "4 * twoTo (- 53) = twoTo 2 * twoTo (- 53)" using twoTo_nat [of 2] by simp
  also have "\<dots> = twoTo (- 51)" using twoTo_add [of 2 "- 53"] by simp
  also have "\<dots> = 1 / 2 ^ 51" using twoTo_neg_nat [of 51] by simp
  finally have u4: "4 * twoTo (- 53) = 1 / 2 ^ 51" .
  have "(\<Sum>i<n. the (size i) * price (levels ! i)) - x
        = (\<Sum>i<n. the (size i) * price (levels ! i)) - (\<Sum>i<n. x / real n)"
    using n0 by simp
  also have "\<dots> = (\<Sum>i<n. the (size i) * price (levels ! i) - x / real n)"
    by (simp only: sum_subtractf)
  finally have "\<bar>(\<Sum>i<n. the (size i) * price (levels ! i)) - x\<bar>
        = \<bar>\<Sum>i<n. the (size i) * price (levels ! i) - x / real n\<bar>"
    by simp
  also have "\<dots> \<le> (\<Sum>i<n. \<bar>the (size i) * price (levels ! i) - x / real n\<bar>)"
    by (rule sum_abs)
  also have "\<dots> \<le> (\<Sum>i<n. 4 * twoTo (- 53) * (\<bar>x\<bar> / real n))"
    by (rule sum_mono) (use each in simp)
  also have "\<dots> = 4 * twoTo (- 53) * \<bar>x\<bar>" using n0 by simp
  also have "\<dots> = \<bar>x\<bar> / 2 ^ 51" by (simp only: u4) simp
  finally have total: "\<bar>(\<Sum>i<n. the (size i) * price (levels ! i)) - x\<bar> \<le> \<bar>x\<bar> / 2 ^ 51" .
  have fin: "\<forall>i < length levels. buyOrderSizes (calculateOrderSizes oa levels) ! i \<noteq> None"
    using each unfolding c size_def n_def by blast
  show ?thesis
  proof (intro conjI)
    show "buyOrderSizes (calculateOrderSizes oa levels)
           = map (\<lambda>l. toNumber
                         (ddiv (ddiv (dmul (Fin (totalInvestment (investmentConfig oa)))
                                           (Fin (leverage (investmentConfig oa))))
                                     (Fin (real (length levels))))
                               (Fin (price l)))) levels"
      unfolding c by (rule equal_sizes(1))
    show "sellOrderSizes (calculateOrderSizes oa levels)
           = buyOrderSizes (calculateOrderSizes oa levels)"
      unfolding c by (rule equal_sizes(2))
    show "\<forall>i < length levels. buyOrderSizes (calculateOrderSizes oa levels) ! i \<noteq> None"
      by (rule fin)
    show "\<bar>(\<Sum>i<length levels.
              the (buyOrderSizes (calculateOrderSizes oa levels) ! i) * price (levels ! i))
           - totalInvestment (investmentConfig oa) * leverage (investmentConfig oa)\<bar>
         \<le> \<bar>totalInvestment (investmentConfig oa) * leverage (investmentConfig oa)\<bar>
           / 2 ^ 51"
      using total unfolding c size_def n_def x_def .
  qed
qed

text \<open>
  The theorem on five levels at 90 to 110 with 1000 to invest at leverage 1: the sum of
  \<open>size * price\<close> is within \<open>1000 / 2 ^ 51\<close> of 1000.
\<close>

theorem equal_allocation_conserves_capital_witness:
  "\<bar>(\<Sum>i<length fiveLevels.
       the (buyOrderSizes (calculateOrderSizes (allocator EQUAL None) fiveLevels) ! i)
         * price (fiveLevels ! i)) - 1000\<bar> \<le> 1000 / 2 ^ 51"
proof -
  have eq: "allocationMethod (orderConfig (allocator EQUAL None)) = EQUAL"
    by (simp add: allocator_def)
  have ne: "fiveLevels \<noteq> []" by (simp add: fiveLevels_def)
  have len: "length fiveLevels \<le> 2 ^ 32" by (simp add: length_fiveLevels)
  have inv: "totalInvestment (investmentConfig (allocator EQUAL None))
             * leverage (investmentConfig (allocator EQUAL None)) = 1000"
    by (simp add: allocator_def)
  have lo: "1 / 2 ^ 300
            \<le> \<bar>totalInvestment (investmentConfig (allocator EQUAL None))
               * leverage (investmentConfig (allocator EQUAL None))\<bar>"
    unfolding inv by simp
  have hi: "\<bar>totalInvestment (investmentConfig (allocator EQUAL None))
             * leverage (investmentConfig (allocator EQUAL None))\<bar> \<le> 2 ^ 300"
    unfolding inv by simp
  have prices: "\<forall>l \<in> set fiveLevels. 1 / 2 ^ 300 \<le> price l \<and> price l \<le> 2 ^ 300"
    by (simp add: fiveLevels_def mkLevel_def)
  from equal_allocation_conserves_capital [OF eq ne len lo hi prices]
  have "\<bar>(\<Sum>i<length fiveLevels.
       the (buyOrderSizes (calculateOrderSizes (allocator EQUAL None) fiveLevels) ! i)
         * price (fiveLevels ! i))
        - totalInvestment (investmentConfig (allocator EQUAL None))
          * leverage (investmentConfig (allocator EQUAL None))\<bar>
      \<le> \<bar>totalInvestment (investmentConfig (allocator EQUAL None))
          * leverage (investmentConfig (allocator EQUAL None))\<bar> / 2 ^ 51"
    by (elim conjE)
  then show ?thesis unfolding inv by simp
qed













lemma toNumber_None: "toNumber a = None \<longleftrightarrow> \<not> isFinite a"
  by (cases a) (simp_all add: toNumber_def isFinite_def)

lemma ddiv_zero_not_finite: "\<not> isFinite (ddiv a (Fin 0))"
  by (cases a) (simp_all add: isFinite_def infOf_def)

lemma ddiv_not_finite: "\<not> isFinite a \<Longrightarrow> \<not> isFinite (ddiv a (Fin p))"
  by (cases a) (simp_all add: isFinite_def)

lemma dmul_infOf_not_finite: "\<not> isFinite (dmul a (infOf v))"
  by (cases a) (simp_all add: isFinite_def infOf_def)

lemma custom_sizes:
  assumes pat: "customAllocationPattern (orderConfig oa) = Some pat"
    and len: "length pat = length levels"
    and i: "i < length levels"
  shows "buyOrderSizes (calculateCustomAllocation oa levels) ! i
         = toNumber (ddiv (dmul (dmul (Fin (totalInvestment (investmentConfig oa)))
                                      (Fin (leverage (investmentConfig oa))))
                                (ddiv (Fin (pat ! i)) (patternSum pat)))
                          (Fin (price (levels ! i))))"
    and "sellOrderSizes (calculateCustomAllocation oa levels) ! i
         = buyOrderSizes (calculateCustomAllocation oa levels) ! i"
  using pat len i by (simp_all add: calculateCustomAllocation_def Let_def)

lemma custom_size_finite:
  fixes x v s p :: real and a b c :: nat
  assumes s: "s \<noteq> 0" and p: "p \<noteq> 0"
    and x: "\<bar>x\<bar> \<le> 2 ^ a" and v: "\<bar>v\<bar> \<le> 2 ^ b * \<bar>s\<bar>" and q: "1 \<le> 2 ^ c * \<bar>p\<bar>"
    and abc: "a + b + c \<le> 1023"
  shows "isFinite (ddiv (dmul (rnd x) (ddiv (Fin v) (Fin s))) (Fin p))"
proof -
  have a: "a \<le> 1023" and ab: "a + b \<le> 1023" and b: "b \<le> 1023" using abc by simp_all
  from rnd_bounded [OF a x] obtain A where A: "rnd x = Fin A" "\<bar>A\<bar> \<le> 2 ^ a" by blast
  have "\<bar>v / s\<bar> = \<bar>v\<bar> / \<bar>s\<bar>" by simp
  also have "\<dots> \<le> 2 ^ b" using v s by (simp add: pos_divide_le_eq)
  finally have "\<bar>v / s\<bar> \<le> 2 ^ b" .
  from rnd_bounded [OF b this] obtain w where w: "rnd (v / s) = Fin w" "\<bar>w\<bar> \<le> 2 ^ b"
    by blast
  have "\<bar>A * w\<bar> = \<bar>A\<bar> * \<bar>w\<bar>" by (simp add: abs_mult)
  also have "\<dots> \<le> 2 ^ a * 2 ^ b" using A(2) w(2) by (intro mult_mono) simp_all
  finally have "\<bar>A * w\<bar> \<le> 2 ^ (a + b)" by (simp add: power_add)
  from rnd_bounded [OF ab this] obtain m where m: "rnd (A * w) = Fin m" "\<bar>m\<bar> \<le> 2 ^ (a + b)"
    by blast
  have p0: "0 < \<bar>p\<bar>" using p by simp
  have "\<bar>m / p\<bar> = \<bar>m\<bar> / \<bar>p\<bar>" by simp
  also have "\<dots> \<le> 2 ^ (a + b) / \<bar>p\<bar>" using m(2) p0 by (intro divide_right_mono) simp_all
  also have "\<dots> \<le> 2 ^ (a + b) * 2 ^ c"
  proof -
    have "2 ^ (a + b) * 1 \<le> (2 ^ (a + b) :: real) * (2 ^ c * \<bar>p\<bar>)"
      using q by (intro mult_left_mono) simp_all
    then have "2 ^ (a + b) \<le> ((2 ^ (a + b) :: real) * 2 ^ c) * \<bar>p\<bar>" by (simp add: mult.assoc)
    then show ?thesis using p0 by (simp add: pos_divide_le_eq)
  qed
  finally have "\<bar>m / p\<bar> \<le> 2 ^ (a + b + c)" by (simp add: power_add)
  from rnd_bounded [OF abc this] obtain z where z: "rnd (m / p) = Fin z" by blast
  show ?thesis using A(1) w(1) m(1) z s p by (simp add: isFinite_def)
qed

text \<open>
  Claim C10, as stated, promises a well-defined size at every level when the pattern has the
  right length and a nonzero sum. The size is a quotient by the level price: with the pattern
  1, 2, 4, 2, 1, whose sum is 10, a level priced 0 gets a size that is not a finite number.
\<close>

theorem custom_allocation_zero_price_not_finite:
  "allocationMethod (orderConfig (allocator CUSTOM (Some [1, 2, 4, 2, 1]))) = CUSTOM
   \<and> length [1, 2, 4, 2, 1 :: real] = length zeroPriceLevels
   \<and> patternSum [1, 2, 4, 2, 1] = Fin 10
   \<and> buyOrderSizes (calculateOrderSizes (allocator CUSTOM (Some [1, 2, 4, 2, 1]))
                     zeroPriceLevels) ! 0 = None"
proof -
  have pat: "customAllocationPattern (orderConfig (allocator CUSTOM (Some [1, 2, 4, 2, 1])))
             = Some [1, 2, 4, 2, 1]"
    by (simp add: allocator_def)
  have len: "length [1, 2, 4, 2, 1 :: real] = length zeroPriceLevels"
    by (simp add: zeroPriceLevels_def)
  have i: "0 < length zeroPriceLevels" by (simp add: zeroPriceLevels_def)
  have p: "price (zeroPriceLevels ! 0) = 0" by (simp add: zeroPriceLevels_def mkLevel_def)
  have m: "allocationMethod (orderConfig (allocator CUSTOM (Some [1, 2, 4, 2, 1]))) = CUSTOM"
    by (simp add: allocator_def)
  have s: "patternSum [1, 2, 4, 2, 1] = Fin 10" by (simp add: patternSum_def)
  have c: "calculateOrderSizes (allocator CUSTOM (Some [1, 2, 4, 2, 1])) zeroPriceLevels
           = calculateCustomAllocation (allocator CUSTOM (Some [1, 2, 4, 2, 1])) zeroPriceLevels"
    by (simp add: calculateOrderSizes_def m)
  have "buyOrderSizes (calculateOrderSizes (allocator CUSTOM (Some [1, 2, 4, 2, 1]))
                     zeroPriceLevels) ! 0 = None"
    unfolding c custom_sizes(1) [OF pat len i] p
    by (simp add: toNumber_None ddiv_zero_not_finite)
  with m len s show ?thesis by simp
qed

text \<open>
  Claim C10, amended: calculateCustomAllocation divides each custom-pattern entry by the sum
  of all entries, added as doubles from the left, with no zero guard. For a pattern of the
  length of the level list, the order size of level \<open>i\<close> is
  \<open>(totalInvestment * leverage * (entry i / sum)) / price i\<close> with every operation rounded.
  When the sum is zero, as for all zeros, the division by zero is reached through
  calculateOrderSizes and the size is not a finite number; so it is at every level whose
  price is zero. When the sum \<open>s\<close> is a finite number other than zero, the price is not zero
  and the magnitudes leave room, that is \<open>\<bar>totalInvestment * leverage\<bar> \<le> 2 ^ a\<close>,
  \<open>\<bar>entry i\<bar> \<le> 2 ^ b * \<bar>s\<bar>\<close> and \<open>1 \<le> 2 ^ c * \<bar>price i\<bar>\<close> with \<open>a + b + c \<le> 1023\<close>, the
  size is a finite number.
\<close>

theorem custom_allocation_division_by_pattern_sum:
  assumes m: "allocationMethod (orderConfig oa) = CUSTOM"
    and pat: "customAllocationPattern (orderConfig oa) = Some pat"
    and len: "length pat = length levels"
    and i: "i < length levels"
  shows "buyOrderSizes (calculateOrderSizes oa levels) ! i
           = toNumber (ddiv (dmul (dmul (Fin (totalInvestment (investmentConfig oa)))
                                        (Fin (leverage (investmentConfig oa))))
                                  (ddiv (Fin (pat ! i)) (patternSum pat)))
                            (Fin (price (levels ! i))))
       \<and> sellOrderSizes (calculateOrderSizes oa levels) ! i
           = buyOrderSizes (calculateOrderSizes oa levels) ! i
       \<and> (patternSum pat = Fin 0 \<longrightarrow>
            buyOrderSizes (calculateOrderSizes oa levels) ! i = None)
       \<and> (price (levels ! i) = 0 \<longrightarrow>
            buyOrderSizes (calculateOrderSizes oa levels) ! i = None)
       \<and> (patternSum pat = Fin s \<and> s \<noteq> 0 \<and> price (levels ! i) \<noteq> 0
            \<and> \<bar>totalInvestment (investmentConfig oa) * leverage (investmentConfig oa)\<bar> \<le> 2 ^ a
            \<and> \<bar>pat ! i\<bar> \<le> 2 ^ b * \<bar>s\<bar>
            \<and> 1 \<le> 2 ^ c * \<bar>price (levels ! i)\<bar>
            \<and> a + b + c \<le> 1023 \<longrightarrow>
            buyOrderSizes (calculateOrderSizes oa levels) ! i \<noteq> None)"
proof -
  have c: "calculateOrderSizes oa levels = calculateCustomAllocation oa levels"
    using m by (simp add: calculateOrderSizes_def)
  note at = custom_sizes [OF pat len i]
  show ?thesis
  proof (intro conjI impI)
    show "buyOrderSizes (calculateOrderSizes oa levels) ! i
           = toNumber (ddiv (dmul (dmul (Fin (totalInvestment (investmentConfig oa)))
                                        (Fin (leverage (investmentConfig oa))))
                                  (ddiv (Fin (pat ! i)) (patternSum pat)))
                            (Fin (price (levels ! i))))"
      unfolding c by (rule at(1))
    show "sellOrderSizes (calculateOrderSizes oa levels) ! i
           = buyOrderSizes (calculateOrderSizes oa levels) ! i"
      unfolding c by (rule at(2))
  next
    assume z: "patternSum pat = Fin 0"
    show "buyOrderSizes (calculateOrderSizes oa levels) ! i = None"
      unfolding c at(1) z
      by (simp add: toNumber_None ddiv_not_finite dmul_infOf_not_finite del: dmul.simps)
  next
    assume z: "price (levels ! i) = 0"
    show "buyOrderSizes (calculateOrderSizes oa levels) ! i = None"
      unfolding c at(1) z by (simp add: toNumber_None ddiv_zero_not_finite)
  next
    assume h: "patternSum pat = Fin s \<and> s \<noteq> 0 \<and> price (levels ! i) \<noteq> 0
            \<and> \<bar>totalInvestment (investmentConfig oa) * leverage (investmentConfig oa)\<bar> \<le> 2 ^ a
            \<and> \<bar>pat ! i\<bar> \<le> 2 ^ b * \<bar>s\<bar>
            \<and> 1 \<le> 2 ^ c * \<bar>price (levels ! i)\<bar>
            \<and> a + b + c \<le> 1023"
    then have s0: "s \<noteq> 0" and p0: "price (levels ! i) \<noteq> 0"
      and x: "\<bar>totalInvestment (investmentConfig oa) * leverage (investmentConfig oa)\<bar> \<le> 2 ^ a"
      and v: "\<bar>pat ! i\<bar> \<le> 2 ^ b * \<bar>s\<bar>"
      and q: "1 \<le> 2 ^ c * \<bar>price (levels ! i)\<bar>"
      and abc: "a + b + c \<le> 1023"
      by simp_all
    have "isFinite (ddiv (dmul (rnd (totalInvestment (investmentConfig oa)
                                          * leverage (investmentConfig oa)))
                                    (ddiv (Fin (pat ! i)) (Fin s)))
                              (Fin (price (levels ! i))))"
      by (rule custom_size_finite [OF s0 p0 x v q abc])
    then show "buyOrderSizes (calculateOrderSizes oa levels) ! i \<noteq> None"
      unfolding c at(1) using h by (simp add: toNumber_None)
  qed
qed

text \<open>
  The theorem on the five levels at 90 to 110: with the pattern 1, 2, 4, 2, 1 the first level
  gets a finite size, and with the all-zero pattern it gets no finite size. So it is on three
  levels with the pattern \<open>10 ^ 16\<close>, 1, \<open>-10 ^ 16\<close>, whose sum as doubles is 0.
\<close>

theorem custom_allocation_division_by_pattern_sum_witness:
  "buyOrderSizes (calculateOrderSizes (allocator CUSTOM (Some [1, 2, 4, 2, 1])) fiveLevels) ! 0
     \<noteq> None
   \<and> buyOrderSizes (calculateOrderSizes (allocator CUSTOM (Some [0, 0, 0, 0, 0])) fiveLevels) ! 0
     = None
   \<and> patternSum [10000000000000000, 1, - 10000000000000000] = Fin 0
   \<and> buyOrderSizes (calculateOrderSizes
                      (allocator CUSTOM (Some [10000000000000000, 1, - 10000000000000000]))
                      threeLevels) ! 0
     = None"
proof -
  have m: "\<And>p. allocationMethod (orderConfig (allocator CUSTOM p)) = CUSTOM"
    by (simp add: allocator_def)
  have pat: "\<And>p. customAllocationPattern (orderConfig (allocator CUSTOM (Some p))) = Some p"
    by (simp add: allocator_def)
  have len1: "length [1, 2, 4, 2, 1 :: real] = length fiveLevels"
    by (simp add: length_fiveLevels)
  have lenz: "length [0, 0, 0, 0, 0 :: real] = length fiveLevels"
    by (simp add: length_fiveLevels)
  have hz: "patternSum [0, 0, 0, 0, 0] = Fin 0" by (simp add: patternSum_def)
  have len0: "length [10000000000000000, 1, - 10000000000000000 :: real] = length threeLevels"
    by (simp add: threeLevels_def)
  have i1: "0 < length fiveLevels" by (simp add: length_fiveLevels)
  have i0: "0 < length threeLevels" by (simp add: threeLevels_def)
  have h1: "patternSum [1, 2, 4, 2, 1] = Fin 10 \<and> (10::real) \<noteq> 0
            \<and> price (fiveLevels ! 0) \<noteq> 0
            \<and> \<bar>totalInvestment (investmentConfig (allocator CUSTOM (Some [1, 2, 4, 2, 1])))
                * leverage (investmentConfig (allocator CUSTOM (Some [1, 2, 4, 2, 1])))\<bar>
              \<le> 2 ^ 10
            \<and> \<bar>[1, 2, 4, 2, 1] ! 0\<bar> \<le> 2 ^ 0 * \<bar>10 :: real\<bar>
            \<and> 1 \<le> 2 ^ 0 * \<bar>price (fiveLevels ! 0)\<bar>
            \<and> 10 + 0 + 0 \<le> (1023 :: nat)"
    by (simp add: patternSum_def allocator_def fiveLevels_def mkLevel_def)
  have h0: "patternSum [10000000000000000, 1, - 10000000000000000] = Fin 0"
    unfolding patternSum_def
    by (simp add: rnd_eval [where e = 53] twoTo_def rne_def Let_def)
  from custom_allocation_division_by_pattern_sum [OF m pat len1 i1, of 10 10 0 0]
  have 1: "buyOrderSizes (calculateOrderSizes (allocator CUSTOM (Some [1, 2, 4, 2, 1]))
             fiveLevels) ! 0 \<noteq> None"
    using h1 by blast
  from custom_allocation_division_by_pattern_sum [OF m pat len0 i0]
  have 2: "buyOrderSizes (calculateOrderSizes
                      (allocator CUSTOM (Some [10000000000000000, 1, - 10000000000000000]))
                      threeLevels) ! 0 = None"
    using h0 by blast
  from custom_allocation_division_by_pattern_sum [OF m pat lenz i1]
  have 3: "buyOrderSizes (calculateOrderSizes (allocator CUSTOM (Some [0, 0, 0, 0, 0]))
             fiveLevels) ! 0 = None"
    using hz by blast
  from 1 3 h0 2 show ?thesis by simp
qed

section \<open>Grid levels\<close>

lemma closestLoop_min:
  assumes "minDistance = \<bar>newPrice - price closestLevel\<bar>"
  shows "closestLoop newPrice closestLevel minDistance rest \<in> set (closestLevel # rest)
       \<and> (\<forall>l \<in> set (closestLevel # rest).
            \<bar>newPrice - price (closestLoop newPrice closestLevel minDistance rest)\<bar>
              \<le> \<bar>newPrice - price l\<bar>)"
  using assms
proof (induction rest arbitrary: closestLevel minDistance)
  case Nil
  then show ?case by simp
next
  case (Cons level rest)
  show ?case
  proof (cases "\<bar>newPrice - price level\<bar> < minDistance")
    case True
    have ih: "closestLoop newPrice level \<bar>newPrice - price level\<bar> rest \<in> set (level # rest)
       \<and> (\<forall>l \<in> set (level # rest).
            \<bar>newPrice - price (closestLoop newPrice level \<bar>newPrice - price level\<bar> rest)\<bar>
              \<le> \<bar>newPrice - price l\<bar>)"
      by (rule Cons.IH) simp
    then have "\<bar>newPrice - price (closestLoop newPrice level \<bar>newPrice - price level\<bar> rest)\<bar>
               \<le> \<bar>newPrice - price closestLevel\<bar>"
      using True Cons.prems by fastforce
    with ih True show ?thesis by (auto simp add: Let_def)
  next
    case False
    have ih: "closestLoop newPrice closestLevel minDistance rest \<in> set (closestLevel # rest)
       \<and> (\<forall>l \<in> set (closestLevel # rest).
            \<bar>newPrice - price (closestLoop newPrice closestLevel minDistance rest)\<bar>
              \<le> \<bar>newPrice - price l\<bar>)"
      by (rule Cons.IH) (rule Cons.prems)
    then have "\<bar>newPrice - price (closestLoop newPrice closestLevel minDistance rest)\<bar>
               \<le> \<bar>newPrice - price level\<bar>"
      using False Cons.prems by fastforce
    with ih False show ?thesis by (auto simp add: Let_def)
  qed
qed

lemma filter_same_key_distinct:
  "distinct (map f xs) \<Longrightarrow> x \<in> set xs \<Longrightarrow> length (filter (\<lambda>y. f y = f x) xs) = 1"
proof (induction xs)
  case Nil
  then show ?case by simp
next
  case (Cons a xs)
  show ?case
  proof (cases "f a = f x")
    case True
    then have "f x \<notin> f ` set xs" using Cons.prems(1) by simp
    then have "\<And>y. y \<in> set xs \<Longrightarrow> f y \<noteq> f x" by (metis imageI)
    then have "filter (\<lambda>y. f y = f x) xs = []" by (simp add: filter_empty_conv)
    with True show ?thesis by simp
  next
    case False
    then have "x \<in> set xs" using Cons.prems(2) by auto
    with Cons False show ?thesis by simp
  qed
qed

text \<open>
  Claim C4 promises exactly one inactive level for every non-empty list, and so does the
  comment of the code (\<open>Mark all grid levels as active except the closest one\<close>). The code
  compares prices, not positions: with two levels at the price 100 and the supplied price
  100, both levels are marked inactive.
\<close>

theorem updateGridLevels_two_levels_inactive:
  "fst (updateGridLevels (newGridGenerator fiveLinear 100 None)
          [mkLevel 100 True, mkLevel 100 True] 100)
     = Inr [mkLevel 100 False, mkLevel 100 False]"
  by (simp add: updateGridLevels_def mkLevel_def Let_def)

text \<open>
  What the code does on every non-empty list: the loop finds a level \<open>c\<close> of minimum absolute
  price distance to the supplied price (the first one, when several levels are equally near),
  every level priced as \<open>c\<close> is marked inactive and every other level active, and the prices
  and orders of the levels are left unchanged; when the level prices are pairwise distinct,
  exactly one level is inactive.
\<close>

lemma updateGridLevels_closest:
  assumes ne: "levels \<noteq> []"
  shows "\<exists>c \<in> set levels.
           (\<forall>l \<in> set levels. \<bar>newPrice - price c\<bar> \<le> \<bar>newPrice - price l\<bar>)
         \<and> fst (updateGridLevels g levels newPrice)
             = Inr (map (\<lambda>l. l \<lparr> isActive := price l \<noteq> price c \<rparr>) levels)
         \<and> (distinct (map price levels) \<longrightarrow>
              length (filter (\<lambda>l. \<not> isActive l)
                        (map (\<lambda>l. l \<lparr> isActive := price l \<noteq> price c \<rparr>) levels)) = 1)"
proof -
  obtain first rest where lv: "levels = first # rest" using ne by (cases levels) auto
  define c where "c = closestLoop newPrice first \<bar>newPrice - price first\<bar> rest"
  have m: "c \<in> set levels
           \<and> (\<forall>l \<in> set levels. \<bar>newPrice - price c\<bar> \<le> \<bar>newPrice - price l\<bar>)"
    unfolding c_def lv by (rule closestLoop_min) simp
  have r: "fst (updateGridLevels g levels newPrice)
             = Inr (map (\<lambda>l. l \<lparr> isActive := price l \<noteq> price c \<rparr>) levels)"
    by (simp add: updateGridLevels_def lv c_def Let_def)
  have d: "distinct (map price levels) \<longrightarrow>
              length (filter (\<lambda>l. \<not> isActive l)
                        (map (\<lambda>l. l \<lparr> isActive := price l \<noteq> price c \<rparr>) levels)) = 1"
  proof
    assume dist: "distinct (map price levels)"
    have "length (filter (\<lambda>l. \<not> isActive l)
                        (map (\<lambda>l. l \<lparr> isActive := price l \<noteq> price c \<rparr>) levels))
          = length (filter (\<lambda>l. price l = price c) levels)"
      by (simp add: filter_map o_def)
    also have "\<dots> = 1" using dist m by (simp add: filter_same_key_distinct)
    finally show "length (filter (\<lambda>l. \<not> isActive l)
                        (map (\<lambda>l. l \<lparr> isActive := price l \<noteq> price c \<rparr>) levels)) = 1" .
  qed
  from m r d show ?thesis by blast
qed


lemma upt_5: "[0..<5] = [0, 1, 2, 3, 4]"
  by (simp add: upt_rec)

lemma pushLevel_active:
  "generatedActive (pushLevel g p) \<longleftrightarrow> \<not> deq (generatedPrice (pushLevel g p)) (Fin (genCurrentPrice g))"
  by (simp add: pushLevel_def)

lemma arithmetic_fold_levels:
  assumes "\<forall>l \<in> set acc. generatedActive l \<longleftrightarrow> \<not> deq (generatedPrice l) (Fin (genCurrentPrice g))"
  shows "length (fst (foldl (\<lambda>(levels, currentLevel) i.
                              (levels @ [pushLevel g currentLevel],
                               dadd currentLevel (dmul d (dadd (Fin (real i)) (Fin 1)))))
                           (acc, c0) js)) = length acc + length js
       \<and> (\<forall>l \<in> set (fst (foldl (\<lambda>(levels, currentLevel) i.
                                    (levels @ [pushLevel g currentLevel],
                                     dadd currentLevel (dmul d (dadd (Fin (real i)) (Fin 1)))))
                                 (acc, c0) js)).
             generatedActive l \<longleftrightarrow> \<not> deq (generatedPrice l) (Fin (genCurrentPrice g)))"
  using assms
proof (induction js arbitrary: acc c0)
  case Nil
  then show ?case by simp
next
  case (Cons j js)
  have "\<forall>l \<in> set (acc @ [pushLevel g c0]).
          generatedActive l \<longleftrightarrow> \<not> deq (generatedPrice l) (Fin (genCurrentPrice g))"
    using Cons.prems by (auto simp add: pushLevel_def)
  from Cons.IH [OF this, of "dadd c0 (dmul d (dadd (Fin (real j)) (Fin 1)))"] show ?case by simp
qed

lemma linear_levels:
  "length (generateLinearGrid g) = numberOfGrids (genConfig g)
   \<and> (\<forall>l \<in> set (generateLinearGrid g).
         generatedActive l \<longleftrightarrow> \<not> deq (generatedPrice l) (Fin (genCurrentPrice g)))"
  by (auto simp add: generateLinearGrid_def Let_def pushLevel_def)

lemma arithmetic_levels:
  "length (generateArithmeticGrid g) = numberOfGrids (genConfig g)
   \<and> (\<forall>l \<in> set (generateArithmeticGrid g).
         generatedActive l \<longleftrightarrow> \<not> deq (generatedPrice l) (Fin (genCurrentPrice g)))"
proof -
  have e: "\<forall>l \<in> set ([] :: GeneratedLevel list).
             generatedActive l \<longleftrightarrow> \<not> deq (generatedPrice l) (Fin (genCurrentPrice g))"
    by simp
  from arithmetic_fold_levels [OF e, of _ "genLowerBound g" "[0..<numberOfGrids (genConfig g)]"]
  show ?thesis by (simp add: generateArithmeticGrid_def Let_def)
qed

lemma geometric_levels:
  "length (generateGeometricGrid lib g) = numberOfGrids (genConfig g)
   \<and> (\<forall>l \<in> set (generateGeometricGrid lib g).
         generatedActive l \<longleftrightarrow> \<not> deq (generatedPrice l) (Fin (genCurrentPrice g)))"
  by (auto simp add: generateGeometricGrid_def Let_def pushLevel_def)

lemma insertLevel_set: "set (insertLevel a levels) = insert a (set levels)"
  by (induction levels) auto

lemma insertLevel_length: "length (insertLevel a levels) = Suc (length levels)"
  by (induction levels) auto

lemma sortLevels_set: "set (sortLevels levels) = set levels"
  by (induction levels) (simp_all add: sortLevels_def insertLevel_set)

lemma sortLevels_length: "length (sortLevels levels) = length levels"
  by (induction levels) (simp_all add: sortLevels_def insertLevel_length)

lemma volatility_levels:
  "length (generateVolatilityBasedGrid lib g) = numberOfGrids (genConfig g)
   \<and> (\<forall>l \<in> set (generateVolatilityBasedGrid lib g).
         generatedActive l \<longleftrightarrow> \<not> deq (generatedPrice l) (Fin (genCurrentPrice g)))"
proof (cases "historicalVolatility g")
  case None
  then have "generateVolatilityBasedGrid lib g = generateLinearGrid g"
    by (simp add: generateVolatilityBasedGrid_def Let_def)
  then show ?thesis using linear_levels by simp
next
  case (Some hv)
  show ?thesis
  proof (cases "hv = 0")
    case True
    with Some have "generateVolatilityBasedGrid lib g = generateLinearGrid g"
      by (simp add: generateVolatilityBasedGrid_def Let_def)
    then show ?thesis using linear_levels by simp
  next
    case False
    with Some show ?thesis
      by (auto simp add: generateVolatilityBasedGrid_def Let_def sortLevels_set
          sortLevels_length pushLevel_def)
  qed
qed

lemma newGridGenerator_fields:
  "genConfig (newGridGenerator config cp hv) = config"
  "genCurrentPrice (newGridGenerator config cp hv) = cp"
  by (simp_all add: newGridGenerator_def calculateAutoRange_def Let_def split: option.splits)

lemma fiveLinear_levels:
  "generateGridLevels lib (newGridGenerator fiveLinear cp None)
     = map (pushLevel (newGridGenerator fiveLinear cp None))
           [Fin 90, Fin 95, Fin 100, Fin 105, Fin 110]"
  by (simp add: generateGridLevels_def newGridGenerator_def fiveLinear_def
      generateLinearGrid_def Let_def upt_5 dsub_def)

text \<open>
  Claim C7, as stated, promises that the level nearest the current price is inactive after
  generation. The generators mark a level inactive only when its price equals the current
  price: five linear levels between 90 and 110 generated at the price 101 are all active,
  the nearest level at 100 included.
\<close>

theorem generateGridLevels_all_active_off_grid:
  "generateGridLevels constantMath (newGridGenerator fiveLinear 101 None)
     = [\<lparr> generatedPrice = Fin 90, generatedActive = True \<rparr>,
        \<lparr> generatedPrice = Fin 95, generatedActive = True \<rparr>,
        \<lparr> generatedPrice = Fin 100, generatedActive = True \<rparr>,
        \<lparr> generatedPrice = Fin 105, generatedActive = True \<rparr>,
        \<lparr> generatedPrice = Fin 110, generatedActive = True \<rparr>]"
  by (simp add: fiveLinear_levels pushLevel_def newGridGenerator_fields deq_def)

text \<open>
  Claim C7, amended: immediately after grid generation a level is inactive precisely when its
  price is \<open>===\<close> the current price, and every other level is active: for every
  configuration, every current price and every state of the generator, whatever \<open>Math.pow\<close>
  and \<open>Math.exp\<close> return, generateGridLevels returns numberOfGrids levels in which isActive
  is false exactly on the levels priced at the current price (none, when no level price
  equals it; a level whose price is \<open>NaN\<close> is active).
\<close>

theorem generateGridLevels_inactive_iff_at_current_price:
  "length (generateGridLevels lib g) = numberOfGrids (genConfig g)
   \<and> (\<forall>l \<in> set (generateGridLevels lib g).
         generatedActive l \<longleftrightarrow> \<not> deq (generatedPrice l) (Fin (genCurrentPrice g)))"
proof (cases "distributionMethod (genConfig g)")
  case LINEAR
  then have "generateGridLevels lib g = generateLinearGrid g"
    by (simp add: generateGridLevels_def)
  then show ?thesis using linear_levels by simp
next
  case ARITHMETIC
  then have "generateGridLevels lib g = generateArithmeticGrid g"
    by (simp add: generateGridLevels_def)
  then show ?thesis using arithmetic_levels by simp
next
  case GEOMETRIC
  then have "generateGridLevels lib g = generateGeometricGrid lib g"
    by (simp add: generateGridLevels_def)
  then show ?thesis using geometric_levels by simp
next
  case VOLATILITY_BASED
  then have "generateGridLevels lib g = generateVolatilityBasedGrid lib g"
    by (simp add: generateGridLevels_def)
  then show ?thesis using volatility_levels by simp
qed

text \<open>
  The theorem on five linear levels between 90 and 110 generated at the price 100: five
  levels are returned, the level at 100 is inactive and the level at 95 is active.
\<close>

theorem generateGridLevels_inactive_iff_at_current_price_witness:
  "length (generateGridLevels constantMath (newGridGenerator fiveLinear 100 None)) = 5
   \<and> generatedPrice (generateGridLevels constantMath (newGridGenerator fiveLinear 100 None) ! 2)
       = Fin 100
   \<and> \<not> generatedActive
         (generateGridLevels constantMath (newGridGenerator fiveLinear 100 None) ! 2)
   \<and> generatedPrice (generateGridLevels constantMath (newGridGenerator fiveLinear 100 None) ! 1)
       = Fin 95
   \<and> generatedActive
         (generateGridLevels constantMath (newGridGenerator fiveLinear 100 None) ! 1)"
proof -
  let ?g = "newGridGenerator fiveLinear 100 None"
  let ?levels = "generateGridLevels constantMath ?g"
  have p: "generatedPrice (?levels ! 2) = Fin 100" "generatedPrice (?levels ! 1) = Fin 95"
    by (simp_all add: fiveLinear_levels pushLevel_def)
  from generateGridLevels_inactive_iff_at_current_price [of constantMath ?g]
  have n: "length ?levels = 5"
    and a: "\<forall>l \<in> set ?levels.
              generatedActive l \<longleftrightarrow> \<not> deq (generatedPrice l) (Fin (genCurrentPrice ?g))"
    by (simp_all add: newGridGenerator_fields fiveLinear_def)
  have "?levels ! 2 \<in> set ?levels" "?levels ! 1 \<in> set ?levels"
    using n by simp_all
  with a have "generatedActive (?levels ! 2)
                 \<longleftrightarrow> \<not> deq (generatedPrice (?levels ! 2)) (Fin (genCurrentPrice ?g))"
    and "generatedActive (?levels ! 1)
                 \<longleftrightarrow> \<not> deq (generatedPrice (?levels ! 1)) (Fin (genCurrentPrice ?g))"
    by blast+
  then have "\<not> generatedActive (?levels ! 2)" "generatedActive (?levels ! 1)"
    unfolding p by (simp_all add: newGridGenerator_fields deq_def)
  with n p show ?thesis by simp
qed

section \<open>Trailing stop-loss\<close>

lemma rmConfig_defaultRiskManager:
  "rmConfig defaultRiskManager = riskManagement defaultConfig"
  "initialPrice defaultRiskManager = 100"
  "trailingStopPrice defaultRiskManager = None"
  by (simp_all add: defaultRiskManager_def newRiskManager_def Let_def)

lemma rmConfig_thirteenRiskManager:
  "trailingEnabled (trailingStopLoss (rmConfig thirteenRiskManager))"
  "activationThreshold (trailingStopLoss (rmConfig thirteenRiskManager)) = 13"
  "initialPrice thirteenRiskManager = 100"
  "trailingStopPrice thirteenRiskManager = None"
  by (simp_all add: thirteenRiskManager_def newRiskManager_def Let_def)

lemma updateStopLoss_trailing:
  "trailingStopPrice (snd (updateStopLoss rm ts))
     = (if trailingEnabled (trailingStopLoss (rmConfig rm))
           \<and> profitPercentageReaches (currentPrice ts) (initialPrice rm)
                (activationThreshold (trailingStopLoss (rmConfig rm)))
        then (case trailingStopPrice rm of
                None \<Rightarrow> Some (currentPrice ts
                              * (1 - trailingDistance (trailingStopLoss (rmConfig rm)) / 100))
              | Some old \<Rightarrow>
                  if currentPrice ts
                     * (1 - trailingDistance (trailingStopLoss (rmConfig rm)) / 100) > old
                  then Some (currentPrice ts
                             * (1 - trailingDistance (trailingStopLoss (rmConfig rm)) / 100))
                  else Some old)
        else trailingStopPrice rm)"
  by (simp add: updateStopLoss_def updateTrailingStopLoss_def Let_def split: option.splits)

lemma profitPercentage_100: "profitPercentage 100 100 = Fin 0"
  by (simp add: profitPercentage_def dsub_def)

lemma profitPercentage_110: "profitPercentage 110 100 = Fin (5629499534213125 / 2 ^ 49)"
  unfolding profitPercentage_def dsub_def
  apply simp
  apply (simp add: rnd_eval [where e = 0] twoTo_def rne_def Let_def)
  apply (simp add: rnd_eval [where e = "- 4"] twoTo_def rne_def Let_def)
  apply (simp add: rnd_eval [where e = 3] twoTo_def rne_def Let_def)
  done

lemma profitPercentage_113: "profitPercentage 113 100 = Fin (3659174697238525 / 2 ^ 48)"
  unfolding profitPercentage_def dsub_def
  apply simp
  apply (simp add: rnd_eval [where e = 0] twoTo_def rne_def Let_def)
  apply (simp add: rnd_eval [where e = "- 3"] twoTo_def rne_def Let_def)
  apply (simp add: rnd_eval [where e = 3] twoTo_def rne_def Let_def)
  done

lemma reaches_default:
  "\<not> profitPercentageReaches 100 100 1" "profitPercentageReaches 110 100 1"
  "\<not> profitPercentageReaches 113 100 13"
  unfolding profitPercentageReaches_def profitPercentage_100 profitPercentage_110
    profitPercentage_113
  by (simp_all add: dge_def dle_def deq_def)

text \<open>
  Claim C3, as stated, ties the activation to the unrealized profit of the trading state. The
  code compares the price gain over the initial price with the threshold instead. With the
  default configuration (threshold 1) started at 100: an unrealized profit of 50 at the price
  100 sets no trailing stop, and an unrealized profit of 0 at the price 110 sets it to 107.8.
\<close>

theorem trailing_stop_ignores_unrealized_profit:
  "trailingEnabled (trailingStopLoss (rmConfig defaultRiskManager))
   \<and> dge (unrealizedPnL (stateAt 100 (Fin 50)))
         (Fin (activationThreshold (trailingStopLoss (rmConfig defaultRiskManager))))
   \<and> trailingStopPrice (snd (updateStopLoss defaultRiskManager (stateAt 100 (Fin 50)))) = None
   \<and> dlt (unrealizedPnL (stateAt 110 (Fin 0)))
         (Fin (activationThreshold (trailingStopLoss (rmConfig defaultRiskManager))))
   \<and> trailingStopPrice (snd (updateStopLoss defaultRiskManager (stateAt 110 (Fin 0))))
       = Some (539 / 5)"
  by (simp add: updateStopLoss_trailing rmConfig_defaultRiskManager defaultConfig_def
      stateAt_def reaches_default dge_def dle_def)

text \<open>
  Claim C3, amended: the trailing stop-loss activates exactly when the price gain over the
  initial price, \<open>((currentPrice / initialPrice) - 1) * 100\<close> as the doubles give it (each of
  the three operations rounded to the nearest double), reaches the activation threshold: for
  every trading state with trailing stop-loss enabled, a call to updateStopLoss sets a
  non-null trailing stop price if that gain is \<open>>= activationThreshold\<close>, and leaves the
  trailing stop price as it was (null, if it was null) otherwise. The unrealized profit of
  the trading state plays no part.
\<close>

theorem trailing_stop_activation:
  assumes en: "trailingEnabled (trailingStopLoss (rmConfig rm))"
  shows "(dge (dmul (dsub (ddiv (Fin (currentPrice ts)) (Fin (initialPrice rm))) (Fin 1))
                    (Fin 100))
              (Fin (activationThreshold (trailingStopLoss (rmConfig rm))))
          \<longrightarrow> trailingStopPrice (snd (updateStopLoss rm ts)) \<noteq> None)
       \<and> (\<not> dge (dmul (dsub (ddiv (Fin (currentPrice ts)) (Fin (initialPrice rm))) (Fin 1))
                        (Fin 100))
                  (Fin (activationThreshold (trailingStopLoss (rmConfig rm))))
          \<longrightarrow> trailingStopPrice (snd (updateStopLoss rm ts)) = trailingStopPrice rm)"
  using en
  by (simp add: updateStopLoss_trailing profitPercentageReaches_def profitPercentage_def
      split: option.splits)

text \<open>
  The theorem on the default risk manager started at 100, whose threshold is 1: at the price
  110 a trailing stop is set. With the threshold 13 and the price 113 the gain as the doubles
  give it is \<open>3659174697238525 / 2 ^ 48\<close>, which is below 13, and the trailing stop stays
  null.
\<close>

theorem trailing_stop_activation_witness:
  "trailingStopPrice (snd (updateStopLoss defaultRiskManager (stateAt 110 (Fin 0)))) \<noteq> None
   \<and> dmul (dsub (ddiv (Fin 113) (Fin 100)) (Fin 1)) (Fin 100)
       = Fin (3659174697238525 / 2 ^ 48)
   \<and> trailingStopPrice (snd (updateStopLoss thirteenRiskManager (stateAt 113 (Fin 0)))) = None"
proof -
  have en: "trailingEnabled (trailingStopLoss (rmConfig defaultRiskManager))"
    by (simp add: rmConfig_defaultRiskManager defaultConfig_def)
  have up: "dge (dmul (dsub (ddiv (Fin (currentPrice (stateAt 110 (Fin 0))))
                                  (Fin (initialPrice defaultRiskManager))) (Fin 1))
                      (Fin 100))
                (Fin (activationThreshold (trailingStopLoss (rmConfig defaultRiskManager))))"
    using reaches_default(2)
    by (simp add: rmConfig_defaultRiskManager defaultConfig_def stateAt_def
        profitPercentageReaches_def profitPercentage_def)
  have low: "\<not> dge (dmul (dsub (ddiv (Fin (currentPrice (stateAt 113 (Fin 0))))
                                     (Fin (initialPrice thirteenRiskManager))) (Fin 1))
                         (Fin 100))
                   (Fin (activationThreshold (trailingStopLoss (rmConfig thirteenRiskManager))))"
    using reaches_default(3)
    by (simp add: rmConfig_thirteenRiskManager stateAt_def
        profitPercentageReaches_def profitPercentage_def)
  have 1: "trailingStopPrice (snd (updateStopLoss defaultRiskManager (stateAt 110 (Fin 0))))
           \<noteq> None"
    by (rule trailing_stop_activation [OF en, THEN conjunct1, THEN mp, OF up])
  have "trailingStopPrice (snd (updateStopLoss thirteenRiskManager (stateAt 113 (Fin 0))))
        = trailingStopPrice thirteenRiskManager"
    by (rule trailing_stop_activation [OF rmConfig_thirteenRiskManager(1), THEN conjunct2,
          THEN mp, OF low])
  then have 2: "trailingStopPrice (snd (updateStopLoss thirteenRiskManager
                                          (stateAt 113 (Fin 0)))) = None"
    by (simp only: rmConfig_thirteenRiskManager)
  have 3: "dmul (dsub (ddiv (Fin 113) (Fin 100)) (Fin 1)) (Fin 100)
           = Fin (3659174697238525 / 2 ^ 48)"
    using profitPercentage_113 by (simp only: profitPercentage_def)
  from 1 3 2 show ?thesis by (intro conjI)
qed

lemma updateStopLoss_ratchet:
  assumes "trailingStopPrice rm = Some t"
  shows "\<exists>t'. trailingStopPrice (snd (updateStopLoss rm ts)) = Some t'
              \<and> (t' = t \<or> t < t')"
  using assms by (simp add: updateStopLoss_trailing)

lemma updateStopLossEach_ratchet:
  assumes "trailingStopPrice rm = Some t"
  shows "\<exists>t'. trailingStopPrice (updateStopLossEach rm states) = Some t' \<and> t \<le> t'"
  using assms
proof (induction states arbitrary: rm t)
  case Nil
  then show ?case by (simp add: updateStopLossEach_def)
next
  case (Cons ts states)
  from updateStopLoss_ratchet [OF Cons.prems, of ts]
  obtain u where u: "trailingStopPrice (snd (updateStopLoss rm ts)) = Some u" "t \<le> u"
    by auto
  from Cons.IH [OF u(1)]
  obtain t' where "trailingStopPrice (updateStopLossEach (snd (updateStopLoss rm ts)) states)
                   = Some t'" "u \<le> t'"
    by auto
  with u(2) show ?case by (auto simp add: updateStopLossEach_def)
qed

text \<open>
  Claim C6: once the trailing stop has activated (trailing stop price non-null), each call of
  updateStopLoss either leaves the trailing stop price unchanged or strictly raises it, and
  then to the candidate \<open>currentPrice * (1 - trailingDistance / 100)\<close>; so over every
  sequence of trading states, whatever their prices, the trailing stop price never decreases.
\<close>

theorem trailing_stop_never_decreases:
  assumes "trailingStopPrice rm = Some t"
  shows "(\<exists>t'. trailingStopPrice (snd (updateStopLoss rm ts)) = Some t'
              \<and> (t' = t
                 \<or> (t < t'
                    \<and> t' = currentPrice ts
                            * (1 - trailingDistance (trailingStopLoss (rmConfig rm)) / 100))))
       \<and> (\<exists>t'. trailingStopPrice (updateStopLossEach rm states) = Some t' \<and> t \<le> t')"
proof
  show "\<exists>t'. trailingStopPrice (snd (updateStopLoss rm ts)) = Some t'
              \<and> (t' = t
                 \<or> (t < t'
                    \<and> t' = currentPrice ts
                            * (1 - trailingDistance (trailingStopLoss (rmConfig rm)) / 100)))"
    using assms by (simp add: updateStopLoss_trailing)
  show "\<exists>t'. trailingStopPrice (updateStopLossEach rm states) = Some t' \<and> t \<le> t'"
    using assms by (rule updateStopLossEach_ratchet)
qed

lemma updateTrailingStopLoss_config:
  "rmConfig (updateTrailingStopLoss rm cp) = rmConfig rm"
  by (simp add: updateTrailingStopLoss_def Let_def split: option.splits)

lemma updateStopLoss_config:
  "rmConfig (snd (updateStopLoss rm ts)) = rmConfig rm"
  by (simp add: updateStopLoss_def Let_def updateTrailingStopLoss_config)

text \<open>
  The theorem on the default risk manager after its trailing stop was activated at the price
  110: an update at the lower price 105, whose candidate is 102.9, keeps the trailing stop at
  107.8.
\<close>

theorem trailing_stop_never_decreases_witness:
  "trailingStopPrice activatedRiskManager = Some (539 / 5)
   \<and> trailingStopPrice (snd (updateStopLoss activatedRiskManager (stateAt 105 (Fin 0))))
       = Some (539 / 5)"
proof -
  have a: "trailingStopPrice activatedRiskManager = Some (539 / 5)"
    by (simp add: activatedRiskManager_def updateStopLoss_trailing rmConfig_defaultRiskManager
        defaultConfig_def stateAt_def reaches_default)
  have c: "currentPrice (stateAt 105 (Fin 0))
           * (1 - trailingDistance (trailingStopLoss (rmConfig activatedRiskManager)) / 100)
           = 1029 / 10"
    by (simp add: activatedRiskManager_def updateStopLoss_config rmConfig_defaultRiskManager
        defaultConfig_def stateAt_def)
  from trailing_stop_never_decreases [OF a, of "stateAt 105 (Fin 0)" "[]", THEN conjunct1]
  obtain t' where t: "trailingStopPrice (snd (updateStopLoss activatedRiskManager
                                                 (stateAt 105 (Fin 0)))) = Some t'"
    and d: "t' = 539 / 5 \<or> (539 / 5 < t' \<and> t' = 1029 / 10)"
    unfolding c by blast
  from d have "t' = 539 / 5" by auto
  with t a show ?thesis by simp
qed

section \<open>Realized profit\<close>

lemma oppositeOrders_price:
  assumes "oppositeOrders ts filledOrder \<noteq> []"
  shows "orderPrice (last (oppositeOrders ts filledOrder)) = orderPrice filledOrder"
proof -
  have "last (oppositeOrders ts filledOrder) \<in> set (oppositeOrders ts filledOrder)"
    using assms by (rule last_in_set)
  then show ?thesis by (simp add: oppositeOrders_def deq_def)
qed

lemma zero_profit:
  assumes "finiteOrder ord"
  shows "dmul (dsub (orderPrice ord) (orderPrice ord)) (orderSize ord) = Fin 0"
proof -
  obtain p s where "orderPrice ord = Fin p" "orderSize ord = Fin s"
    using assms by (auto simp add: finiteOrder_def isFinite_def split: double.splits)
  then show ?thesis by (simp add: dsub_def)
qed

lemma realized_fold_zero:
  assumes "list_all finiteOrder filled"
  shows "foldl (\<lambda>acc filledOrder.
            let previousOppositeOrders = oppositeOrders ts filledOrder
            in if length previousOppositeOrders > 0 then
                 (let oppositeOrder = last previousOppositeOrders
                  in if side filledOrder = Sell \<and> side oppositeOrder = Buy then
                       dadd acc
                         (dmul (dsub (orderPrice filledOrder) (orderPrice oppositeOrder))
                               (orderSize filledOrder))
                     else if side filledOrder = Buy \<and> side oppositeOrder = Sell then
                       dadd acc
                         (dmul (dsub (orderPrice oppositeOrder) (orderPrice filledOrder))
                               (orderSize filledOrder))
                     else acc)
               else acc)
         (Fin 0) filled = Fin 0"
  using assms
proof (induction filled)
  case Nil
  then show ?case by simp
next
  case (Cons f filled)
  then have f: "finiteOrder f" and r: "list_all finiteOrder filled" by simp_all
  show ?case
  proof (cases "oppositeOrders ts f = []")
    case True
    then show ?thesis using Cons.IH [OF r] by simp
  next
    case False
    then have "orderPrice (last (oppositeOrders ts f)) = orderPrice f"
      by (rule oppositeOrders_price)
    then show ?thesis using False Cons.IH [OF r] zero_profit [OF f] by (simp add: Let_def)
  qed
qed

lemma calculateRealizedPnL_unchanged:
  assumes "list_all finiteOrder filled" and "realizedPnL (tradingState e) = Fin 0"
  shows "calculateRealizedPnL e filled = e"
proof -
  have "dadd (realizedPnL (tradingState e)) (Fin 0) = realizedPnL (tradingState e)"
    using assms(2) by simp
  then show ?thesis
    unfolding calculateRealizedPnL_def realized_fold_zero [OF assms(1)] by (simp add: Let_def)
qed

lemma recordTrade_profit_zero:
  assumes "finiteOrder ord"
  shows "tradingState (recordTrade w e ord i) = tradingState e
   \<and> (\<exists>trade. historicalTrades (recordTrade w e ord i) = historicalTrades e @ [trade]
              \<and> profit trade = Fin 0)"
proof (cases "oppositeOrders (tradingState e) ord = []")
  case True
  then show ?thesis by (simp add: recordTrade_def Let_def)
next
  case False
  then have "orderPrice (last (oppositeOrders (tradingState e) ord)) = orderPrice ord"
    by (rule oppositeOrders_price)
  then show ?thesis using False zero_profit [OF assms] by (simp add: recordTrade_def Let_def)
qed

lemma soundEngine_eq:
  assumes "realizedPnL (tradingState e') = realizedPnL (tradingState e)"
    and "activeOrders (tradingState e') = activeOrders (tradingState e)"
    and "gridLevels (tradingState e') = gridLevels (tradingState e)"
    and "historicalTrades e' = historicalTrades e"
  shows "soundEngine e' = soundEngine e"
  using assms by (simp add: soundEngine_def realizedZero_def ordersFinite_def)

lemma recordTrade_sound:
  assumes "soundEngine e" and "finiteOrder ord"
  shows "soundEngine (recordTrade w e ord i)"
proof -
  from recordTrade_profit_zero [OF assms(2), of w e i]
  obtain trade where t: "tradingState (recordTrade w e ord i) = tradingState e"
    "historicalTrades (recordTrade w e ord i) = historicalTrades e @ [trade]"
    "profit trade = Fin 0"
    by blast
  with assms(1) show ?thesis by (simp add: soundEngine_def realizedZero_def)
qed

lemma placeOrder_state:
  "tradingState (snd (placeOrder w e ord)) = tradingState e"
  "historicalTrades (snd (placeOrder w e ord)) = historicalTrades e"
  by (simp_all add: placeOrder_def Let_def split: sum.splits)

lemma placeOrder_sound:
  "soundEngine (snd (placeOrder w e ord)) = soundEngine e"
  by (rule soundEngine_eq) (simp_all add: placeOrder_state)

lemma placeOrder_finite:
  assumes "placeOrder w e ord = (Inr placed, e1)"
  shows "finiteOrder placed = finiteOrder ord"
  using assms by (auto simp add: placeOrder_def Let_def finiteOrder_def split: sum.splits)

lemma list_all_update:
  assumes "list_all P xs" and "P x"
  shows "list_all P (xs[i := x])"
proof -
  have "set (xs[i := x]) \<subseteq> insert x (set xs)" by (rule set_update_subset_insert)
  then show ?thesis using assms by (auto simp add: list_all_iff)
qed

lemma findIndex_less: "findIndex P xs = Some i \<Longrightarrow> i < length xs"
  by (induction xs arbitrary: i) (auto split: if_splits)

lemma oppositeLoop_sound:
  assumes "soundEngine (snd acc)" and "list_all finiteOrder (fst acc)"
    and "list_all finiteOrder filled"
  shows "soundEngine (snd (oppositeLoop w filled acc))
       \<and> list_all finiteOrder (fst (oppositeLoop w filled acc))"
  using assms
proof (induction filled arbitrary: acc)
  case Nil
  then show ?case by simp
next
  case (Cons filledOrder rest)
  obtain newOrders e where acc: "acc = (newOrders, e)" by (cases acc)
  have e: "soundEngine e" and no: "list_all finiteOrder newOrders"
    using Cons.prems(1,2) by (simp_all add: acc)
  have f: "finiteOrder filledOrder" and r: "list_all finiteOrder rest"
    using Cons.prems(3) by simp_all
  show ?case
  proof (cases "findIndex (levelHasOrder (orderId filledOrder)) (gridLevels (tradingState e))")
    case None
    then have "oppositeLoop w (filledOrder # rest) acc = oppositeLoop w rest (newOrders, e)"
      by (simp add: acc)
    then show ?thesis using Cons.IH [of "(newOrders, e)"] e no r by simp
  next
    case (Some gridLevelIndex)
    define level where "level = gridLevels (tradingState e) ! gridLevelIndex"
    define oppositeSide where "oppositeSide = (if side filledOrder = Buy then Sell else Buy)"
    define newOrder where "newOrder = \<lparr> orderId = orderId filledOrder @ ''-opposite'',
                           orderPrice = Fin (price level),
                           orderSize = orderSize filledOrder,
                           orderKind = orderKind filledOrder,
                           side = oppositeSide,
                           status = Pending,
                           exchangeOrderId = None \<rparr>"
    have nf: "finiteOrder newOrder"
      using f by (simp add: newOrder_def finiteOrder_def isFinite_def)
    obtain outcome e1 where p: "placeOrder w e newOrder = (outcome, e1)"
      by (cases "placeOrder w e newOrder")
    have e1: "soundEngine e1"
      using placeOrder_sound [of w e newOrder] e p by simp
    show ?thesis
    proof (cases outcome)
      case (Inl err)
      have "oppositeLoop w (filledOrder # rest) acc = oppositeLoop w rest (newOrders, e1)"
        using Some p Inl
        by (simp add: acc Let_def level_def [symmetric] oppositeSide_def [symmetric]
              newOrder_def [symmetric])
      then show ?thesis using Cons.IH [of "(newOrders, e1)"] e1 no r by simp
    next
      case (Inr placedOrder)
      have pf: "finiteOrder placedOrder"
        using placeOrder_finite [of w e newOrder placedOrder e1] p Inr nf by simp
      define updatedGridLevel where "updatedGridLevel =
                        (if oppositeSide = Buy
                         then level \<lparr> buyOrder := Some placedOrder, sellOrder := None \<rparr>
                         else level \<lparr> sellOrder := Some placedOrder, buyOrder := None \<rparr>)"
      define e2 where "e2 = e1 \<lparr> tradingState := (tradingState e1)
                                \<lparr> gridLevels := (gridLevels (tradingState e1))
                                                   [gridLevelIndex := updatedGridLevel] \<rparr> \<rparr>"
      define e3 where "e3 = recordTrade w e2 filledOrder gridLevelIndex"
      have lf: "finiteLevel updatedGridLevel"
        using pf by (simp add: updatedGridLevel_def finiteLevel_def)
      have "list_all finiteLevel (gridLevels (tradingState e1))"
        using e1 by (simp add: soundEngine_def ordersFinite_def)
      then have "list_all finiteLevel
                   ((gridLevels (tradingState e1)) [gridLevelIndex := updatedGridLevel])"
        using lf by (rule list_all_update)
      then have "soundEngine e2"
        using e1 by (simp add: e2_def soundEngine_def ordersFinite_def realizedZero_def)
      then have e3: "soundEngine e3"
        unfolding e3_def using f by (rule recordTrade_sound)
      have "oppositeLoop w (filledOrder # rest) acc
            = oppositeLoop w rest (newOrders @ [placedOrder], e3)"
        using Some p Inr
        by (simp add: acc Let_def level_def [symmetric] oppositeSide_def [symmetric]
              newOrder_def [symmetric] updatedGridLevel_def [symmetric] e2_def [symmetric]
              e3_def [symmetric])
      then show ?thesis
        using Cons.IH [of "(newOrders @ [placedOrder], e3)"] e3 no pf r by simp
    qed
  qed
qed

lemma processFilledOrders_sound:
  assumes "soundEngine e" and "list_all finiteOrder filled"
  shows "soundEngine (processFilledOrders w e filled)"
proof -
  define e1 where "e1 = e \<lparr> tradingState := (tradingState e)
                  \<lparr> activeOrders :=
                      filter (\<lambda>ord. \<not> list_ex (\<lambda>f. orderId f = orderId ord) filled)
                             (activeOrders (tradingState e)),
                    filledOrders := filledOrders (tradingState e) @ filled \<rparr> \<rparr>"
  have e1: "soundEngine e1"
    using assms(1)
    by (simp add: e1_def soundEngine_def realizedZero_def ordersFinite_def list_all_iff)
  then have z: "realizedPnL (tradingState e1) = Fin 0"
    by (simp add: soundEngine_def realizedZero_def)
  have c: "calculateRealizedPnL e1 filled = e1"
    by (rule calculateRealizedPnL_unchanged [OF assms(2) z])
  obtain newOrders e3 where l: "oppositeLoop w filled ([], e1) = (newOrders, e3)"
    by (cases "oppositeLoop w filled ([], e1)")
  from oppositeLoop_sound [of "([], e1)" filled w] e1 assms(2)
  have e3: "soundEngine e3" and no: "list_all finiteOrder newOrders" by (simp_all add: l)
  have "processFilledOrders w e filled
        = e3 \<lparr> tradingState := (tradingState e3)
                  \<lparr> activeOrders := activeOrders (tradingState e3) @ newOrders \<rparr> \<rparr>"
    by (simp add: processFilledOrders_def Let_def e1_def [symmetric] c l)
  then show ?thesis
    using e3 no by (simp add: soundEngine_def realizedZero_def ordersFinite_def)
qed

lemma checkFillsLoop_sound:
  assumes "list_all finiteOrder orders" and "list_all finiteOrder (fst acc)"
  shows "tradingState (snd (checkFillsLoop w orders acc)) = tradingState (snd acc)
       \<and> historicalTrades (snd (checkFillsLoop w orders acc)) = historicalTrades (snd acc)
       \<and> list_all finiteOrder (fst (checkFillsLoop w orders acc))"
  using assms
proof (induction orders arbitrary: acc)
  case Nil
  then show ?case by simp
next
  case (Cons ord rest)
  obtain filled e where acc: "acc = (filled, e)" by (cases acc)
  have o: "finiteOrder ord" and r: "list_all finiteOrder rest" using Cons.prems(1) by simp_all
  have fl: "list_all finiteOrder filled" using Cons.prems(2) by (simp add: acc)
  show ?case
  proof (cases "truthyId (exchangeOrderId ord)")
    case None
    then show ?thesis using Cons.IH [of "(filled, e)"] r fl by (simp add: acc)
  next
    case (Some exchangeId)
    define e' where "e' = e \<lparr> requests := requests e @ [GetOrderStatus exchangeId] \<rparr>"
    have s: "tradingState e' = tradingState e" "historicalTrades e' = historicalTrades e"
      by (simp_all add: e'_def)
    show ?thesis
    proof (cases "getOrderStatus w (length (requests e)) exchangeId = Inr Filled")
      case True
      then have "checkFillsLoop w (ord # rest) acc
                 = checkFillsLoop w rest (filled @ [ord \<lparr> status := Filled \<rparr>], e')"
        using Some by (simp add: acc Let_def e'_def)
      moreover have "list_all finiteOrder (filled @ [ord \<lparr> status := Filled \<rparr>])"
        using fl o by (simp add: finiteOrder_def)
      ultimately show ?thesis
        using Cons.IH [of "(filled @ [ord \<lparr> status := Filled \<rparr>], e')"] r s by (simp add: acc)
    next
      case False
      then have "checkFillsLoop w (ord # rest) acc = checkFillsLoop w rest (filled, e')"
        using Some
        by (simp add: acc Let_def e'_def split: sum.splits OrderStatus.splits)
      then show ?thesis
        using Cons.IH [of "(filled, e')"] r fl s by (simp add: acc)
    qed
  qed
qed

lemma placeIfPending_sound:
  assumes "case ordOpt of None \<Rightarrow> True | Some ord \<Rightarrow> finiteOrder ord"
    and "list_all finiteOrder (fst acc)"
  shows "tradingState (snd (snd (placeIfPending w ordOpt acc))) = tradingState (snd acc)
       \<and> historicalTrades (snd (snd (placeIfPending w ordOpt acc))) = historicalTrades (snd acc)
       \<and> list_all finiteOrder (fst (snd (placeIfPending w ordOpt acc)))"
proof (cases ordOpt)
  case None
  then show ?thesis using assms(2) by (simp add: placeIfPending_def)
next
  case (Some ord)
  then have o: "finiteOrder ord" using assms(1) by simp
  show ?thesis
  proof (cases "status ord = Pending")
    case True
    obtain outcome e' where p: "placeOrder w (snd acc) ord = (outcome, e')"
      by (cases "placeOrder w (snd acc) ord")
    have s: "tradingState e' = tradingState (snd acc)"
      "historicalTrades e' = historicalTrades (snd acc)"
      using placeOrder_state [of w "snd acc" ord] p by simp_all
    show ?thesis
    proof (cases outcome)
      case (Inl err)
      then show ?thesis using Some True p s assms(2) by (simp add: placeIfPending_def)
    next
      case (Inr placed)
      have "finiteOrder placed"
        using placeOrder_finite [of w "snd acc" ord placed e'] p Inr o by simp
      then show ?thesis using Some True p Inr s assms(2) by (simp add: placeIfPending_def)
    qed
  next
    case False
    with Some show ?thesis using assms(2) by (simp add: placeIfPending_def)
  qed
qed

lemma placeLevels_sound:
  assumes "list_all finiteLevel levels" and "list_all finiteOrder (fst acc)"
  shows "tradingState (snd (placeLevels w levels acc)) = tradingState (snd acc)
       \<and> historicalTrades (snd (placeLevels w levels acc)) = historicalTrades (snd acc)
       \<and> list_all finiteOrder (fst (placeLevels w levels acc))"
  using assms
proof (induction levels arbitrary: acc)
  case Nil
  then show ?case by simp
next
  case (Cons level rest)
  have lv: "finiteLevel level" and r: "list_all finiteLevel rest"
    using Cons.prems(1) by simp_all
  have b: "case buyOrder level of None \<Rightarrow> True | Some ord \<Rightarrow> finiteOrder ord"
    and s: "case sellOrder level of None \<Rightarrow> True | Some ord \<Rightarrow> finiteOrder ord"
    using lv by (simp_all add: finiteLevel_def)
  show ?case
  proof (cases "isActive level")
    case False
    then show ?thesis using Cons.IH [OF r Cons.prems(2)] by simp
  next
    case True
    obtain threw acc1 where pb: "placeIfPending w (buyOrder level) acc = (threw, acc1)"
      by (cases "placeIfPending w (buyOrder level) acc")
    from placeIfPending_sound [OF b Cons.prems(2), of w]
    have a1: "tradingState (snd acc1) = tradingState (snd acc)"
      "historicalTrades (snd acc1) = historicalTrades (snd acc)"
      "list_all finiteOrder (fst acc1)"
      by (simp_all add: pb)
    show ?thesis
    proof (cases threw)
      case True
      with \<open>isActive level\<close> pb
      have "placeLevels w (level # rest) acc = placeLevels w rest acc1" by simp
      then show ?thesis using Cons.IH [OF r a1(3)] a1 by simp
    next
      case False
      define acc2 where "acc2 = snd (placeIfPending w (sellOrder level) acc1)"
      from placeIfPending_sound [OF s a1(3), of w]
      have a2: "tradingState (snd acc2) = tradingState (snd acc1)"
        "historicalTrades (snd acc2) = historicalTrades (snd acc1)"
        "list_all finiteOrder (fst acc2)"
        by (simp_all add: acc2_def)
      from False \<open>isActive level\<close> pb
      have "placeLevels w (level # rest) acc = placeLevels w rest acc2"
        by (simp add: acc2_def)
      then show ?thesis using Cons.IH [OF r a2(3)] a1 a2 by simp
    qed
  qed
qed

lemma placeGridOrders_sound:
  assumes "soundEngine e"
  shows "soundEngine (placeGridOrders w e)"
proof -
  obtain placedOrders e' where p: "placeLevels w (gridLevels (tradingState e)) ([], e)
                                   = (placedOrders, e')"
    by (cases "placeLevels w (gridLevels (tradingState e)) ([], e)")
  have lv: "list_all finiteLevel (gridLevels (tradingState e))"
    using assms by (simp add: soundEngine_def ordersFinite_def)
  from placeLevels_sound [OF lv, of "([], e)" w]
  have s: "tradingState e' = tradingState e" "historicalTrades e' = historicalTrades e"
    "list_all finiteOrder placedOrders"
    by (simp_all add: p)
  have "list_all finiteOrder
          (filter (\<lambda>ord. \<not> list_ex (\<lambda>placed. orderId placed = orderId ord) placedOrders)
                  (activeOrders (tradingState e)) @ placedOrders)"
    using assms s(3) by (auto simp add: soundEngine_def ordersFinite_def list_all_iff)
  then show ?thesis
    using assms s(1,2)
    by (simp add: placeGridOrders_def p soundEngine_def realizedZero_def ordersFinite_def)
qed

lemma updatePerformanceMetrics_sound:
  "soundEngine (updatePerformanceMetrics e) = soundEngine e"
  by (rule soundEngine_eq)
     (simp_all add: updatePerformanceMetrics_def calculateUnrealizedPnL_def Let_def)

lemma initialize_sound:
  assumes "soundEngine e"
  shows "soundEngine (snd (initialize w e))"
proof (cases "getCurrentPrice w (length (requests e))")
  case (Inl err)
  then show ?thesis
    using assms
    by (simp add: initialize_def Let_def soundEngine_def realizedZero_def ordersFinite_def)
next
  case (Inr cp)
  define e1 where "e1 = e \<lparr> requests := requests e @ [GetCurrentPrice],
                            tradingState := (tradingState e) \<lparr> currentPrice := cp \<rparr>,
                            priceHistory := priceHistory e @ [cp] \<rparr>"
  have "soundEngine e1"
    using assms by (simp add: e1_def soundEngine_def realizedZero_def ordersFinite_def)
  then have "soundEngine (updatePerformanceMetrics (placeGridOrders w e1))"
    by (simp add: updatePerformanceMetrics_sound placeGridOrders_sound)
  moreover have "snd (initialize w e) = updatePerformanceMetrics (placeGridOrders w e1)"
    using Inr by (simp add: initialize_def Let_def e1_def)
  ultimately show ?thesis by simp
qed

lemma updateMarketData_sound:
  assumes "soundEngine e"
  shows "soundEngine (updateMarketData w e)"
proof (cases "getCurrentPrice w (length (requests e))")
  case (Inl err)
  then show ?thesis
    using assms
    by (simp add: updateMarketData_def Let_def soundEngine_def realizedZero_def
          ordersFinite_def)
next
  case (Inr cp)
  define e1 where "e1 = e \<lparr> requests := requests e @ [GetCurrentPrice],
                            tradingState := (tradingState e) \<lparr> currentPrice := cp \<rparr>,
                            priceHistory := priceHistory e @ [cp] \<rparr>"
  have e1: "soundEngine e1"
    using assms by (simp add: e1_def soundEngine_def realizedZero_def ordersFinite_def)
  then have ao: "list_all finiteOrder (activeOrders (tradingState e1))"
    by (simp add: soundEngine_def ordersFinite_def)
  obtain filled e2 where c: "checkOrderFills w e1 = (filled, e2)"
    by (cases "checkOrderFills w e1")
  from checkFillsLoop_sound [OF ao, of "([], e1)" w] c
  have s: "tradingState e2 = tradingState e1" "historicalTrades e2 = historicalTrades e1"
    "list_all finiteOrder filled"
    by (simp_all add: checkOrderFills_def)
  have e2: "soundEngine e2"
    using soundEngine_eq [of e2 e1] s e1 by simp
  define e3 where "e3 = (if length filled > 0 then processFilledOrders w e2 filled else e2)"
  have "soundEngine e3"
    unfolding e3_def using e2 s(3) by (simp add: processFilledOrders_sound)
  then have "soundEngine (updatePerformanceMetrics e3)"
    by (simp add: updatePerformanceMetrics_sound)
  moreover have "updateMarketData w e = updatePerformanceMetrics e3"
    using Inr c by (simp add: updateMarketData_def Let_def e1_def [symmetric] e3_def)
  ultimately show ?thesis by simp
qed

lemma cancelLoop_state:
  "tradingState (snd (cancelLoop w orders e)) = tradingState e
   \<and> historicalTrades (snd (cancelLoop w orders e)) = historicalTrades e"
proof (induction orders arbitrary: e)
  case Nil
  then show ?case by simp
next
  case (Cons ord rest)
  show ?case
  proof (cases "truthyId (exchangeOrderId ord)")
    case None
    then show ?thesis using Cons.IH by simp
  next
    case (Some exchangeId)
    show ?thesis
    proof (cases "cancelOrder w (length (requests e)) exchangeId")
      case (Inl err)
      with Some show ?thesis by (simp add: Let_def)
    next
      case (Inr u)
      with Some show ?thesis
        using Cons.IH [of "e \<lparr> requests := requests e @ [CancelOrder exchangeId] \<rparr>"]
        by (simp add: Let_def)
    qed
  qed
qed

lemma cancelAllOrders_sound:
  assumes "soundEngine e"
  shows "soundEngine (snd (cancelAllOrders w e))"
proof -
  obtain outcome e' where c: "cancelLoop w (activeOrders (tradingState e)) e = (outcome, e')"
    by (cases "cancelLoop w (activeOrders (tradingState e)) e")
  have s: "tradingState e' = tradingState e" "historicalTrades e' = historicalTrades e"
    using cancelLoop_state [of w "activeOrders (tradingState e)" e] c by simp_all
  show ?thesis
    using assms s
    by (cases outcome)
       (simp_all add: cancelAllOrders_def c soundEngine_def realizedZero_def ordersFinite_def)
qed

lemma reachable_sound:
  assumes "reachable w initialState e"
    and "realizedPnL initialState = Fin 0" and "ordersFinite initialState"
  shows "soundEngine e"
  using assms
proof (induction rule: reachable.induct)
  case created
  then show ?case by (simp add: soundEngine_def realizedZero_def newExecutionEngine_def)
next
  case (initialized e)
  then show ?case by (simp add: initialize_sound)
next
  case (updated e)
  then show ?case by (simp add: updateMarketData_sound)
next
  case (cancelled e)
  then show ?case by (simp add: cancelAllOrders_sound)
qed

lemma reachable_engineAfterNaNFill:
  "reachable fillingWorld nanSizeState engineAfterNaNFill"
  unfolding engineAfterNaNFill_def
  by (intro reachable.updated reachable.initialized reachable.created)

lemma engineAfterNaNFill_profit:
  "realizedPnL (tradingState engineAfterNaNFill) = NaN
   \<and> map profit (historicalTrades engineAfterNaNFill) = [Fin 0, NaN]"
  by (simp add: engineAfterNaNFill_def nanSizeState_def fillingWorld_def newExecutionEngine_def
      oneLevelState_def
      buyAt95_def initialize_def placeGridOrders_def placeIfPending_def placeOrder_def
      updatePerformanceMetrics_def calculateUnrealizedPnL_def updateMarketData_def
      checkOrderFills_def truthyId_def processFilledOrders_def calculateRealizedPnL_def
      oppositeOrders_def levelHasOrder_def recordTrade_def deq_def dsub_def Let_def)

text \<open>
  Claim C2, as stated, promises a realized profit of 0 in every reachable engine state. The
  profit contribution is the price difference times the size of the order, and the size is a
  double: on a trading state whose realized profit is 0 and whose one order has the size
  \<open>NaN\<close> (the size that custom allocation gives with an all-zero pattern), after the buy
  order and then the sell order that replaced it were filled, the realized profit and the
  profit of the second trade are \<open>NaN\<close>.
\<close>

theorem realized_profit_not_a_number:
  "realizedPnL nanSizeState = Fin 0
   \<and> reachable fillingWorld nanSizeState engineAfterNaNFill
   \<and> realizedPnL (tradingState engineAfterNaNFill) = NaN
   \<and> map profit (historicalTrades engineAfterNaNFill) = [Fin 0, NaN]"
proof -
  have "realizedPnL nanSizeState = Fin 0" by (simp add: nanSizeState_def oneLevelState_def)
  with reachable_engineAfterNaNFill engineAfterNaNFill_profit show ?thesis by simp
qed

text \<open>
  Claim C2, amended: for every engine state reachable from a trading state whose realizedPnL
  is 0 and whose active orders and orders on the grid levels all have a finite price and a
  finite size (the prices of the levels being finite numbers), realizedPnL equals 0 and every
  recorded HistoricalTrade has profit 0. calculateRealizedPnL pairs a filled order only with
  filled orders of the other side whose price is \<open>===\<close> its own, so with a finite size it adds
  0 to the realized profit; initialize, updateMarketData (with processFilledOrders) and
  cancelAllOrders preserve the invariant, under every behaviour of the exchange.
\<close>

theorem realized_profit_always_zero:
  assumes "reachable w initialState e"
    and "realizedPnL initialState = Fin 0"
    and "ordersFinite initialState"
  shows "realizedPnL (tradingState e) = Fin 0
       \<and> (\<forall>trade \<in> set (historicalTrades e). profit trade = Fin 0)
       \<and> (list_all finiteOrder filled \<longrightarrow>
            realizedPnL (tradingState (calculateRealizedPnL e filled)) = Fin 0)"
proof -
  have "soundEngine e" using assms by (rule reachable_sound)
  then have z: "realizedZero e" by (simp add: soundEngine_def)
  then have p: "realizedPnL (tradingState e) = Fin 0" by (simp add: realizedZero_def)
  have "list_all finiteOrder filled \<longrightarrow>
            realizedPnL (tradingState (calculateRealizedPnL e filled)) = Fin 0"
    using p by (simp add: calculateRealizedPnL_unchanged)
  with z show ?thesis by (simp add: realizedZero_def list_all_iff)
qed

lemma reachable_engineAfterFill: "reachable fillingWorld oneLevelState engineAfterFill"
  unfolding engineAfterFill_def
  by (intro reachable.updated reachable.initialized reachable.created)

lemma historicalTrades_engineAfterFill:
  "historicalTrades engineAfterFill
     = [\<lparr> timestamp = 0, tradePrice = Fin 95, tradeSize = Fin 2, tradeSide = Buy,
          gridLevel = 0, profit = Fin 0 \<rparr>,
        \<lparr> timestamp = 0, tradePrice = Fin 95, tradeSize = Fin 2, tradeSide = Sell,
          gridLevel = 0, profit = Fin 0 \<rparr>]"
  by (simp add: engineAfterFill_def fillingWorld_def newExecutionEngine_def oneLevelState_def
      buyAt95_def initialize_def placeGridOrders_def placeIfPending_def placeOrder_def
      updatePerformanceMetrics_def calculateUnrealizedPnL_def updateMarketData_def
      checkOrderFills_def truthyId_def processFilledOrders_def calculateRealizedPnL_def
      oppositeOrders_def levelHasOrder_def recordTrade_def deq_def dsub_def Let_def)

text \<open>
  The theorem on the engine in which a buy order of size 2 at 95 and then the sell order at
  95 that replaced it were filled: two trades are recorded, and both the realized profit and
  the profit of the paired sell are zero.
\<close>

theorem realized_profit_always_zero_witness:
  "length (historicalTrades engineAfterFill) = 2
   \<and> realizedPnL (tradingState engineAfterFill) = Fin 0
   \<and> profit (historicalTrades engineAfterFill ! 1) = Fin 0"
proof -
  have n: "length (historicalTrades engineAfterFill) = 2"
    by (simp add: historicalTrades_engineAfterFill)
  then have m: "historicalTrades engineAfterFill ! 1 \<in> set (historicalTrades engineAfterFill)"
    by simp
  have z: "realizedPnL oneLevelState = Fin 0" by (simp add: oneLevelState_def)
  have f: "ordersFinite oneLevelState"
    by (simp add: ordersFinite_def oneLevelState_def finiteLevel_def finiteOrder_def
        isFinite_def buyAt95_def)
  from realized_profit_always_zero [OF reachable_engineAfterFill z f, of "[]"]
  have "realizedPnL (tradingState engineAfterFill) = Fin 0"
    and "\<forall>trade \<in> set (historicalTrades engineAfterFill). profit trade = Fin 0"
    by blast+
  with n m show ?thesis by blast
qed

section \<open>Cancelling all orders\<close>

lemma exchangeIds_Cons:
  "exchangeIds (ord # rest)
     = (case truthyId (exchangeOrderId ord) of
          None \<Rightarrow> exchangeIds rest
        | Some i \<Rightarrow> i # exchangeIds rest)"
  by (simp add: exchangeIds_def List.map_filter_simps split: option.splits)

lemma cancelLoop_all_succeed:
  assumes "\<forall>k < length (exchangeIds orders).
             cancelOrder w (length (requests e) + k) (exchangeIds orders ! k) = Inr ()"
  shows "cancelLoop w orders e
         = (Inr (), e \<lparr> requests := requests e @ map CancelOrder (exchangeIds orders) \<rparr>)"
  using assms
proof (induction orders arbitrary: e)
  case Nil
  then show ?case by (simp add: exchangeIds_def List.map_filter_simps)
next
  case (Cons ord rest)
  show ?case
  proof (cases "truthyId (exchangeOrderId ord)")
    case None
    then show ?thesis using Cons.IH [of e] Cons.prems by (simp add: exchangeIds_Cons)
  next
    case (Some i)
    define e' where "e' = e \<lparr> requests := requests e @ [CancelOrder i] \<rparr>"
    have ids: "exchangeIds (ord # rest) = i # exchangeIds rest"
      using Some by (simp add: exchangeIds_Cons)
    have first: "cancelOrder w (length (requests e)) i = Inr ()"
      using Cons.prems [unfolded ids, rule_format, of 0] by simp
    have later: "\<forall>k < length (exchangeIds rest).
                   cancelOrder w (length (requests e') + k) (exchangeIds rest ! k) = Inr ()"
    proof (intro allI impI)
      fix k assume "k < length (exchangeIds rest)"
      then show "cancelOrder w (length (requests e') + k) (exchangeIds rest ! k) = Inr ()"
        using Cons.prems [unfolded ids, rule_format, of "Suc k"] by (simp add: e'_def)
    qed
    have "cancelLoop w (ord # rest) e = cancelLoop w rest e'"
      using Some first by (simp add: Let_def e'_def)
    also have "\<dots> = (Inr (), e' \<lparr> requests := requests e' @ map CancelOrder (exchangeIds rest) \<rparr>)"
      using later by (rule Cons.IH)
    finally show ?thesis by (simp add: ids e'_def)
  qed
qed

lemma cancelLoop_first_failure:
  assumes "k < length (exchangeIds orders)"
    and "cancelOrder w (length (requests e) + k) (exchangeIds orders ! k) = Inl err"
    and "\<forall>j < k. cancelOrder w (length (requests e) + j) (exchangeIds orders ! j) = Inr ()"
  shows "cancelLoop w orders e
         = (Inl err,
            e \<lparr> requests := requests e @ map CancelOrder (take (Suc k) (exchangeIds orders)) \<rparr>)"
  using assms
proof (induction orders arbitrary: e k)
  case Nil
  then show ?case by (simp add: exchangeIds_def List.map_filter_simps)
next
  case (Cons ord rest)
  show ?case
  proof (cases "truthyId (exchangeOrderId ord)")
    case None
    then show ?thesis using Cons.IH [of k e] Cons.prems by (simp add: exchangeIds_Cons)
  next
    case (Some i)
    define e' where "e' = e \<lparr> requests := requests e @ [CancelOrder i] \<rparr>"
    have ids: "exchangeIds (ord # rest) = i # exchangeIds rest"
      using Some by (simp add: exchangeIds_Cons)
    show ?thesis
    proof (cases k)
      case 0
      then have "cancelOrder w (length (requests e)) i = Inl err"
        using Cons.prems(2) by (simp add: ids)
      then show ?thesis using Some 0 by (simp add: Let_def ids)
    next
      case (Suc k')
      have first: "cancelOrder w (length (requests e)) i = Inr ()"
        using Cons.prems(3) [unfolded ids, rule_format, of 0] Suc by simp
      have 1: "k' < length (exchangeIds rest)"
        using Cons.prems(1) Suc by (simp add: ids)
      have 2: "cancelOrder w (length (requests e') + k') (exchangeIds rest ! k') = Inl err"
        using Cons.prems(2) Suc by (simp add: ids e'_def)
      have 3: "\<forall>j < k'. cancelOrder w (length (requests e') + j) (exchangeIds rest ! j) = Inr ()"
      proof (intro allI impI)
        fix j assume "j < k'"
        then show "cancelOrder w (length (requests e') + j) (exchangeIds rest ! j) = Inr ()"
          using Cons.prems(3) [unfolded ids, rule_format, of "Suc j"] Suc by (simp add: e'_def)
      qed
      have "cancelLoop w (ord # rest) e = cancelLoop w rest e'"
        using Some first by (simp add: Let_def e'_def)
      also have "\<dots> = (Inl err,
            e' \<lparr> requests := requests e' @ map CancelOrder (take (Suc k') (exchangeIds rest)) \<rparr>)"
        using 1 2 3 by (rule Cons.IH)
      finally show ?thesis by (simp add: ids e'_def Suc)
    qed
  qed
qed

lemma stop_not_running: "\<not> isRunning (stop w tb)"
  by (simp add: stop_def Let_def split: prod.splits)

text \<open>
  Claim C1, as stated, promises an empty active-order list and no propagated failure under
  every pattern of cancellation failures. The loop of cancelAllOrders runs inside one
  \<open>try\<close> block whose \<open>catch\<close> rethrows: with two active orders and an exchange that refuses
  the first cancellation, the call fails with the exchange's error, both orders stay active,
  and the cancellation of the second order is never requested.
\<close>

theorem cancelAllOrders_fails_and_keeps_orders:
  "fst (cancelAllOrders fillingWorld twoActiveOrders) = Inl ExchangeError
   \<and> activeOrders (tradingState (snd (cancelAllOrders fillingWorld twoActiveOrders)))
       = [buyAt95 \<lparr> exchangeOrderId := Some ''a'' \<rparr>,
          buyAt95 \<lparr> orderId := ''o2'', exchangeOrderId := Some ''b'' \<rparr>]
   \<and> requests (snd (cancelAllOrders fillingWorld twoActiveOrders)) = [CancelOrder ''a'']"
  by (simp add: cancelAllOrders_def twoActiveOrders_def newExecutionEngine_def
      oneLevelState_def buyAt95_def fillingWorld_def truthyId_def Let_def)

text \<open>
  Claim C1, amended: cancelAllOrders requests the cancellation of the active orders that have
  an exchange identifier, in list order. If no cancellation fails, every such order is
  attempted, the active-order list is cleared and the call returns normally. At the first
  cancellation that fails the loop stops: the later orders are not attempted, the
  active-order list is left as it was and the error is rethrown to the caller.
  TradingBot.stop catches that error, so the shutdown completes in every case: after stop the
  bot is not running.
\<close>

theorem cancelAllOrders_stops_at_first_failure:
  "((\<forall>k < length (exchangeIds (activeOrders (tradingState e))).
       cancelOrder w (length (requests e) + k)
         (exchangeIds (activeOrders (tradingState e)) ! k) = Inr ())
    \<longrightarrow> cancelAllOrders w e
        = (Inr (),
           e \<lparr> requests := requests e
                             @ map CancelOrder (exchangeIds (activeOrders (tradingState e))),
               tradingState := (tradingState e) \<lparr> activeOrders := [] \<rparr> \<rparr>))
   \<and> (\<forall>k err.
         k < length (exchangeIds (activeOrders (tradingState e)))
         \<and> cancelOrder w (length (requests e) + k)
              (exchangeIds (activeOrders (tradingState e)) ! k) = Inl err
         \<and> (\<forall>j < k. cancelOrder w (length (requests e) + j)
                        (exchangeIds (activeOrders (tradingState e)) ! j) = Inr ())
         \<longrightarrow> cancelAllOrders w e
             = (Inl err,
                e \<lparr> requests := requests e
                      @ map CancelOrder
                          (take (Suc k) (exchangeIds (activeOrders (tradingState e)))) \<rparr>))
   \<and> \<not> isRunning (stop w tb)"
proof (intro conjI allI impI)
  assume "\<forall>k < length (exchangeIds (activeOrders (tradingState e))).
       cancelOrder w (length (requests e) + k)
         (exchangeIds (activeOrders (tradingState e)) ! k) = Inr ()"
  then have "cancelLoop w (activeOrders (tradingState e)) e
         = (Inr (), e \<lparr> requests := requests e
                          @ map CancelOrder (exchangeIds (activeOrders (tradingState e))) \<rparr>)"
    by (rule cancelLoop_all_succeed)
  then show "cancelAllOrders w e
        = (Inr (),
           e \<lparr> requests := requests e
                             @ map CancelOrder (exchangeIds (activeOrders (tradingState e))),
               tradingState := (tradingState e) \<lparr> activeOrders := [] \<rparr> \<rparr>)"
    by (simp add: cancelAllOrders_def)
next
  fix k err
  assume h: "k < length (exchangeIds (activeOrders (tradingState e)))
         \<and> cancelOrder w (length (requests e) + k)
              (exchangeIds (activeOrders (tradingState e)) ! k) = Inl err
         \<and> (\<forall>j < k. cancelOrder w (length (requests e) + j)
                        (exchangeIds (activeOrders (tradingState e)) ! j) = Inr ())"
  then have "cancelLoop w (activeOrders (tradingState e)) e
         = (Inl err,
            e \<lparr> requests := requests e
                  @ map CancelOrder
                      (take (Suc k) (exchangeIds (activeOrders (tradingState e)))) \<rparr>)"
    by (intro cancelLoop_first_failure) simp_all
  then show "cancelAllOrders w e
             = (Inl err,
                e \<lparr> requests := requests e
                      @ map CancelOrder
                          (take (Suc k) (exchangeIds (activeOrders (tradingState e)))) \<rparr>)"
    by (simp add: cancelAllOrders_def)
next
  show "\<not> isRunning (stop w tb)" by (rule stop_not_running)
qed

lemma twoActiveOrders_ids:
  "exchangeIds (activeOrders (tradingState twoActiveOrders)) = [''a'', ''b'']"
  "requests twoActiveOrders = []"
  by (simp_all add: twoActiveOrders_def newExecutionEngine_def oneLevelState_def buyAt95_def
        exchangeIds_def List.map_filter_simps truthyId_def)

text \<open>
  The theorem on the engine with the two active orders \<open>a\<close> and \<open>b\<close>: an exchange that
  refuses every cancellation makes the call fail after the request for \<open>a\<close>, and an
  exchange that accepts every cancellation gets both requests and leaves no active order.
\<close>

theorem cancelAllOrders_stops_at_first_failure_witness:
  "cancelAllOrders fillingWorld twoActiveOrders
     = (Inl ExchangeError, twoActiveOrders \<lparr> requests := [CancelOrder ''a''] \<rparr>)
   \<and> cancelAllOrders cancellingWorld twoActiveOrders
     = (Inr (),
        twoActiveOrders
          \<lparr> requests := [CancelOrder ''a'', CancelOrder ''b''],
            tradingState := (tradingState twoActiveOrders) \<lparr> activeOrders := [] \<rparr> \<rparr>)"
proof -
  have fail: "0 < length (exchangeIds (activeOrders (tradingState twoActiveOrders)))
         \<and> cancelOrder fillingWorld (length (requests twoActiveOrders) + 0)
              (exchangeIds (activeOrders (tradingState twoActiveOrders)) ! 0)
             = Inl ExchangeError
         \<and> (\<forall>j < 0. cancelOrder fillingWorld (length (requests twoActiveOrders) + j)
                        (exchangeIds (activeOrders (tradingState twoActiveOrders)) ! j)
                       = Inr ())"
    by (simp add: twoActiveOrders_ids fillingWorld_def)
  have ok: "\<forall>k < length (exchangeIds (activeOrders (tradingState twoActiveOrders))).
       cancelOrder cancellingWorld (length (requests twoActiveOrders) + k)
         (exchangeIds (activeOrders (tradingState twoActiveOrders)) ! k) = Inr ()"
    by (simp add: cancellingWorld_def)
  have 1: "cancelAllOrders fillingWorld twoActiveOrders
           = (Inl ExchangeError,
              twoActiveOrders
                \<lparr> requests := requests twoActiveOrders
                     @ map CancelOrder
                         (take (Suc 0)
                            (exchangeIds (activeOrders (tradingState twoActiveOrders)))) \<rparr>)"
    by (rule cancelAllOrders_stops_at_first_failure
              [of twoActiveOrders fillingWorld, THEN conjunct2, THEN conjunct1,
               THEN spec, THEN spec, THEN mp, OF fail])
  have 2: "cancelAllOrders cancellingWorld twoActiveOrders
           = (Inr (),
              twoActiveOrders
                \<lparr> requests := requests twoActiveOrders
                     @ map CancelOrder
                         (exchangeIds (activeOrders (tradingState twoActiveOrders))),
                  tradingState := (tradingState twoActiveOrders) \<lparr> activeOrders := [] \<rparr> \<rparr>)"
    by (rule cancelAllOrders_stops_at_first_failure
              [of twoActiveOrders cancellingWorld, THEN conjunct1, THEN mp, OF ok])
  from 1 2 show ?thesis by (simp add: twoActiveOrders_ids)
qed

end
